theory Spec2Isabelle
  imports Complex_Main
begin

section \<open>JavaScript values used by the game core\<close>

text \<open>
  Numbers of the source are IEEE doubles.  Lives, scores, timestamps and the counter
  \<open>trailSentCount\<close> (which a mirror copies from the wire) are integers there and are
  modelled as \<^typ>\<open>int\<close>; \<open>trailLen\<close> and \<open>trailStart\<close> are only ever set to 0, incremented,
  set to \<open>TRAIL_MAX\<close> or reduced modulo \<open>TRAIL_MAX\<close>, and are \<^typ>\<open>nat\<close>.  Coordinates,
  headings and speeds are \<^typ>\<open>real\<close> numbers.  Where a value is stored or transmitted the
  rounding is written out: a store into a \<open>Float32Array\<close> is \<open>fround\<close>, and the products,
  sums and quotients of the fixed-point codec are rounded to a double by \<open>fl\<close>.  The
  arithmetic of the motion and of the distance test is exact: \<open>Math.cos\<close> and \<open>Math.sin\<close>
  have no specified rounding.  The integer conversions of the
  source are written out: \<open>v | 0\<close> is \<open>toInt32\<close>, a store into an \<open>Int16Array\<close>,
  \<open>Uint8Array\<close> or \<open>Uint16Array\<close> wraps, \<open>%\<close> takes the sign of the dividend.
\<close>

definition toInt32 :: "real \<Rightarrow> int" where
  \<comment> \<open>\<open>v | 0\<close>: truncate toward zero, then wrap into the signed 32-bit range\<close>
  "toInt32 r =
     (let t = (if 0 \<le> r then \<lfloor>r\<rfloor> else \<lceil>r\<rceil>);
          m = t mod 4294967296
      in if 2147483648 \<le> m then m - 4294967296 else m)"

text \<open>
  Rounding to a binary floating-point format with \<open>t\<close> fraction bits and exponents from
  \<open>emin\<close> to \<open>emax\<close>, to the nearest value, a tie to the even one.  The exponent of
  \<open>\<bar>x\<bar>\<close> is searched downwards from \<open>emax\<close> and stops at \<open>emin\<close> (a subnormal); the
  spacing of the format there is \<open>q\<close>.  A result of magnitude \<open>2 ^ (emax + 1)\<close> or more
  stands for an infinity of the source.
\<close>

definition roundTiesToEven :: "real \<Rightarrow> int" where
  "roundTiesToEven r =
     (let f = \<lfloor>r\<rfloor>; d = r - real_of_int f
      in if d < 1 / 2 then f else if 1 / 2 < d then f + 1 else if even f then f else f + 1)"

fun binadeFrom :: "nat \<Rightarrow> int \<Rightarrow> real \<Rightarrow> int" where
  "binadeFrom 0 e a = e"
| "binadeFrom (Suc n) e a = (if 2 powi e \<le> a then e else binadeFrom n (e - 1) a)"

definition roundToFormat :: "nat \<Rightarrow> int \<Rightarrow> int \<Rightarrow> real \<Rightarrow> real" where
  "roundToFormat t emin emax x =
     (let e = binadeFrom (nat (emax - emin)) emax \<bar>x\<bar>;
          q = 2 powi (e - int t)
      in real_of_int (roundTiesToEven (x / q)) * q)"

definition fl :: "real \<Rightarrow> real" where
  \<comment> \<open>the double nearest to the exact result of an arithmetic operation\<close>
  "fl x = roundToFormat 52 (- 1022) 1023 x"

definition fround :: "real \<Rightarrow> real" where
  \<comment> \<open>\<open>Math.fround\<close>: the value read back after a store into a \<open>Float32Array\<close>\<close>
  "fround x = roundToFormat 23 (- 126) 127 x"

definition toInt16 :: "int \<Rightarrow> int" where
  \<comment> \<open>the value read back after a store into an \<open>Int16Array\<close>\<close>
  "toInt16 n = (let m = n mod 65536 in if 32768 \<le> m then m - 65536 else m)"

definition toUint8 :: "int \<Rightarrow> int" where
  "toUint8 n = n mod 256"

definition toUint16 :: "int \<Rightarrow> int" where
  "toUint16 n = n mod 65536"

definition js_rem :: "int \<Rightarrow> int \<Rightarrow> int" where
  \<comment> \<open>\<open>a % b\<close> on integers: the result has the sign of \<open>a\<close>\<close>
  "js_rem a b = (if 0 \<le> a then a mod \<bar>b\<bar> else - ((- a) mod \<bar>b\<bar>))"

definition arr_get :: "'a list \<Rightarrow> int \<Rightarrow> 'a option" where
  \<comment> \<open>a read of a typed array; \<open>None\<close> is \<open>undefined\<close>\<close>
  "arr_get xs i = (if 0 \<le> i \<and> i < int (length xs) then Some (xs ! nat i) else None)"

definition arr_set :: "'a list \<Rightarrow> int \<Rightarrow> 'a \<Rightarrow> 'a list" where
  \<comment> \<open>a store into a typed array; out of range it is ignored\<close>
  "arr_set xs i v = (if 0 \<le> i \<and> i < int (length xs) then xs[nat i := v] else xs)"

datatype jsval = JSString string | JSOther
  \<comment> \<open>an argument that is a string, or any value that is not (\<open>undefined\<close>, \<open>null\<close>, a number)\<close>

definition isWhiteSpace :: "char \<Rightarrow> bool" where
  \<comment> \<open>the white space and line terminators of \<open>String.prototype.trim\<close> among the code units below 256\<close>
  "isWhiteSpace c = (of_char c \<in> {9, 10, 11, 12, 13, 32, 160 :: nat})"

definition trim :: "string \<Rightarrow> string" where
  "trim s = rev (dropWhile isWhiteSpace (rev (dropWhile isWhiteSpace s)))"

section \<open>Constants of \<open>game.js\<close>\<close>

definition CANVAS_W :: real where "CANVAS_W = 1400"
definition CANVAS_H :: real where "CANVAS_H = 900"
definition BASE_SPEED :: real where "BASE_SPEED = 2.5"
definition SPEED_INCREMENT :: real where "SPEED_INCREMENT = 0.5"
definition SPEED_INTERVAL :: real where "SPEED_INTERVAL = 10"
definition MAX_SPEED :: real where "MAX_SPEED = 8"
definition TURN_SPEED :: real where "TURN_SPEED = 0.045"
definition TRAIL_MAX :: nat where "TRAIL_MAX = 600"
definition COLLISION_RADIUS :: real where "COLLISION_RADIUS = 4"
definition COLLISION_RADIUS_SQ :: real where "COLLISION_RADIUS_SQ = COLLISION_RADIUS * COLLISION_RADIUS"
definition COLLISION_SKIP_OWN :: int where "COLLISION_SKIP_OWN = 20"
definition MAX_LIVES :: int where "MAX_LIVES = 6"

definition GRID_CELL_SIZE :: real where "GRID_CELL_SIZE = 16"
definition GRID_COLS :: int where "GRID_COLS = \<lceil>CANVAS_W / GRID_CELL_SIZE\<rceil>"
definition GRID_ROWS :: int where "GRID_ROWS = \<lceil>CANVAS_H / GRID_CELL_SIZE\<rceil>"
definition GRID_TOTAL :: int where "GRID_TOTAL = GRID_COLS * GRID_ROWS"
definition MAX_GRID_ENTRIES :: nat where "MAX_GRID_ENTRIES = 8 * TRAIL_MAX"
definition TRAIL_BUFFER_SIZE :: int where "TRAIL_BUFFER_SIZE = 1200"

definition spawnConfigs :: "(real \<times> real \<times> real) list" where
  \<comment> \<open>\<open>(x, y, angle)\<close> of the eight spawn slots\<close>
  "spawnConfigs =
     [(250, 200, pi * 0.25), (1150, 200, pi * 0.75), (1150, 700, pi * 1.25), (250, 700, pi * 1.75),
      (700, 100, pi * 0.5), (700, 800, pi * 1.5), (100, 450, 0), (1300, 450, pi)]"

definition COLORS :: "string list" where
  "COLORS = [''#ff8c00'', ''#00bfff'', ''#ff2e63'', ''#39ff14'',
             ''#e040fb'', ''#ffeb3b'', ''#00e5ff'', ''#ff6e40'']"

section \<open>Competitors\<close>

text \<open>
  The player object of \<open>createPlayer\<close>.  The fields \<open>id\<close>, \<open>name\<close>, \<open>x\<close> and \<open>y\<close> of the
  source are \<open>pid\<close>, \<open>pname\<close>, \<open>px\<close> and \<open>py\<close> here.  The two \<open>Float32Array(TRAIL_MAX)\<close>
  buffers are lists of \<open>TRAIL_MAX\<close> numbers: \<open>createPlayer\<close> is their only constructor and
  nothing resizes them.  A store \<open>xs[i := v]\<close> out of range changes nothing, as in a typed
  array; the reads of the trail are at indices reduced modulo \<open>TRAIL_MAX\<close>.

  The object \<open>players\<close>, keyed by id, is the list of its competitors in the order in which
  \<open>for (const id in players)\<close> and \<open>Object.keys(players)\<close> visit them; the key of a
  competitor is its \<open>pid\<close>, and \<open>createPlayer\<close> takes its \<open>index\<close> from a count.  That order
  has the keys that are array indices first (canonical decimal numerals below \<open>2^32 - 1\<close>,
  such as the room code that is the host's id), in ascending numeric order, and then the
  other keys in the order of their insertion; \<open>insertKey\<close> adds a new key to such a list
  and \<open>forInOrder\<close> says that a list is in that order.
\<close>

record player =
  pid :: string
  pname :: string
  px :: real
  py :: real
  angle :: real
  turning :: real
  trailX :: "real list"
  trailY :: "real list"
  trailLen :: nat
  trailStart :: nat
  trailSentCount :: int
  alive :: bool
  score :: int
  lives :: int
  color :: string
  spawnIndex :: nat

definition isDigit :: "char \<Rightarrow> bool" where
  "isDigit c = (48 \<le> (of_char c :: nat) \<and> (of_char c :: nat) \<le> 57)"

definition decimal :: "string \<Rightarrow> nat" where
  "decimal k = foldl (\<lambda>n c. 10 * n + (of_char c - 48)) 0 k"

definition arrayIndex :: "string \<Rightarrow> nat option" where
  \<comment> \<open>the number of a key that is an array index\<close>
  "arrayIndex k =
     (if k \<noteq> [] \<and> list_all isDigit k \<and> (length k = 1 \<or> hd k \<noteq> CHR ''0'')
         \<and> decimal k < 4294967295
      then Some (decimal k) else None)"

definition keyBefore :: "string \<Rightarrow> string \<Rightarrow> bool" where
  \<comment> \<open>the key \<open>k\<close>, when new, is visited before the key \<open>k'\<close> that is already there\<close>
  "keyBefore k k' =
     (case arrayIndex k of
        None \<Rightarrow> False
      | Some n \<Rightarrow> (case arrayIndex k' of None \<Rightarrow> True | Some m \<Rightarrow> n < m))"

fun insertKey :: "player list \<Rightarrow> player \<Rightarrow> player list" where
  \<comment> \<open>\<open>players[id] = p\<close> for an id that is not a key yet\<close>
  "insertKey [] p = [p]"
| "insertKey (q # qs) p =
     (if keyBefore (pid p) (pid q) then p # q # qs else q # insertKey qs p)"


definition createPlayer :: "string \<Rightarrow> nat \<Rightarrow> jsval \<Rightarrow> player" where
  "createPlayer i index nm =
     \<lparr> pid = i,
       pname = (case nm of
                  JSString s \<Rightarrow> if 0 < length (trim s) then trim s else ''Player''
                | JSOther \<Rightarrow> ''Player''),
       px = CANVAS_W / 2,
       py = CANVAS_H / 2,
       angle = 0,
       turning = 0,
       trailX = replicate TRAIL_MAX 0,
       trailY = replicate TRAIL_MAX 0,
       trailLen = 0,
       trailStart = 0,
       trailSentCount = 0,
       alive = True,
       score = 0,
       lives = MAX_LIVES,
       color = COLORS ! (index mod length COLORS),
       spawnIndex = index \<rparr>"

section \<open>Speed curve\<close>

text \<open>
  \<open>getGameSpeed\<close> reads the clock; \<open>Date.now()\<close> is the argument \<open>now\<close> (milliseconds).
  The start time is \<open>None\<close> for \<open>null\<close>; the test \<open>!roundStartTime\<close> also holds for \<open>0\<close>.
  The two quotients are exact here.  For clocks that are whole milliseconds below
  \<open>2^50\<close> their rounding moves the second quotient by less than \<open>1 / 10000\<close>, the
  least distance of an inexact quotient from a whole number, so that \<open>| 0\<close> gives the
  same number of boosts; the sum is a multiple of 0.5 and exact.
\<close>

definition getGameSpeed :: "int \<Rightarrow> int option \<Rightarrow> real" where
  "getGameSpeed now roundStartTime =
     (case roundStartTime of
        None \<Rightarrow> BASE_SPEED
      | Some st \<Rightarrow>
          if st = 0 then BASE_SPEED
          else let elapsed = real_of_int (now - st) / 1000;
                   boosts = toInt32 (elapsed / SPEED_INTERVAL)
               in min (BASE_SPEED + real_of_int boosts * SPEED_INCREMENT) MAX_SPEED)"

section \<open>Trail store and spatial index (\<open>game.js\<close>)\<close>

text \<open>
  The module-level state of the spatial index: the byte per cell (\<open>None\<close> while
  \<open>spatialBitfield\<close> is \<open>null\<close>), the dirty flag, and the pool of indexed points.  The four
  pool arrays and \<open>gridPointCount\<close> are one list of entries \<open>(x, y, player index, trail
  position)\<close> whose length is \<open>gridPointCount\<close>.
\<close>

type_synonym gridPoint = "real \<times> real \<times> int \<times> int"

record grid =
  spatialBitfield :: "int list option"
  gridDirty :: bool
  gridPoints :: "gridPoint list"

definition initialGrid :: grid where
  "initialGrid = \<lparr> spatialBitfield = None, gridDirty = True, gridPoints = [] \<rparr>"

definition createBitfield :: "int list" where
  "createBitfield = replicate (nat GRID_TOTAL) 0"

definition clearBitfield :: "grid \<Rightarrow> grid" where
  "clearBitfield g =
     g\<lparr> spatialBitfield := map_option (\<lambda>bf. replicate (length bf) 0) (spatialBitfield g),
        gridPoints := [] \<rparr>"

definition getCellIndex :: "real \<Rightarrow> real \<Rightarrow> int" where
  "getCellIndex x y =
     (let col = toInt32 (x / GRID_CELL_SIZE);
          row = toInt32 (y / GRID_CELL_SIZE)
      in if col < 0 \<or> GRID_COLS \<le> col \<or> row < 0 \<or> GRID_ROWS \<le> row then - 1
         else row * GRID_COLS + col)"

definition markCell :: "grid \<Rightarrow> int \<Rightarrow> real \<Rightarrow> real \<Rightarrow> int \<Rightarrow> int \<Rightarrow> grid" where
  \<comment> \<open>the statements shared by \<open>rebuildSpatialGrid\<close> and \<open>gridInsertPoint\<close> for a point inside
      the grid; \<open>gridPointsX\<close> and \<open>gridPointsY\<close> are \<open>Float32Array\<close>s\<close>
  "markCell g cellIdx x y playerIdx trailPosition =
     (let g1 = g\<lparr> spatialBitfield :=
                   map_option (\<lambda>bf. arr_set bf cellIdx (toUint8 playerIdx)) (spatialBitfield g) \<rparr>
      in if length (gridPoints g1) < MAX_GRID_ENTRIES
         then g1\<lparr> gridPoints := gridPoints g1 @
                    [(fround x, fround y, toUint8 playerIdx, toUint16 trailPosition)] \<rparr>
         else g1)"

definition rebuildPoint :: "player \<Rightarrow> nat \<Rightarrow> nat \<Rightarrow> grid \<Rightarrow> grid" where
  \<comment> \<open>the body of the loop over the trail positions \<open>i\<close> of one competitor\<close>
  "rebuildPoint p playerIdx i g =
     (let idx = (trailStart p + i) mod TRAIL_MAX;
          cellIdx = getCellIndex (trailX p ! idx) (trailY p ! idx)
      in if 0 \<le> cellIdx
         then markCell g cellIdx (trailX p ! idx) (trailY p ! idx) (int playerIdx) (int i)
         else g)"

definition rebuildSpatialGrid :: "grid \<Rightarrow> player list \<Rightarrow> grid" where
  "rebuildSpatialGrid g players =
     (let g0 = clearBitfield
                 (if spatialBitfield g = None then g\<lparr> spatialBitfield := Some createBitfield \<rparr> else g);
          g1 = fold (\<lambda>(playerIdx, p) acc.
                       if \<not> alive p then acc
                       else fold (rebuildPoint p playerIdx) [0 ..< trailLen p] acc)
                    (enumerate 1 players) g0
      in g1\<lparr> gridDirty := False \<rparr>)"

definition gridInsertPoint :: "grid \<Rightarrow> string \<Rightarrow> nat \<Rightarrow> nat \<Rightarrow> real \<Rightarrow> real \<Rightarrow> nat \<Rightarrow> grid" where
  "gridInsertPoint g playerId bufferIdx trailPosition x y playerIndex =
     (if spatialBitfield g = None then g
      else let cellIdx = getCellIndex x y
           in if 0 \<le> cellIdx
              then markCell g cellIdx x y (int (if playerIndex = 0 then 1 else playerIndex))
                     (int trailPosition)
              else g)"

definition trailPush :: "grid \<Rightarrow> player \<Rightarrow> real \<Rightarrow> real \<Rightarrow> grid \<times> player" where
  "trailPush g p x y =
     (if trailLen p < TRAIL_MAX then
        let idx = (trailStart p + trailLen p) mod TRAIL_MAX;
            p1 = p\<lparr> trailX := (trailX p)[idx := fround x],
                   trailY := (trailY p)[idx := fround y],
                   trailLen := trailLen p + 1 \<rparr>
        in (gridInsertPoint g (pid p1) idx (trailLen p1 - 1) x y (spawnIndex p1 + 1), p1)
      else
        (g\<lparr> gridDirty := True \<rparr>,
         p\<lparr> trailX := (trailX p)[trailStart p := fround x],
            trailY := (trailY p)[trailStart p := fround y],
            trailStart := (trailStart p + 1) mod TRAIL_MAX,
            trailSentCount := (if 0 < trailSentCount p then trailSentCount p - 1
                               else trailSentCount p) \<rparr>))"

definition trailGetIndex :: "player \<Rightarrow> nat \<Rightarrow> nat" where
  "trailGetIndex p i = (trailStart p + i) mod TRAIL_MAX"

definition trailSample :: "player \<Rightarrow> nat \<Rightarrow> real \<times> real" where
  \<comment> \<open>the sample at logical position \<open>i\<close> (0 is the oldest)\<close>
  "trailSample p i = (trailX p ! trailGetIndex p i, trailY p ! trailGetIndex p i)"

definition stored :: "real \<times> real \<Rightarrow> real \<times> real" where
  \<comment> \<open>a sample as the two \<open>Float32Array\<close> buffers keep it\<close>
  "stored s = (fround (fst s), fround (snd s))"

definition pushAll :: "grid \<Rightarrow> player \<Rightarrow> (real \<times> real) list \<Rightarrow> grid \<times> player" where
  \<comment> \<open>a sequence of \<open>trailPush\<close> calls, one per sample\<close>
  "pushAll g p samples =
     foldl (\<lambda>gp s. trailPush (fst gp) (snd gp) (fst s) (snd s)) (g, p) samples"

definition trailList :: "player \<Rightarrow> (real \<times> real) list" where
  \<comment> \<open>the live samples in logical order, oldest first\<close>
  "trailList p = map (trailSample p) [0 ..< trailLen p]"

definition trailWf :: "player \<Rightarrow> bool" where
  \<comment> \<open>the shape of every trail store: two buffers of \<open>TRAIL_MAX\<close> slots, a start inside
      them and at most \<open>TRAIL_MAX\<close> live samples\<close>
  "trailWf p = (length (trailX p) = TRAIL_MAX \<and> length (trailY p) = TRAIL_MAX \<and>
                trailStart p < TRAIL_MAX \<and> trailLen p \<le> TRAIL_MAX)"

definition trailInv :: "player \<Rightarrow> bool" where
  \<comment> \<open>the invariant of the counters\<close>
  "trailInv p = (0 \<le> trailSentCount p \<and> trailSentCount p \<le> int (trailLen p) \<and>
                 trailLen p \<le> TRAIL_MAX)"

section \<open>Motion\<close>

definition outOfBounds :: "real \<Rightarrow> real \<Rightarrow> bool" where
  \<comment> \<open>the wall test of \<open>movePlayer\<close>\<close>
  "outOfBounds x y = (x < 0 \<or> CANVAS_W < x \<or> y < 0 \<or> CANVAS_H < y)"

definition movePlayer :: "grid \<Rightarrow> player \<Rightarrow> real \<Rightarrow> grid \<times> player" where
  "movePlayer g p speed =
     (let a = angle p + turning p * TURN_SPEED;
          x = px p + cos a * speed;
          y = py p + sin a * speed;
          (g1, p1) = trailPush g (p\<lparr> angle := a, px := x, py := y \<rparr>) x y
      in (g1, if outOfBounds x y then p1\<lparr> alive := False \<rparr> else p1))"

section \<open>Collision detection (\<open>game.js\<close>: byte per cell and bounded pool)\<close>

definition skipPoint :: "player \<Rightarrow> int \<Rightarrow> gridPoint \<Rightarrow> bool" where
  \<comment> \<open>the two \<open>continue\<close> statements on recent points\<close>
  "skipPoint p myIndex pt =
     (case pt of (ptX, ptY, ptPlayerIdx, trailPos) \<Rightarrow>
        if ptPlayerIdx = myIndex then int (trailLen p) - COLLISION_SKIP_OWN \<le> trailPos
        else 598 \<le> trailPos)"

definition hitTest :: "real \<Rightarrow> real \<Rightarrow> real \<Rightarrow> real \<Rightarrow> bool" where
  \<comment> \<open>the bounding-box reject, then the squared distance\<close>
  "hitTest x y tx ty =
     (let dx = x - tx; dy = y - ty
      in if COLLISION_RADIUS < dx \<or> dx < - COLLISION_RADIUS \<or>
            COLLISION_RADIUS < dy \<or> dy < - COLLISION_RADIUS then False
         else dx * dx + dy * dy < COLLISION_RADIUS_SQ)"

fun scanPoints :: "player \<Rightarrow> int \<Rightarrow> int \<Rightarrow> gridPoint list \<Rightarrow> bool" where
  "scanPoints p myIndex cellIdx [] = False"
| "scanPoints p myIndex cellIdx (pt # pts) =
     (case pt of (ptX, ptY, ptPlayerIdx, trailPos) \<Rightarrow>
        if getCellIndex ptX ptY \<noteq> cellIdx then scanPoints p myIndex cellIdx pts
        else if skipPoint p myIndex pt then scanPoints p myIndex cellIdx pts
        else if hitTest (px p) (py p) ptX ptY then True
        else scanPoints p myIndex cellIdx pts)"

definition neighbourhood :: "(int \<times> int) list" where
  \<comment> \<open>\<open>(dr, dc)\<close> in the order of the two nested loops\<close>
  "neighbourhood = concat (map (\<lambda>dr. map (\<lambda>dc. (dr, dc)) [- 1, 0, 1]) [- 1, 0, 1])"

fun scanCells :: "grid \<Rightarrow> player \<Rightarrow> int \<Rightarrow> int \<Rightarrow> int \<Rightarrow> (int \<times> int) list \<Rightarrow> bool" where
  \<comment> \<open>the loops over \<open>dr\<close> and \<open>dc\<close>; \<open>checkCollisions\<close> has rebuilt a \<open>null\<close> bitfield
      before, so the case \<open>None\<close> is never taken\<close>
  "scanCells g p myIndex row col [] = False"
| "scanCells g p myIndex row col (d # ds) =
     (let nr = row + fst d; nc = col + snd d
      in if nr < 0 \<or> GRID_ROWS \<le> nr \<or> nc < 0 \<or> GRID_COLS \<le> nc
         then scanCells g p myIndex row col ds
         else let cellIdx = nr * GRID_COLS + nc
              in if (case spatialBitfield g of None \<Rightarrow> False
                     | Some bf \<Rightarrow> arr_get bf cellIdx = Some 0)
                 then scanCells g p myIndex row col ds
                 else if scanPoints p myIndex cellIdx (gridPoints g) then True
                 else scanCells g p myIndex row col ds)"

definition playerHit :: "grid \<Rightarrow> player \<Rightarrow> int \<Rightarrow> bool" where
  \<comment> \<open>the value of \<open>hit\<close> after the loops over \<open>dr\<close>, \<open>dc\<close> and \<open>j\<close>\<close>
  "playerHit g p myIndex =
     scanCells g p myIndex (toInt32 (py p / GRID_CELL_SIZE)) (toInt32 (px p / GRID_CELL_SIZE))
       neighbourhood"

text \<open>
  \<open>checkCollisions\<close> first collects the living competitors, then tests each and clears
  its \<open>alive\<close> flag on a hit.  In this variant the test of one competitor reads nothing
  that the loop writes, so the loop is a map over the competitors in iteration order;
  \<open>myIndex\<close> is the 1-based position in that order.
\<close>

definition checkCollisions :: "grid \<Rightarrow> player list \<Rightarrow> grid \<times> player list" where
  "checkCollisions g players =
     (let g1 = (if gridDirty g \<or> spatialBitfield g = None then rebuildSpatialGrid g players else g)
      in (g1, map (\<lambda>(idx, p). if alive p \<and> playerHit g1 p (int idx) then p\<lparr> alive := False \<rparr> else p)
                (enumerate 1 players)))"

section \<open>Collision detection (\<open>src/unnamed/part_000\<close>: a list of samples per cell)\<close>

text \<open>
  The other copy of the game module keeps, for every cell, the list of the samples inside
  it: the owner's id, the buffer slot and the trail position.  Its \<open>createPlayer\<close>,
  \<open>getGameSpeed\<close>, \<open>getCellIndex\<close>, \<open>movePlayer\<close>, \<open>startRound\<close> and the player part of
  \<open>trailPush\<close> are the ones above; the functions that differ carry the suffix \<open>_list\<close>.
  Here the test of one competitor reads the \<open>alive\<close> flags that the loop writes, so the
  loop over the living competitors passes the competitors along.
\<close>

type_synonym cellEntry = "string \<times> nat \<times> nat"

record listGrid =
  spatialGrid :: "cellEntry list list option"
  listGridDirty :: bool

definition initialListGrid :: listGrid where
  "initialListGrid = \<lparr> spatialGrid = None, listGridDirty = True \<rparr>"

definition createGrid :: "cellEntry list list" where
  "createGrid = replicate (nat GRID_TOTAL) []"

definition clearGrid :: "cellEntry list list \<Rightarrow> cellEntry list list" where
  "clearGrid cells = map (\<lambda>c. []) cells"

definition cellPush :: "listGrid \<Rightarrow> int \<Rightarrow> cellEntry \<Rightarrow> listGrid" where
  \<comment> \<open>\<open>spatialGrid[cellIdx].push(playerId, bufferIdx, trailPosition)\<close>, for a cell of the grid\<close>
  "cellPush g cellIdx e =
     g\<lparr> spatialGrid :=
          map_option (\<lambda>cells. case arr_get cells cellIdx of
                                 None \<Rightarrow> cells
                               | Some c \<Rightarrow> arr_set cells cellIdx (c @ [e]))
            (spatialGrid g) \<rparr>"

definition rebuildPoint_list :: "player \<Rightarrow> nat \<Rightarrow> listGrid \<Rightarrow> listGrid" where
  "rebuildPoint_list p i g =
     (let idx = (trailStart p + i) mod TRAIL_MAX;
          cellIdx = getCellIndex (trailX p ! idx) (trailY p ! idx)
      in if 0 \<le> cellIdx then cellPush g cellIdx (pid p, idx, i) else g)"

definition rebuildSpatialGrid_list :: "listGrid \<Rightarrow> player list \<Rightarrow> listGrid" where
  "rebuildSpatialGrid_list g players =
     (let g0 = g\<lparr> spatialGrid :=
                   Some (clearGrid (case spatialGrid g of None \<Rightarrow> createGrid | Some cells \<Rightarrow> cells)) \<rparr>;
          g1 = fold (\<lambda>p acc. if \<not> alive p then acc
                              else fold (rebuildPoint_list p) [0 ..< trailLen p] acc)
                    players g0
      in g1\<lparr> listGridDirty := False \<rparr>)"

definition gridInsertPoint_list ::
  "listGrid \<Rightarrow> string \<Rightarrow> nat \<Rightarrow> nat \<Rightarrow> real \<Rightarrow> real \<Rightarrow> listGrid" where
  "gridInsertPoint_list g playerId bufferIdx trailPosition x y =
     (if spatialGrid g = None then g
      else let cellIdx = getCellIndex x y
           in if 0 \<le> cellIdx then cellPush g cellIdx (playerId, bufferIdx, trailPosition) else g)"

definition lookupPlayer :: "player list \<Rightarrow> string \<Rightarrow> player option" where
  \<comment> \<open>\<open>players[id]\<close>\<close>
  "lookupPlayer players i = find (\<lambda>q. pid q = i) players"

definition skipEntry :: "player list \<Rightarrow> player \<Rightarrow> cellEntry \<Rightarrow> bool" where
  \<comment> \<open>the \<open>continue\<close> statements on the owner of a sample and on recent samples\<close>
  "skipEntry players p e =
     (case e of (otherId, bufIdx, trailPos) \<Rightarrow>
        if otherId = pid p then int (trailLen p) - COLLISION_SKIP_OWN \<le> int trailPos
        else (case lookupPlayer players otherId of
                None \<Rightarrow> True
              | Some other \<Rightarrow>
                  if \<not> alive other then True else int (trailLen other) - 2 \<le> int trailPos))"

fun scanEntries :: "player list \<Rightarrow> player \<Rightarrow> cellEntry list \<Rightarrow> bool" where
  "scanEntries players p [] = False"
| "scanEntries players p (e # es) =
     (case e of (otherId, bufIdx, trailPos) \<Rightarrow>
        if skipEntry players p e then scanEntries players p es
        else (case lookupPlayer players otherId of
                None \<Rightarrow> scanEntries players p es
              | Some otherPlayer \<Rightarrow>
                  if hitTest (px p) (py p) (trailX otherPlayer ! bufIdx) (trailY otherPlayer ! bufIdx)
                  then True
                  else scanEntries players p es))"

fun scanCells_list ::
  "listGrid \<Rightarrow> player list \<Rightarrow> player \<Rightarrow> int \<Rightarrow> int \<Rightarrow> (int \<times> int) list \<Rightarrow> bool" where
  "scanCells_list g players p row col [] = False"
| "scanCells_list g players p row col (d # ds) =
     (let nr = row + fst d; nc = col + snd d
      in if nr < 0 \<or> GRID_ROWS \<le> nr \<or> nc < 0 \<or> GRID_COLS \<le> nc
         then scanCells_list g players p row col ds
         else let cellIdx = nr * GRID_COLS + nc;
                  cell = (case spatialGrid g of
                            None \<Rightarrow> []
                          | Some cells \<Rightarrow> (case arr_get cells cellIdx of None \<Rightarrow> [] | Some c \<Rightarrow> c))
              in if scanEntries players p cell then True
                 else scanCells_list g players p row col ds)"

definition playerHit_list :: "listGrid \<Rightarrow> player list \<Rightarrow> player \<Rightarrow> bool" where
  "playerHit_list g players p =
     scanCells_list g players p (toInt32 (py p / GRID_CELL_SIZE)) (toInt32 (px p / GRID_CELL_SIZE))
       neighbourhood"

fun collideLoop :: "listGrid \<Rightarrow> string list \<Rightarrow> player list \<Rightarrow> player list" where
  \<comment> \<open>the loop over \<open>aliveList\<close>, whose entries are named by their ids\<close>
  "collideLoop g [] players = players"
| "collideLoop g (i # is) players =
     (case lookupPlayer players i of
        None \<Rightarrow> collideLoop g is players
      | Some p \<Rightarrow>
          collideLoop g is
            (if playerHit_list g players p
             then map (\<lambda>q. if pid q = i then q\<lparr> alive := False \<rparr> else q) players
             else players))"

definition checkCollisions_list :: "listGrid \<Rightarrow> player list \<Rightarrow> listGrid \<times> player list" where
  "checkCollisions_list g players =
     (let g1 = (if listGridDirty g \<or> spatialGrid g = None then rebuildSpatialGrid_list g players
                else g)
      in (g1, collideLoop g1 (map pid (filter alive players)) players))"

definition claimedSkip :: "player list \<Rightarrow> player \<Rightarrow> string \<Rightarrow> nat \<Rightarrow> bool" where
  \<comment> \<open>the skip rule in the words of the specification, for the sample at trail position
      \<open>trailPos\<close> of the competitor \<open>owner\<close>, seen by the competitor \<open>p\<close>\<close>
  "claimedSkip players p owner trailPos =
     ((owner = pid p \<and> int (trailLen p) - COLLISION_SKIP_OWN \<le> int trailPos)
      \<or> (owner \<noteq> pid p \<and>
          (case lookupPlayer players owner of None \<Rightarrow> True | Some other \<Rightarrow> \<not> alive other))
      \<or> (owner \<noteq> pid p \<and>
          (case lookupPlayer players owner of
             None \<Rightarrow> True
           | Some other \<Rightarrow> int (trailLen other) - 2 \<le> int trailPos)))"

section \<open>Round start (\<open>game.js\<close>)\<close>

definition resetTrail :: "player \<Rightarrow> player" where
  "resetTrail p = p\<lparr> trailLen := 0, trailStart := 0, trailSentCount := 0 \<rparr>"

fun startRoundLoop :: "nat \<Rightarrow> player list \<Rightarrow> player list" where
  "startRoundLoop i [] = []"
| "startRoundLoop i (p # ps) =
     (if lives p \<le> 0 then resetTrail (p\<lparr> alive := False \<rparr>) # startRoundLoop i ps
      else (case spawnConfigs ! (i mod length spawnConfigs) of (sx, sy, sa) \<Rightarrow>
              resetTrail (p\<lparr> px := sx, py := sy, angle := sa, turning := 0 \<rparr>) \<lparr> alive := True \<rparr>)
           # startRoundLoop (i + 1) ps)"

definition startRound :: "grid \<Rightarrow> player list \<Rightarrow> grid \<times> player list" where
  "startRound g players =
     (let g1 = g\<lparr> gridDirty := True \<rparr>
      in (if spatialBitfield g1 = None then g1 else clearBitfield g1, startRoundLoop 0 players))"

section \<open>State codec (\<open>game.js\<close>)\<close>

text \<open>
  The compact snapshot that \<open>serializeGameState\<close> builds.  A field that a receiver tests
  against \<open>undefined\<close> is optional.  The flattened array \<open>tr\<close> is a list of pairs.  The
  legacy keys that \<open>applyGameState\<close> also accepts (\<open>state.players\<close>, \<open>trail\<close>, \<open>name\<close>, ...)
  are written by nothing in the repository and are not part of the type.
\<close>

record wirePlayer =
  w_x :: "int option"
  w_y :: "int option"
  w_a :: "int option"
  w_tu :: "real option"
  w_tl :: "nat option"
  w_ts :: "nat option"
  w_tc :: "int option"
  w_al :: "bool option"
  w_s :: "int option"
  w_l :: "int option"
  w_tr :: "(int \<times> int) list option"
  w_id :: "string option"
  w_n :: "string option"
  w_c :: "string option"
  w_si :: "nat option"

record wireState =
  w_p :: "(string \<times> wirePlayer) list"
  w_ra :: bool
  w_cd :: int
  w_rst :: "int option"
  w_mw :: "string option"
  w_t :: int

definition encodeSample :: "real option \<Rightarrow> int" where
  \<comment> \<open>\<open>(v * 10 + 0.5) | 0\<close> of a trail read; \<open>undefined\<close> gives \<open>NaN | 0 = 0\<close>\<close>
  "encodeSample v = (case v of None \<Rightarrow> 0 | Some r \<Rightarrow> toInt32 (fl (fl (r * 10) + 0.5)))"

definition trailDelta :: "player \<Rightarrow> (int \<times> int) list option" where
  \<comment> \<open>\<open>trailData\<close>: the samples after the sent-count watermark; \<open>None\<close> when there are none\<close>
  "trailDelta p =
     (let newCount = int (trailLen p) - trailSentCount p
      in if 0 < newCount then
           let dataLen = newCount * 2;
               pts = map (\<lambda>i. let trailIdx = trailSentCount p + i;
                                   idx = js_rem (int (trailStart p) + trailIdx) (int TRAIL_MAX)
                               in (encodeSample (arr_get (trailX p) idx),
                                   encodeSample (arr_get (trailY p) idx)))
                         [0 .. newCount - 1]
           in Some (if dataLen \<le> TRAIL_BUFFER_SIZE
                    then map (\<lambda>pt. (toInt16 (fst pt), toInt16 (snd pt))) pts
                    else pts)
         else None)"

definition serializePlayer :: "bool \<Rightarrow> player \<Rightarrow> wirePlayer \<times> player" where
  "serializePlayer sendStatic p =
     (let trailData = trailDelta p;
          p1 = p\<lparr> trailSentCount := int (trailLen p) \<rparr>;
          pd = \<lparr> w_x = Some (toInt32 (fl (fl (px p1 * 10) + 0.5))),
                 w_y = Some (toInt32 (fl (fl (py p1 * 10) + 0.5))),
                 w_a = Some (toInt32 (fl (fl (angle p1 * 1000) + 0.5))),
                 w_tu = Some (turning p1),
                 w_tl = Some (trailLen p1),
                 w_ts = Some (trailStart p1),
                 w_tc = Some (trailSentCount p1),
                 w_al = Some (alive p1),
                 w_s = Some (score p1),
                 w_l = Some (lives p1),
                 w_tr = trailData,
                 w_id = (if sendStatic then Some (pid p1) else None),
                 w_n = (if sendStatic then Some (pname p1) else None),
                 w_c = (if sendStatic then Some (color p1) else None),
                 w_si = (if sendStatic then Some (spawnIndex p1) else None) \<rparr>
      in (pd, p1))"

definition serializeGameState ::
  "int \<Rightarrow> bool \<Rightarrow> player list \<Rightarrow> bool \<Rightarrow> int \<Rightarrow> int option \<Rightarrow> string option
     \<Rightarrow> wireState \<times> player list \<times> bool" where
  \<comment> \<open>the clock and the flag \<open>staticSentTo.has('_broadcast')\<close> are arguments; the
      result is the snapshot, the competitors with their watermark advanced, and the flag\<close>
  "serializeGameState now staticSent players roundActive countdown roundStartTime matchWinner =
     (let sendStatic = \<not> staticSent;
          out = map (serializePlayer sendStatic) players;
          state = \<lparr> w_p = map (\<lambda>r. (pid (snd r), fst r)) out,
                    w_ra = roundActive,
                    w_cd = countdown,
                    w_rst = roundStartTime,
                    w_mw = matchWinner,
                    w_t = now \<rparr>
      in (state, map snd out, if sendStatic then True else staticSent))"

definition truthy :: "string option \<Rightarrow> bool" where
  \<comment> \<open>a string-valued field in a condition: absent and the empty string are false\<close>
  "truthy v = (case v of None \<Rightarrow> False | Some t \<Rightarrow> t \<noteq> [])"

definition applyTrailPoint :: "player \<Rightarrow> int \<times> int \<Rightarrow> player" where
  \<comment> \<open>the body of the loop over the received points\<close>
  "applyTrailPoint p pt =
     (let idx = (trailStart p + trailLen p) mod TRAIL_MAX;
          p1 = p\<lparr> trailX := (trailX p)[idx := fround (fl (real_of_int (fst pt) / 10))],
                 trailY := (trailY p)[idx := fround (fl (real_of_int (snd pt) / 10))],
                 trailLen := trailLen p + 1 \<rparr>
      in if TRAIL_MAX < trailLen p1
         then p1\<lparr> trailStart := (trailStart p1 + 1) mod TRAIL_MAX, trailLen := TRAIL_MAX \<rparr>
         else p1)"

definition newMirrorPlayer :: "string \<Rightarrow> wirePlayer \<Rightarrow> player" where
  \<comment> \<open>the competitor synthesised for an id that the mirror does not know\<close>
  "newMirrorPlayer i ps =
     (createPlayer i (case w_si ps of Some si \<Rightarrow> si | None \<Rightarrow> 0)
        (JSString (case w_n ps of Some n \<Rightarrow> if n \<noteq> [] then n else ''Player'' | None \<Rightarrow> ''Player'')))
     \<lparr> color := (case w_c ps of Some c \<Rightarrow> if c \<noteq> [] then c else COLORS ! 0 | None \<Rightarrow> COLORS ! 0) \<rparr>"

definition applyPlayerState :: "player \<Rightarrow> wirePlayer \<Rightarrow> player" where
  "applyPlayerState p ps =
     (let p1 = (case w_tr ps of
                  None \<Rightarrow> p
                | Some trail \<Rightarrow>
                    if 0 < length trail
                    then (foldl applyTrailPoint p trail)
                           \<lparr> trailSentCount := (case w_tc ps of Some tc \<Rightarrow> tc | None \<Rightarrow> 0) \<rparr>
                    else p);
          p2 = (if w_tl ps = Some 0 then resetTrail p1 else p1);
          p3 = p2\<lparr> px := (case w_x ps of Some v \<Rightarrow> fl (real_of_int v / 10) | None \<Rightarrow> px p2),
                   py := (case w_y ps of Some v \<Rightarrow> fl (real_of_int v / 10) | None \<Rightarrow> py p2),
                   angle := (case w_a ps of Some v \<Rightarrow> fl (real_of_int v / 1000) | None \<Rightarrow> angle p2),
                   alive := (case w_al ps of Some v \<Rightarrow> v | None \<Rightarrow> alive p2),
                   score := (case w_s ps of Some v \<Rightarrow> v | None \<Rightarrow> score p2),
                   lives := (case w_l ps of Some v \<Rightarrow> v | None \<Rightarrow> lives p2) \<rparr>;
          p4 = (case w_n ps of Some n \<Rightarrow> if n \<noteq> [] then p3\<lparr> pname := n \<rparr> else p3 | None \<Rightarrow> p3)
      in (case w_c ps of Some c \<Rightarrow> if c \<noteq> [] then p4\<lparr> color := c \<rparr> else p4 | None \<Rightarrow> p4))"

definition applyOne :: "player list \<Rightarrow> string \<times> wirePlayer \<Rightarrow> player list" where
  \<comment> \<open>one iteration of the loop over \<open>state.p\<close>; the competitors are keyed by their id\<close>
  "applyOne players e =
     (case find (\<lambda>q. pid q = fst e) players of
        Some p \<Rightarrow> map (\<lambda>q. if pid q = fst e then applyPlayerState q (snd e) else q) players
      | None \<Rightarrow> insertKey players (applyPlayerState (newMirrorPlayer (fst e) (snd e)) (snd e)))"

definition applyGameState :: "player list \<Rightarrow> wireState \<Rightarrow> player list" where
  "applyGameState players state = foldl applyOne players (w_p state)"



section \<open>The host (\<open>network.js\<close>)\<close>

text \<open>
  The fields of \<open>Network\<close> that the host's lifecycle reads or writes, together with the
  module state of \<open>game.js\<close> (spatial index, static-sent flag) and the environment: the
  timers registered with \<open>setInterval\<close> and \<open>setTimeout\<close>, the messages handed to open
  connections, and the events passed to \<open>emit\<close>.  \<open>Date.now()\<close> is the argument \<open>now\<close>.
  A timer is data: its callback is the function named by its action.
\<close>

datatype timerAction = PhysicsTick | CountdownStep | AutoRestart

datatype timer = Interval timerAction real | Timeout timerAction real

record listEntry =
  le_id :: string
  le_name :: string
  le_score :: int
  le_lives :: int
  le_color :: string
  le_alive :: bool

datatype message =
    MsgState wireState
  | MsgPlayerList "(string \<times> listEntry) list"
  | MsgGameStart

datatype event =
    EvError string
  | EvStateUpdate wireState
  | EvPlayerList "(string \<times> listEntry) list"
  | EvGameStart

definition PHYSICS_INTERVAL :: real where "PHYSICS_INTERVAL = 1000 / 60"
definition BROADCAST_EVERY :: nat where "BROADCAST_EVERY = 4"

record network =
  isHost :: bool
  players :: "player list"
  connections :: "(string \<times> bool) list"
  roundActive :: bool
  countdown :: int
  roundStartTime :: "int option"
  matchWinner :: "string option"
  gameStarted :: bool
  tickCounter :: nat
  physicsInterval :: bool
  gameGrid :: grid
  staticSent :: bool
  timers :: "timer list"
  outbox :: "(string \<times> message) list"
  emitted :: "event list"

definition emit :: "network \<Rightarrow> event \<Rightarrow> network" where
  "emit s e = s\<lparr> emitted := emitted s @ [e] \<rparr>"

definition sendToOpen :: "network \<Rightarrow> message \<Rightarrow> network" where
  \<comment> \<open>the loop over \<open>connections\<close> that sends to every open one\<close>
  "sendToOpen s m = s\<lparr> outbox := outbox s @ map (\<lambda>c. (fst c, m)) (filter snd (connections s)) \<rparr>"

definition resetStaticSent :: "network \<Rightarrow> network" where
  "resetStaticSent s = s\<lparr> staticSent := False \<rparr>"

definition broadcastState :: "int \<Rightarrow> network \<Rightarrow> network" where
  "broadcastState now s =
     (if \<not> isHost s then s
      else (case serializeGameState now (staticSent s) (players s) (roundActive s) (countdown s)
                   (roundStartTime s) (matchWinner s) of
              (state, ps, sent) \<Rightarrow>
                emit (sendToOpen (s\<lparr> players := ps, staticSent := sent \<rparr>) (MsgState state))
                  (EvStateUpdate state)))"

definition playerList :: "player list \<Rightarrow> (string \<times> listEntry) list" where
  "playerList ps =
     map (\<lambda>p. (pid p, \<lparr> le_id = pid p, le_name = pname p, le_score = score p,
                         le_lives = lives p, le_color = color p, le_alive = alive p \<rparr>)) ps"

definition broadcastPlayerList :: "network \<Rightarrow> network" where
  "broadcastPlayerList s =
     (if \<not> isHost s then s
      else emit (sendToOpen s (MsgPlayerList (playerList (players s))))
             (EvPlayerList (playerList (players s))))"

definition stopPhysicsLoop :: "network \<Rightarrow> network" where
  "stopPhysicsLoop s =
     (if physicsInterval s
      then s\<lparr> timers := filter (\<lambda>t. t \<noteq> Interval PhysicsTick PHYSICS_INTERVAL) (timers s),
              physicsInterval := False \<rparr>
      else s)"

definition startPhysicsLoop :: "network \<Rightarrow> network" where
  "startPhysicsLoop s =
     (let s1 = stopPhysicsLoop s
      in s1\<lparr> tickCounter := 0,
              physicsInterval := True,
              timers := timers s1 @ [Interval PhysicsTick PHYSICS_INTERVAL] \<rparr>)"

definition runCountdown :: "network \<Rightarrow> network" where
  "runCountdown s =
     (if \<not> isHost s then s else s\<lparr> timers := timers s @ [Interval CountdownStep 1000] \<rparr>)"

definition Network_startRound :: "int \<Rightarrow> network \<Rightarrow> network" where
  \<comment> \<open>the method \<open>startRound\<close> of \<open>Network\<close>, which calls \<open>startRound\<close> of \<open>game.js\<close>\<close>
  "Network_startRound now s =
     (if \<not> isHost s then s
      else (case startRound (gameGrid s) (players s) of
              (g, ps) \<Rightarrow>
                startPhysicsLoop
                  (s\<lparr> gameGrid := g, players := ps, roundActive := True,
                      roundStartTime := Some now, matchWinner := None \<rparr>)))"

definition countdownStep :: "int \<Rightarrow> network \<Rightarrow> network" where
  \<comment> \<open>the callback of the interval that \<open>runCountdown\<close> registers\<close>
  "countdownStep now s =
     (let s1 = broadcastState now (resetStaticSent (s\<lparr> countdown := countdown s - 1 \<rparr>))
      in if countdown s1 \<le> 0
         then Network_startRound now (s1\<lparr> timers := remove1 (Interval CountdownStep 1000) (timers s1) \<rparr>)
         else s1)"

definition startGame :: "int \<Rightarrow> network \<Rightarrow> network" where
  "startGame now s =
     (if \<not> isHost s then s
      else if length (players s) < 2 then emit s (EvError ''Need at least 2 players!'')
      else
        let s1 = s\<lparr> gameStarted := True, roundActive := False, countdown := 3, matchWinner := None,
                     players := map (\<lambda>p. p\<lparr> lives := MAX_LIVES, score := 0 \<rparr>) (players s) \<rparr>;
            s2 = sendToOpen (resetStaticSent s1) MsgGameStart;
            s3 = emit (broadcastState now s2) EvGameStart
        in runCountdown s3)"

definition handleRestart :: "int \<Rightarrow> network \<Rightarrow> network" where
  \<comment> \<open>\<open>handleMessage\<close>, case \<open>'restart'\<close>\<close>
  "handleRestart now s = (if isHost s \<and> truthy (matchWinner s) then startGame now s else s)"

definition autoRestart :: "int \<Rightarrow> network \<Rightarrow> network" where
  \<comment> \<open>the callback of the timeout that the round end registers\<close>
  "autoRestart now s =
     (if gameStarted s
      then runCountdown (broadcastState now (resetStaticSent (s\<lparr> countdown := 3 \<rparr>)))
      else s)"

fun moveAlive :: "real \<Rightarrow> grid \<Rightarrow> player list \<Rightarrow> grid \<times> player list" where
  "moveAlive speed g [] = (g, [])"
| "moveAlive speed g (p # ps) =
     (if alive p
      then (case movePlayer g p speed of
              (g1, p1) \<Rightarrow> (case moveAlive speed g1 ps of (g2, ps') \<Rightarrow> (g2, p1 # ps')))
      else (case moveAlive speed g ps of (g2, ps') \<Rightarrow> (g2, p # ps')))"

definition loseLives :: "bool list \<Rightarrow> player list \<Rightarrow> player list" where
  \<comment> \<open>the loop that takes a life from everyone who was alive before the tick and is not now\<close>
  "loseLives wasAlive ps =
     map (\<lambda>(w, p). if w \<and> \<not> alive p then p\<lparr> lives := max 0 (lives p - 1) \<rparr> else p)
       (zip wasAlive ps)"

definition lastWithLivesId :: "player list \<Rightarrow> string option" where
  "lastWithLivesId ps =
     (case filter (\<lambda>p. 0 < lives p) ps of [] \<Rightarrow> None | q # qs \<Rightarrow> Some (pid (last (q # qs))))"

definition roundEnd :: "int \<Rightarrow> network \<Rightarrow> network" where
  \<comment> \<open>the branch \<open>aliveCount <= 1\<close> of \<open>physicsTick\<close>\<close>
  "roundEnd now s =
     (let s1 = stopPhysicsLoop (s\<lparr> roundActive := False \<rparr>);
          withLivesCount = length (filter (\<lambda>p. 0 < lives p) (players s1))
      in if withLivesCount \<le> 1 then
           let s2 = (if withLivesCount = 1
                     then s1\<lparr> matchWinner := lastWithLivesId (players s1) \<rparr> else s1)
           in broadcastState now (broadcastPlayerList (resetStaticSent s2))
         else
           let s2 = broadcastState now (broadcastPlayerList (resetStaticSent s1))
           in s2\<lparr> timers := timers s2 @ [Timeout AutoRestart 3000] \<rparr>)"

definition tickCollide :: "real \<Rightarrow> grid \<Rightarrow> player list \<Rightarrow> grid \<times> player list" where
  \<comment> \<open>the middle of \<open>physicsTick\<close>: move every living competitor, then \<open>checkCollisions\<close>\<close>
  "tickCollide speed g ps = (case moveAlive speed g ps of (g1, ps1) \<Rightarrow> checkCollisions g1 ps1)"

definition physicsTick :: "int \<Rightarrow> network \<Rightarrow> network" where
  "physicsTick now s =
     (if \<not> isHost s \<or> \<not> roundActive s then stopPhysicsLoop s
      else
        let speed = getGameSpeed now (roundStartTime s);
            wasAlive = map alive (players s)
        in (case tickCollide speed (gameGrid s) (players s) of
              (g2, ps2) \<Rightarrow>
                let ps3 = loseLives wasAlive ps2;
                    aliveCount = length (filter alive ps3);
                    s1 = s\<lparr> gameGrid := g2, players := ps3 \<rparr>;
                    s2 = (if aliveCount \<le> 1 then roundEnd now s1 else s1);
                    s3 = s2\<lparr> tickCounter := tickCounter s2 + 1 \<rparr>
                in if BROADCAST_EVERY \<le> tickCounter s3
                   then broadcastState now (s3\<lparr> tickCounter := 0 \<rparr>)
                   else s3))"

definition afterCollisions :: "int \<Rightarrow> network \<Rightarrow> player list" where
  \<comment> \<open>the competitors of a tick after movement, collision detection and the loss of lives\<close>
  "afterCollisions now s =
     loseLives (map alive (players s))
       (snd (tickCollide (getGameSpeed now (roundStartTime s)) (gameGrid s) (players s)))"

section \<open>Concrete states used as test inputs\<close>

definition soloLobby :: network where
  \<comment> \<open>a host alone in its lobby\<close>
  "soloLobby =
     \<lparr> isHost = True, players = [createPlayer ''4821'' 0 (JSString ''Ann'')],
       connections = [], roundActive = False, countdown = 0, roundStartTime = None,
       matchWinner = None, gameStarted = False, tickCounter = 0, physicsInterval = False,
       gameGrid = initialGrid, staticSent = False, timers = [], outbox = [], emitted = [] \<rparr>"

definition midMatch :: network where
  \<comment> \<open>a host with one open connection, a match running and no winner yet\<close>
  "midMatch =
     \<lparr> isHost = True,
       players = [createPlayer ''4821'' 0 (JSString ''Ann''), createPlayer ''peer-b'' 1 (JSString ''Bob'')],
       connections = [(''peer-b'', True)], roundActive = True, countdown = 0,
       roundStartTime = Some 1700000000000, matchWinner = None, gameStarted = True,
       tickCounter = 0, physicsInterval = True, gameGrid = initialGrid, staticSent = True,
       timers = [Interval PhysicsTick PHYSICS_INTERVAL], outbox = [], emitted = [] \<rparr>"

definition wallRound :: network where
  \<comment> \<open>a running round whose first competitor heads right, 1 unit from the right wall\<close>
  "wallRound =
     midMatch\<lparr> players :=
       [(createPlayer ''4821'' 0 (JSString ''Ann''))\<lparr> px := 1399, py := 450 \<rparr>,
        (createPlayer ''peer-b'' 1 (JSString ''Bob''))\<lparr> px := 250, py := 200 \<rparr>] \<rparr>"

definition eliminatedFirst :: "player list" where
  \<comment> \<open>the first competitor to join has lost all its lives, the second has not\<close>
  "eliminatedFirst =
     [(createPlayer ''4821'' 0 (JSString ''Ann''))\<lparr> lives := 0, alive := False \<rparr>,
      (createPlayer ''peer-b'' 1 (JSString ''Bob''))\<lparr> lives := 2, alive := False \<rparr>]"

definition fullTrail :: player where
  \<comment> \<open>a competitor whose trail is at capacity, with three samples already transmitted\<close>
  "fullTrail =
     (createPlayer ''4821'' 0 (JSString ''Ann''))
       \<lparr> trailLen := TRAIL_MAX, trailStart := 7, trailSentCount := 3 \<rparr>"

definition samples601 :: "(real \<times> real) list" where
  \<comment> \<open>one more sample than the capacity: \<open>(0, 5), (1, 5), ..., (600, 5)\<close>\<close>
  "samples601 = map (\<lambda>i. (real i, 5)) [0 ..< 601]"

definition tenths601 :: "(real \<times> real) list" where
  \<comment> \<open>one more sample than the capacity: \<open>(0, 5), (0.1, 5), ..., (60, 5)\<close>\<close>
  "tenths601 = map (\<lambda>i. (real i / 10, 5)) [0 ..< 601]"

definition lateJoinHost :: player where
  \<comment> \<open>the host's competitor five ticks into a round, four samples already broadcast\<close>
  "lateJoinHost =
     (createPlayer ''4821'' 0 (JSString ''Ann''))
       \<lparr> px := 262.5, py := 200, angle := 0,
         trailX := [252.5, 255, 257.5, 260, 262.5] @ replicate (TRAIL_MAX - 5) 0,
         trailY := [200, 200, 200, 200, 200] @ replicate (TRAIL_MAX - 5) 0,
         trailLen := 5, trailSentCount := 4 \<rparr>"

definition oneSample :: wirePlayer where
  \<comment> \<open>the update for a competitor one tick into a round, nothing broadcast before\<close>
  "oneSample =
     \<lparr> w_x = Some 2525, w_y = Some 2000, w_a = Some 0, w_tu = Some 0, w_tl = Some 1,
       w_ts = Some 0, w_tc = Some 1, w_al = Some True, w_s = Some 0, w_l = Some 6,
       w_tr = Some [(2525, 2000)], w_id = None, w_n = None, w_c = None, w_si = None \<rparr>"

definition lateJoinState :: wireState where
  \<comment> \<open>the snapshot a joiner receives five ticks into the round of \<open>lateJoinHost\<close>\<close>
  "lateJoinState =
     fst (serializeGameState 1700000000083 False [lateJoinHost] True 0 (Some 1700000000000) None)"




definition lastRound :: network where
  \<comment> \<open>a running round of three: the first competitor is about to leave through the right
      wall with its last life, the second is already out of the round, the third is out
      of lives\<close>
  "lastRound =
     midMatch\<lparr> players :=
       [(createPlayer ''4821'' 0 (JSString ''Ann''))\<lparr> px := 1399, py := 450, lives := 1 \<rparr>,
        (createPlayer ''peer-b'' 1 (JSString ''Bob''))\<lparr> px := 250, py := 200, alive := False, lives := 3 \<rparr>,
        (createPlayer ''peer-c'' 2 (JSString ''Cid''))\<lparr> px := 700, py := 100, alive := False, lives := 0 \<rparr>] \<rparr>"

definition openRound :: network where
  \<comment> \<open>the same round with two lives left for the first competitor\<close>
  "openRound =
     midMatch\<lparr> players :=
       [(createPlayer ''4821'' 0 (JSString ''Ann''))\<lparr> px := 1399, py := 450, lives := 2 \<rparr>,
        (createPlayer ''peer-b'' 1 (JSString ''Bob''))\<lparr> px := 250, py := 200, alive := False, lives := 3 \<rparr>,
        (createPlayer ''peer-c'' 2 (JSString ''Cid''))\<lparr> px := 700, py := 100, alive := False, lives := 0 \<rparr>] \<rparr>"

definition drawRound :: network where
  \<comment> \<open>the same round when nobody else has a life left\<close>
  "drawRound =
     midMatch\<lparr> players :=
       [(createPlayer ''4821'' 0 (JSString ''Ann''))\<lparr> px := 1399, py := 450, lives := 1 \<rparr>,
        (createPlayer ''peer-b'' 1 (JSString ''Bob''))\<lparr> px := 250, py := 200, alive := False, lives := 0 \<rparr>,
        (createPlayer ''peer-c'' 2 (JSString ''Cid''))\<lparr> px := 700, py := 100, alive := False, lives := 0 \<rparr>] \<rparr>"

definition annHead :: player where
  \<comment> \<open>a living competitor three ticks into its trail, heading right, at \<open>(100, 100)\<close>\<close>
  "annHead =
     (createPlayer ''4821'' 0 (JSString ''Ann''))
       \<lparr> px := 100, py := 100, angle := 0,
         trailX := [95, 97.5, 100] @ replicate (TRAIL_MAX - 3) 0,
         trailY := [100, 100, 100] @ replicate (TRAIL_MAX - 3) 0,
         trailLen := 3 \<rparr>"

definition bobHead :: player where
  \<comment> \<open>a living competitor three ticks into its trail, heading down, at \<open>(102, 100)\<close>\<close>
  "bobHead =
     (createPlayer ''peer-b'' 1 (JSString ''Bob''))
       \<lparr> px := 102, py := 100, angle := pi * 0.5,
         trailX := [102, 102, 102] @ replicate (TRAIL_MAX - 3) 0,
         trailY := [95, 97.5, 100] @ replicate (TRAIL_MAX - 3) 0,
         trailLen := 3 \<rparr>"

definition headOn :: "player list" where
  \<comment> \<open>the two heads are 2 units apart\<close>
  "headOn = [annHead, bobHead]"

definition headOnGrid :: grid where
  \<comment> \<open>the spatial index of \<open>game.js\<close> rebuilt from \<open>headOn\<close>\<close>
  "headOnGrid =
     \<lparr> spatialBitfield = Some ((replicate 5016 0)[533 := 1, 534 := 1, 534 := 1, 446 := 2, 534 := 2, 534 := 2]),
       gridDirty = False,
       gridPoints = [(95, 100, 1, 0), (97.5, 100, 1, 1), (100, 100, 1, 2),
                     (102, 95, 2, 0), (102, 97.5, 2, 1), (102, 100, 2, 2)] \<rparr>"

definition headOnCells :: "cellEntry list list" where
  \<comment> \<open>the cells of the other variant rebuilt from \<open>headOn\<close>, as its pushes leave them\<close>
  "headOnCells =
     (replicate 5016 [])
       [533 := [(''4821'', 0, 0)],
        534 := [(''4821'', 1, 1)],
        534 := [(''4821'', 1, 1), (''4821'', 2, 2)],
        446 := [(''peer-b'', 0, 0)],
        534 := [(''4821'', 1, 1), (''4821'', 2, 2), (''peer-b'', 1, 1)],
        534 := [(''4821'', 1, 1), (''4821'', 2, 2), (''peer-b'', 1, 1), (''peer-b'', 2, 2)]]"

section \<open>Properties of the rounding functions\<close>

lemma roundTiesToEven_near: "\<bar>real_of_int (roundTiesToEven r) - r\<bar> \<le> 1 / 2"
  unfolding roundTiesToEven_def Let_def by (auto split: if_splits)

lemma roundTiesToEven_of_int: "roundTiesToEven (real_of_int k) = k"
  by (simp add: roundTiesToEven_def)


lemma binadeFrom_upper:
  "a < 2 powi (k + 1) \<Longrightarrow> e - int n \<le> k \<Longrightarrow> binadeFrom n e a \<le> k"
proof (induction n e a rule: binadeFrom.induct)
  case (1 e a)
  then show ?case by simp
next
  case (2 n e a)
  show ?case
  proof (cases "2 powi e \<le> a")
    case True
    then have "(2::real) powi e < 2 powi (k + 1)" using 2(2) by simp
    then have "e < k + 1" using power_int_increasing [of "k + 1" e "2::real"] by force
    then show ?thesis using True by simp
  next
    case False
    then show ?thesis using 2 by simp
  qed
qed

lemma binadeFrom_eq:
  "2 powi k \<le> a \<Longrightarrow> a < 2 powi (k + 1) \<Longrightarrow> k \<le> e \<Longrightarrow> e - int n \<le> k \<Longrightarrow> binadeFrom n e a = k"
proof (induction n e a rule: binadeFrom.induct)
  case (1 e a)
  then show ?case by simp
next
  case (2 n e a)
  show ?case
  proof (cases "2 powi e \<le> a")
    case True
    then have "(2::real) powi e < 2 powi (k + 1)" using 2(3) by simp
    then have "e < k + 1" using power_int_increasing [of "k + 1" e "2::real"] by force
    then show ?thesis using True 2(4) by simp
  next
    case False
    then have "e \<noteq> k" using 2(2) by auto
    then show ?thesis using 2 False by simp
  qed
qed

lemma powi2_pos: "0 < (2::real) powi e"
  by (simp add: zero_less_power_int)

lemma roundToFormat_error:
  assumes "\<bar>x\<bar> < 2 powi (k + 1)" "emin \<le> k" "emin \<le> emax"
  shows "\<bar>roundToFormat t emin emax x - x\<bar> \<le> 2 powi (k - int t) / 2"
proof -
  let ?e = "binadeFrom (nat (emax - emin)) emax \<bar>x\<bar>"
  let ?q = "(2::real) powi (?e - int t)"
  have e: "?e \<le> k" using assms by (intro binadeFrom_upper) simp_all
  have q: "0 < ?q" by (rule powi2_pos)
  have qk: "?q \<le> 2 powi (k - int t)" using e by (intro power_int_increasing) simp_all
  have "\<bar>real_of_int (roundTiesToEven (x / ?q)) * ?q - x\<bar>
          = \<bar>real_of_int (roundTiesToEven (x / ?q)) - x / ?q\<bar> * ?q"
  proof -
    have "real_of_int (roundTiesToEven (x / ?q)) * ?q - x
            = (real_of_int (roundTiesToEven (x / ?q)) - x / ?q) * ?q"
      using q by (simp add: field_simps)
    then show ?thesis using q by (simp add: abs_mult)
  qed
  also have "\<dots> \<le> 1 / 2 * ?q"
    using roundTiesToEven_near [of "x / ?q"] q by (intro mult_right_mono) simp_all
  also have "\<dots> \<le> 2 powi (k - int t) / 2" using qk by simp
  finally show ?thesis by (simp add: roundToFormat_def Let_def)
qed


lemma roundToFormat_exact:
  assumes "\<bar>m\<bar> < 2 ^ (t + 1)" "emin - int t \<le> j" "emin \<le> emax"
  shows "roundToFormat t emin emax (real_of_int m * 2 powi j) = real_of_int m * 2 powi j"
proof -
  let ?x = "real_of_int m * 2 powi j"
  let ?e = "binadeFrom (nat (emax - emin)) emax \<bar>?x\<bar>"
  let ?q = "(2::real) powi (?e - int t)"
  have "\<bar>?x\<bar> = real_of_int \<bar>m\<bar> * 2 powi j" using powi2_pos [of j] by (simp add: abs_mult)
  also have "\<dots> < 2 ^ (t + 1) * 2 powi j"
  proof -
    have "real_of_int \<bar>m\<bar> < real_of_int (2 ^ (t + 1))" using assms(1) by (simp only: of_int_less_iff)
    then show ?thesis using powi2_pos [of j] by simp
  qed
  also have "\<dots> = 2 powi (j + int t + 1)"
    by (simp add: power_int_add power_int_of_nat [symmetric] del: power_int_of_nat)
  finally have "\<bar>?x\<bar> < 2 powi ((j + int t) + 1)" by (simp add: add.assoc)
  then have e: "?e \<le> j + int t" using assms by (intro binadeFrom_upper) simp_all
  define d where "d = nat (j + int t - ?e)"
  have d: "j - (?e - int t) = int d" using e by (simp add: d_def)
  have "?x / ?q = real_of_int m * 2 powi (j - (?e - int t))"
    by (simp add: power_int_diff)
  also have "\<dots> = real_of_int (m * 2 ^ d)" by (simp add: d power_int_of_nat)
  finally have "roundTiesToEven (?x / ?q) = m * 2 ^ d" by (simp only: roundTiesToEven_of_int)
  then have "real_of_int (roundTiesToEven (?x / ?q)) * ?q = real_of_int m * (2 powi (int d) * ?q)"
    by (simp add: power_int_of_nat)
  also have "2 powi (int d) * ?q = (2::real) powi j"
    by (simp add: d [symmetric] power_int_add [symmetric])
  finally show ?thesis by (simp add: roundToFormat_def Let_def)
qed

lemma roundToFormat_eval:
  assumes "2 powi k \<le> \<bar>x\<bar>" "\<bar>x\<bar> < 2 powi (k + 1)" "emin \<le> k" "k \<le> emax"
  shows "roundToFormat t emin emax x
           = real_of_int (roundTiesToEven (x / 2 powi (k - int t))) * 2 powi (k - int t)"
proof -
  have "binadeFrom (nat (emax - emin)) emax \<bar>x\<bar> = k"
    using assms by (intro binadeFrom_eq) simp_all
  then show ?thesis by (simp add: roundToFormat_def Let_def)
qed




lemma fl_dyadic:
  assumes "\<bar>m\<bar> < 9007199254740992" "d \<le> 1074"
  shows "fl (real_of_int m / 2 ^ d) = real_of_int m / 2 ^ d"
proof -
  have "roundToFormat 52 (- 1022) 1023 (real_of_int m * 2 powi (- int d))
          = real_of_int m * 2 powi (- int d)"
    using assms by (intro roundToFormat_exact) simp_all
  then show ?thesis by (simp add: fl_def power_int_minus field_simps)
qed

lemma fl_int: "\<bar>m\<bar> < 9007199254740992 \<Longrightarrow> fl (real_of_int m) = real_of_int m"
  using fl_dyadic [of m 0] by simp

lemma fround_error:
  assumes "\<bar>x\<bar> < 2 powi (k + 1)" "- 126 \<le> k"
  shows "\<bar>fround x - x\<bar> \<le> 2 powi (k - 24)"
proof -
  have "\<bar>fround x - x\<bar> \<le> 2 powi (k - int 23) / 2"
    unfolding fround_def using assms by (intro roundToFormat_error) simp_all
  also have "\<dots> = 2 powi (k - 24)"
    using power_int_add [of "2::real" "k - 24" 1] by simp
  finally show ?thesis .
qed

lemma fround_dyadic:
  assumes "\<bar>m\<bar> < 16777216" "d \<le> 149"
  shows "fround (real_of_int m / 2 ^ d) = real_of_int m / 2 ^ d"
proof -
  have "roundToFormat 23 (- 126) 127 (real_of_int m * 2 powi (- int d))
          = real_of_int m * 2 powi (- int d)"
    using assms by (intro roundToFormat_exact) simp_all
  then show ?thesis by (simp add: fround_def power_int_minus field_simps)
qed

lemma fround_int: "\<bar>m\<bar> < 16777216 \<Longrightarrow> fround (real_of_int m) = real_of_int m"
  using fround_dyadic [of m 0] by simp

lemma fround_nat: "n < 16777216 \<Longrightarrow> fround (real n) = real n"
  using fround_int [of "int n"] by simp

lemma toInt32_nonneg_small:
  assumes "0 \<le> r" "r < 2147483648"
  shows "toInt32 r = \<lfloor>r\<rfloor>"
proof -
  have lo: "0 \<le> \<lfloor>r\<rfloor>" using assms(1) by simp
  have hi: "\<lfloor>r\<rfloor> < 2147483648" using assms(2) by (simp add: floor_less_iff)
  have "\<lfloor>r\<rfloor> mod 4294967296 = \<lfloor>r\<rfloor>" using lo hi by simp
  then show ?thesis using assms(1) hi by (simp add: toInt32_def Let_def)
qed

lemma wrap_neg:
  fixes t :: int
  assumes "t < 0" "- 2147483648 \<le> t"
  shows "(if 2147483648 \<le> t mod 4294967296 then t mod 4294967296 - 4294967296
          else t mod 4294967296) = t"
proof -
  have "(t + 4294967296) mod 4294967296 = t + 4294967296"
    using assms by (intro mod_pos_pos_trivial) linarith+
  then have "t mod 4294967296 = t + 4294967296" by simp
  then show ?thesis using assms by simp
qed

lemma toInt32_neg_small:
  assumes "r < 0" "- 2147483648 \<le> r"
  shows "toInt32 r = \<lceil>r\<rceil>"
proof -
  have hi: "\<lceil>r\<rceil> \<le> 0" using assms(1) by (simp add: ceiling_le_iff)
  have lo: "- 2147483648 \<le> \<lceil>r\<rceil>" using assms(2) by (simp add: le_ceiling_iff)
  have "toInt32 r = (if 2147483648 \<le> \<lceil>r\<rceil> mod 4294967296 then \<lceil>r\<rceil> mod 4294967296 - 4294967296
          else \<lceil>r\<rceil> mod 4294967296)"
    using assms(1) by (simp add: toInt32_def Let_def)
  also have "\<dots> = \<lceil>r\<rceil>"
  proof (cases "\<lceil>r\<rceil> = 0")
    case True
    then show ?thesis by (simp only:) simp
  next
    case False
    then have "\<lceil>r\<rceil> < 0" using hi by linarith
    then show ?thesis using lo by (rule wrap_neg)
  qed
  finally show ?thesis .
qed

section \<open>Creating a competitor\<close>

lemma dropWhile_ws_Nil: "dropWhile isWhiteSpace s = [] \<longleftrightarrow> list_all isWhiteSpace s"
  by (metis dropWhile_eq_Nil_conv list_all_iff)

lemma trim_empty_iff: "trim s = [] \<longleftrightarrow> list_all isWhiteSpace s"
proof
  assume "trim s = []"
  then have e: "dropWhile isWhiteSpace (rev (dropWhile isWhiteSpace s)) = []"
    by (simp add: trim_def)
  have "dropWhile isWhiteSpace s = []"
  proof (rule ccontr)
    assume n: "dropWhile isWhiteSpace s \<noteq> []"
    then have "\<not> isWhiteSpace (hd (dropWhile isWhiteSpace s))"
      by (rule hd_dropWhile)
    moreover have "hd (dropWhile isWhiteSpace s) \<in> set (rev (dropWhile isWhiteSpace s))"
      using n by simp
    moreover have "list_all isWhiteSpace (rev (dropWhile isWhiteSpace s))"
      using e dropWhile_ws_Nil by blast
    ultimately show False by (simp only: list_all_iff) blast
  qed
  then show "list_all isWhiteSpace s" by (simp only: dropWhile_ws_Nil)
next
  assume "list_all isWhiteSpace s"
  then have d: "dropWhile isWhiteSpace s = []" by (simp only: dropWhile_ws_Nil)
  show "trim s = []" unfolding trim_def d by (simp only: rev.simps dropWhile.simps)
qed

lemma trim_decompose:
  "s = takeWhile isWhiteSpace s @ trim s @ rev (takeWhile isWhiteSpace (rev (dropWhile isWhiteSpace s)))"
proof -
  let ?d = "dropWhile isWhiteSpace s"
  have "rev (rev ?d) = rev (takeWhile isWhiteSpace (rev ?d) @ dropWhile isWhiteSpace (rev ?d))"
    by (simp only: takeWhile_dropWhile_id)
  also have "\<dots> = rev (dropWhile isWhiteSpace (rev ?d)) @ rev (takeWhile isWhiteSpace (rev ?d))"
    by (rule rev_append)
  finally have "?d = trim s @ rev (takeWhile isWhiteSpace (rev ?d))"
    by (simp only: rev_rev_ident trim_def)
  moreover have "s = takeWhile isWhiteSpace s @ ?d" by simp
  ultimately show ?thesis by metis
qed

lemma trim_ends:
  assumes "trim s \<noteq> []"
  shows "\<not> isWhiteSpace (hd (trim s)) \<and> \<not> isWhiteSpace (last (trim s))"
proof -
  let ?d = "dropWhile isWhiteSpace s"
  let ?e = "dropWhile isWhiteSpace (rev ?d)"
  have e: "?e \<noteq> []" using assms by (simp add: trim_def)
  then have "\<not> isWhiteSpace (hd ?e)" by (rule hd_dropWhile)
  then have l: "\<not> isWhiteSpace (last (trim s))"
    using e by (simp add: trim_def last_rev)
  have d: "?d \<noteq> []"
  proof
    assume "?d = []"
    then have "?e = []" by (simp only: rev.simps dropWhile.simps)
    then show False using e by blast
  qed
  then have nd: "\<not> isWhiteSpace (hd ?d)" by (rule hd_dropWhile)
  have "s = takeWhile isWhiteSpace s @ ?d" by simp
  then have "?d = trim s @ rev (takeWhile isWhiteSpace (rev ?d))"
    using trim_decompose [of s] by (metis same_append_eq)
  then have "hd ?d = hd (trim s)" using assms by (metis hd_append2)
  then show ?thesis using nd l by simp
qed

lemma trim_whitespace_ends:
  "list_all isWhiteSpace (takeWhile isWhiteSpace s)
   \<and> list_all isWhiteSpace (rev (takeWhile isWhiteSpace (rev (dropWhile isWhiteSpace s))))"
  by (metis list_all_iff set_rev set_takeWhileD)

text \<open>
  C10.  \<open>createPlayer\<close> names the competitor \<open>Player\<close> when the name is not a string or
  is made of white space only, and otherwise gives it the name without its leading and
  trailing white space: the trimmed name is what is left of the name between a prefix and
  a suffix of white space, and neither starts nor ends with white space.  The competitor
  starts with \<open>MAX_LIVES\<close> lives, alive, with an empty trail, and with the colour
  \<open>COLORS[index mod 8]\<close>.
\<close>

theorem createPlayer_spec:
  "pname (createPlayer i index JSOther) = ''Player''
   \<and> (list_all isWhiteSpace s \<longrightarrow> pname (createPlayer i index (JSString s)) = ''Player'')
   \<and> (\<not> list_all isWhiteSpace s \<longrightarrow>
        pname (createPlayer i index (JSString s)) = trim s
        \<and> \<not> isWhiteSpace (hd (trim s)) \<and> \<not> isWhiteSpace (last (trim s)))
   \<and> (\<exists>pre post. s = pre @ trim s @ post \<and> list_all isWhiteSpace pre \<and> list_all isWhiteSpace post)
   \<and> lives (createPlayer i index nm) = MAX_LIVES
   \<and> alive (createPlayer i index nm)
   \<and> trailLen (createPlayer i index nm) = 0
   \<and> trailStart (createPlayer i index nm) = 0
   \<and> trailSentCount (createPlayer i index nm) = 0
   \<and> color (createPlayer i index nm) = COLORS ! (index mod 8)"
proof -
  have a: "pname (createPlayer i index JSOther) = ''Player''"
    by (simp add: createPlayer_def)
  have b: "list_all isWhiteSpace s \<longrightarrow> pname (createPlayer i index (JSString s)) = ''Player''"
    using trim_empty_iff [of s] by (simp add: createPlayer_def)
  have c: "\<not> list_all isWhiteSpace s \<longrightarrow>
        pname (createPlayer i index (JSString s)) = trim s
        \<and> \<not> isWhiteSpace (hd (trim s)) \<and> \<not> isWhiteSpace (last (trim s))"
    using trim_empty_iff [of s] trim_ends [of s] by (simp add: createPlayer_def)
  have d: "\<exists>pre post. s = pre @ trim s @ post \<and> list_all isWhiteSpace pre \<and> list_all isWhiteSpace post"
    using trim_decompose [of s] trim_whitespace_ends [of s] by blast
  have e: "lives (createPlayer i index nm) = MAX_LIVES
   \<and> alive (createPlayer i index nm)
   \<and> trailLen (createPlayer i index nm) = 0
   \<and> trailStart (createPlayer i index nm) = 0
   \<and> trailSentCount (createPlayer i index nm) = 0
   \<and> color (createPlayer i index nm) = COLORS ! (index mod 8)"
    by (simp add: createPlayer_def COLORS_def)
  show ?thesis using a b c d e by blast
qed

theorem createPlayer_spec_witness:
  "pname (createPlayer ''peer-1'' 9 (JSString [CHR '' '', CHR 0x09, CHR '' ''])) = ''Player''
   \<and> pname (createPlayer ''peer-1'' 9 (JSString ''  Bob M  '')) = ''Bob M''
   \<and> lives (createPlayer ''peer-1'' 9 (JSString ''  Bob M  '')) = 6
   \<and> color (createPlayer ''peer-1'' 9 (JSString ''  Bob M  '')) = ''#00bfff''"
  using createPlayer_spec [of "''peer-1''" 9 "[CHR '' '', CHR 0x09, CHR '' '']" "JSString ''  Bob M  ''"]
    createPlayer_spec [of "''peer-1''" 9 "''  Bob M  ''" "JSString ''  Bob M  ''"]
  by (simp add: trim_def isWhiteSpace_def COLORS_def MAX_LIVES_def)

section \<open>Properties of the speed curve\<close>

lemma boosts_eq_div:
  assumes "0 \<le> d" "d < 21474836480000"
  shows "toInt32 (real_of_int d / 1000 / SPEED_INTERVAL) = d div 10000"
proof -
  have e: "real_of_int d / 1000 / SPEED_INTERVAL = real_of_int d / real_of_int 10000"
    by (simp add: SPEED_INTERVAL_def)
  have f: "\<lfloor>real_of_int d / real_of_int 10000\<rfloor> = d div 10000"
    by (rule floor_divide_of_int_eq)
  have "real_of_int d / real_of_int 10000 < 2147483648" using assms(2) by simp
  moreover have "0 \<le> real_of_int d / real_of_int 10000" using assms(1) by simp
  ultimately have "toInt32 (real_of_int d / real_of_int 10000) = d div 10000"
    using toInt32_nonneg_small f by simp
  then show ?thesis by (simp only: e)
qed

lemma getGameSpeed_in_range:
  assumes "st \<noteq> 0" "0 \<le> now - st" "now - st < 21474836480000"
  shows "getGameSpeed now (Some st) =
           min (BASE_SPEED + real_of_int ((now - st) div 10000) * SPEED_INCREMENT) MAX_SPEED"
  using assms boosts_eq_div [of "now - st"] by (simp add: getGameSpeed_def Let_def)

lemma boosts_neg:
  assumes "d \<le> 0" "- 21474836480000 < d"
  shows "toInt32 (real_of_int d / 1000 / SPEED_INTERVAL) = - ((- d) div 10000)"
proof (cases "d = 0")
  case True
  then show ?thesis by (simp add: toInt32_def)
next
  case False
  have e: "real_of_int d / 1000 / SPEED_INTERVAL = - (real_of_int (- d) / real_of_int 10000)"
    by (simp add: SPEED_INTERVAL_def)
  have f: "\<lfloor>real_of_int (- d) / real_of_int 10000\<rfloor> = (- d) div 10000"
    by (rule floor_divide_of_int_eq)
  have neg: "- (real_of_int (- d) / real_of_int 10000) < 0" using False assms(1) by simp
  have lo: "- 2147483648 \<le> - (real_of_int (- d) / real_of_int 10000)" using assms(2) by simp
  have "toInt32 (- (real_of_int (- d) / real_of_int 10000))
          = \<lceil>- (real_of_int (- d) / real_of_int 10000)\<rceil>"
    using neg lo by (rule toInt32_neg_small)
  also have "\<dots> = - \<lfloor>real_of_int (- d) / real_of_int 10000\<rfloor>"
    by (simp only: ceiling_minus)
  also have "\<dots> = - ((- d) div 10000)" by (simp only: f)
  finally show ?thesis by (simp only: e)
qed

lemma boosts_ceiling:
  "\<lceil>real_of_int d / 1000 / SPEED_INTERVAL\<rceil> = - ((- d) div 10000)"
proof -
  have e: "real_of_int d / 1000 / SPEED_INTERVAL = - (real_of_int (- d) / real_of_int 10000)"
    by (simp add: SPEED_INTERVAL_def)
  have "\<lceil>- (real_of_int (- d) / real_of_int 10000)\<rceil>
          = - \<lfloor>real_of_int (- d) / real_of_int 10000\<rfloor>"
    by (simp only: ceiling_minus)
  also have "\<dots> = - ((- d) div 10000)" by (simp only: floor_divide_of_int_eq)
  finally show ?thesis by (simp only: e)
qed

lemma boosts_mono:
  assumes "- 21474836480000 < d1" "d1 \<le> d2" "d2 < 21474836480000"
  shows "toInt32 (real_of_int d1 / 1000 / SPEED_INTERVAL)
           \<le> toInt32 (real_of_int d2 / 1000 / SPEED_INTERVAL)"
proof (cases "0 \<le> d1")
  case True
  then have "toInt32 (real_of_int d1 / 1000 / SPEED_INTERVAL) = d1 div 10000"
    using assms by (intro boosts_eq_div) linarith+
  moreover have "toInt32 (real_of_int d2 / 1000 / SPEED_INTERVAL) = d2 div 10000"
    using True assms by (intro boosts_eq_div) linarith+
  moreover have "d1 div 10000 \<le> d2 div 10000" using assms(2) by (simp add: zdiv_mono1)
  ultimately show ?thesis by (simp only:)
next
  case False
  then have a: "toInt32 (real_of_int d1 / 1000 / SPEED_INTERVAL) = - ((- d1) div 10000)"
    using assms(1) by (intro boosts_neg) linarith+
  show ?thesis
  proof (cases "0 \<le> d2")
    case True
    then have "toInt32 (real_of_int d2 / 1000 / SPEED_INTERVAL) = d2 div 10000"
      using assms(3) by (intro boosts_eq_div) linarith+
    moreover have "0 \<le> d2 div 10000" using True by (simp add: pos_imp_zdiv_nonneg_iff)
    moreover have "0 \<le> (- d1) div 10000" using \<open>\<not> 0 \<le> d1\<close> by (simp add: pos_imp_zdiv_nonneg_iff)
    ultimately show ?thesis using a by linarith
  next
    case False
    then have "toInt32 (real_of_int d2 / 1000 / SPEED_INTERVAL) = - ((- d2) div 10000)"
      using assms(1,2) by (intro boosts_neg) linarith+
    moreover have "(- d2) div 10000 \<le> (- d1) div 10000"
      using assms(2) by (simp add: zdiv_mono1)
    ultimately show ?thesis using a by linarith
  qed
qed

text \<open>
  C8 (as the code has it).  Without a start time (\<open>null\<close>, or 0, which the test
  \<open>!roundStartTime\<close> treats alike) the speed is \<open>BASE_SPEED\<close>, which is 2.5, and so it is
  at an elapsed time of 0.  With a start time other than 0 and an elapsed time \<open>e\<close> with
  \<open>0 \<le> e < 2^31 * 10\<close> seconds, the speed is
  \<open>min (BASE_SPEED + floor (e / SPEED_INTERVAL) * SPEED_INCREMENT) MAX_SPEED\<close>: it is
  \<open>BASE_SPEED + 0.5\<close> at \<open>e = 10\<close> s and \<open>MAX_SPEED\<close> from \<open>e = 110\<close> s on.  With a clock
  behind the start time, \<open>- 2^31 * 10 < e \<le> 0\<close>, the number of boosts is rounded toward
  zero, not down: the speed is \<open>BASE_SPEED + ceiling (e / SPEED_INTERVAL) * SPEED_INCREMENT\<close>.
  The speed is non-decreasing in \<open>e\<close> for \<open>- 2^31 * 10 < e < 2^31 * 10\<close>.  The bounds
  are those within which \<open>(e / SPEED_INTERVAL) | 0\<close> does not wrap.
\<close>

theorem getGameSpeed_curve:
  fixes st now n1 n2 :: int
  shows "getGameSpeed now None = BASE_SPEED
    \<and> getGameSpeed now (Some 0) = BASE_SPEED
    \<and> BASE_SPEED = 2.5
    \<and> getGameSpeed st (Some st) = BASE_SPEED
    \<and> (st \<noteq> 0 \<and> 0 \<le> now - st \<and> now - st < 21474836480000 \<longrightarrow>
          getGameSpeed now (Some st) =
            min (BASE_SPEED + real_of_int \<lfloor>(real_of_int (now - st) / 1000) / SPEED_INTERVAL\<rfloor>
                                * SPEED_INCREMENT) MAX_SPEED)
    \<and> (st \<noteq> 0 \<longrightarrow> getGameSpeed (st + 10000) (Some st) = BASE_SPEED + 0.5)
    \<and> (st \<noteq> 0 \<and> 110000 \<le> now - st \<and> now - st < 21474836480000 \<longrightarrow>
          getGameSpeed now (Some st) = MAX_SPEED)
    \<and> (st \<noteq> 0 \<and> - 21474836480000 < now - st \<and> now - st \<le> 0 \<longrightarrow>
          getGameSpeed now (Some st) =
            BASE_SPEED + real_of_int \<lceil>(real_of_int (now - st) / 1000) / SPEED_INTERVAL\<rceil>
                           * SPEED_INCREMENT)
    \<and> (- 21474836480000 < n1 - st \<and> n1 \<le> n2 \<and> n2 - st < 21474836480000 \<longrightarrow>
          getGameSpeed n1 (Some st) \<le> getGameSpeed n2 (Some st))"
proof -
  have c1: "getGameSpeed now None = BASE_SPEED"
    by (simp add: getGameSpeed_def)
  have c2: "getGameSpeed now (Some 0) = BASE_SPEED"
    by (simp add: getGameSpeed_def)
  have c3: "BASE_SPEED = 2.5" by (simp add: BASE_SPEED_def)
  have c4: "getGameSpeed st (Some st) = BASE_SPEED"
    by (simp add: getGameSpeed_def toInt32_def BASE_SPEED_def MAX_SPEED_def)
  have c5: "getGameSpeed now (Some st) =
             min (BASE_SPEED + real_of_int \<lfloor>(real_of_int (now - st) / 1000) / SPEED_INTERVAL\<rfloor>
                                 * SPEED_INCREMENT) MAX_SPEED"
    if a: "st \<noteq> 0 \<and> 0 \<le> now - st \<and> now - st < 21474836480000"
  proof -
    have "\<lfloor>(real_of_int (now - st) / 1000) / SPEED_INTERVAL\<rfloor> = (now - st) div 10000"
      using boosts_eq_div [of "now - st"] a
        toInt32_nonneg_small [of "real_of_int (now - st) / 1000 / SPEED_INTERVAL"]
      by (simp add: SPEED_INTERVAL_def)
    then show ?thesis using getGameSpeed_in_range [of st now] a by simp
  qed
  have c6: "getGameSpeed (st + 10000) (Some st) = BASE_SPEED + 0.5" if "st \<noteq> 0"
    using getGameSpeed_in_range [of st "st + 10000"] that
    by (simp add: BASE_SPEED_def MAX_SPEED_def SPEED_INCREMENT_def)
  have c7: "getGameSpeed now (Some st) = MAX_SPEED"
    if a: "st \<noteq> 0 \<and> 110000 \<le> now - st \<and> now - st < 21474836480000"
  proof -
    have "11 \<le> (now - st) div 10000"
      using a zdiv_mono1 [of 110000 "now - st" 10000] by simp
    then have "11 \<le> real_of_int ((now - st) div 10000)"
      by linarith
    then have "MAX_SPEED \<le> BASE_SPEED + real_of_int ((now - st) div 10000) * SPEED_INCREMENT"
      by (simp add: MAX_SPEED_def BASE_SPEED_def SPEED_INCREMENT_def)
    then show ?thesis
      using getGameSpeed_in_range [of st now] a by (simp add: min_def)
  qed
  have c8: "getGameSpeed now (Some st) =
            BASE_SPEED + real_of_int \<lceil>(real_of_int (now - st) / 1000) / SPEED_INTERVAL\<rceil>
                           * SPEED_INCREMENT"
    if a: "st \<noteq> 0 \<and> - 21474836480000 < now - st \<and> now - st \<le> 0"
  proof -
    let ?r = "(real_of_int (now - st) / 1000) / SPEED_INTERVAL"
    have b: "toInt32 ?r = - ((- (now - st)) div 10000)"
      using a by (intro boosts_neg) linarith+
    have c: "toInt32 ?r = \<lceil>?r\<rceil>"
      using b boosts_ceiling [of "now - st"] by (simp only:)
    have "0 \<le> (- (now - st)) div 10000" using a by (simp add: pos_imp_zdiv_nonneg_iff)
    then have "toInt32 ?r \<le> 0" using b by simp
    then have "real_of_int (toInt32 ?r) * SPEED_INCREMENT \<le> 0"
      by (simp add: SPEED_INCREMENT_def mult_le_0_iff)
    then have "BASE_SPEED + real_of_int (toInt32 ?r) * SPEED_INCREMENT \<le> MAX_SPEED"
      by (simp add: BASE_SPEED_def MAX_SPEED_def)
    then have "getGameSpeed now (Some st) = BASE_SPEED + real_of_int (toInt32 ?r) * SPEED_INCREMENT"
      using a by (simp add: getGameSpeed_def Let_def)
    then show ?thesis by (simp only: c)
  qed
  have c9: "getGameSpeed n1 (Some st) \<le> getGameSpeed n2 (Some st)"
    if a: "- 21474836480000 < n1 - st \<and> n1 \<le> n2 \<and> n2 - st < 21474836480000"
  proof (cases "st = 0")
    case True
    then show ?thesis by (simp add: getGameSpeed_def)
  next
    case False
    have "toInt32 (real_of_int (n1 - st) / 1000 / SPEED_INTERVAL)
            \<le> toInt32 (real_of_int (n2 - st) / 1000 / SPEED_INTERVAL)"
      using a by (intro boosts_mono) simp_all
    then have "real_of_int (toInt32 (real_of_int (n1 - st) / 1000 / SPEED_INTERVAL)) * SPEED_INCREMENT
                 \<le> real_of_int (toInt32 (real_of_int (n2 - st) / 1000 / SPEED_INTERVAL)) * SPEED_INCREMENT"
      by (simp add: SPEED_INCREMENT_def)
    then show ?thesis
      using False by (simp add: getGameSpeed_def Let_def min_le_iff_disj)
  qed
  show ?thesis using c1 c2 c3 c4 c5 c6 c7 c8 c9 by blast
qed

theorem getGameSpeed_curve_witness:
  "getGameSpeed 1700000110000 None = BASE_SPEED
   \<and> getGameSpeed 1700000110000 (Some 0) = BASE_SPEED
   \<and> getGameSpeed 1700000000000 (Some 1700000000000) = 2.5
   \<and> getGameSpeed 1700000110000 (Some 1700000000000)
       = min (BASE_SPEED + real_of_int \<lfloor>(real_of_int (1700000110000 - 1700000000000) / 1000) / SPEED_INTERVAL\<rfloor>
                                 * SPEED_INCREMENT) MAX_SPEED
   \<and> getGameSpeed (1700000000000 + 10000) (Some 1700000000000) = BASE_SPEED + 0.5
   \<and> getGameSpeed 1700000110000 (Some 1700000000000) = MAX_SPEED
   \<and> getGameSpeed 1699999985000 (Some 1700000000000)
       = BASE_SPEED + real_of_int \<lceil>(real_of_int (1699999985000 - 1700000000000) / 1000) / SPEED_INTERVAL\<rceil>
                        * SPEED_INCREMENT
   \<and> getGameSpeed 1699999985000 (Some 1700000000000) \<le> getGameSpeed 1700000049000 (Some 1700000000000)"
proof -
  note t1 = getGameSpeed_curve [of 1700000110000 1700000000000 1699999985000 1700000049000]
  note t2 = getGameSpeed_curve [of 1699999985000 1700000000000 1699999985000 1700000049000]
  have a: "getGameSpeed 1700000110000 None = BASE_SPEED"
    "getGameSpeed 1700000110000 (Some 0) = BASE_SPEED"
    "getGameSpeed 1700000000000 (Some 1700000000000) = 2.5"
    using t1 by simp_all
  have b: "getGameSpeed 1700000110000 (Some 1700000000000)
       = min (BASE_SPEED + real_of_int \<lfloor>(real_of_int (1700000110000 - 1700000000000) / 1000) / SPEED_INTERVAL\<rfloor>
                                 * SPEED_INCREMENT) MAX_SPEED"
    "getGameSpeed (1700000000000 + 10000) (Some 1700000000000) = BASE_SPEED + 0.5"
    "getGameSpeed 1700000110000 (Some 1700000000000) = MAX_SPEED"
    using t1 by simp_all
  have c: "getGameSpeed 1699999985000 (Some 1700000000000)
       = BASE_SPEED + real_of_int \<lceil>(real_of_int (1699999985000 - 1700000000000) / 1000) / SPEED_INTERVAL\<rceil>
                        * SPEED_INCREMENT"
    "getGameSpeed 1699999985000 (Some 1700000000000) \<le> getGameSpeed 1700000049000 (Some 1700000000000)"
    using t2 by simp_all
  show ?thesis using a b c by blast
qed

text \<open>
  C8 as stated fails for a clock behind the start time.  A mirror evaluates
  \<open>getGameSpeed\<close> with the start time that the host sent (\<open>state.rst\<close>) against its own
  clock.  With that clock 5 s behind the host's at the start of the round, the elapsed
  time is \<open>- 5\<close> s, the number of boosts is 0 and the speed is \<open>BASE_SPEED\<close>, where the
  floor of the claim's formula is \<open>- 1\<close> and its value 2.  With the clock 15 s behind,
  the speed is 2, where the claim's formula gives 1.5.
\<close>

theorem getGameSpeed_unclamped_counterexample:
  "getGameSpeed 1699999995000 (Some 1700000000000) = 2.5
   \<and> min (BASE_SPEED
            + real_of_int \<lfloor>(real_of_int (1699999995000 - 1700000000000) / 1000) / SPEED_INTERVAL\<rfloor>
                * SPEED_INCREMENT) MAX_SPEED = 2
   \<and> getGameSpeed 1699999985000 (Some 1700000000000) = 2
   \<and> min (BASE_SPEED
            + real_of_int \<lfloor>(real_of_int (1699999985000 - 1700000000000) / 1000) / SPEED_INTERVAL\<rfloor>
                * SPEED_INCREMENT) MAX_SPEED = 1.5"
proof -
  have t: "toInt32 (- (1 / 2)) = 0"
  proof -
    have "\<lceil>- (1 / 2) :: real\<rceil> = 0" by (simp add: ceiling_eq_iff)
    then show ?thesis by (simp add: toInt32_def)
  qed
  have u: "toInt32 (- (3 / 2)) = - 1"
  proof -
    have "\<lceil>- (3 / 2) :: real\<rceil> = - 1" by (simp add: ceiling_eq_iff)
    then show ?thesis by (simp add: toInt32_def)
  qed
  have a: "getGameSpeed 1699999995000 (Some 1700000000000) = 2.5"
    using t by (simp add: getGameSpeed_def BASE_SPEED_def SPEED_INTERVAL_def
        SPEED_INCREMENT_def MAX_SPEED_def)
  have b: "getGameSpeed 1699999985000 (Some 1700000000000) = 2"
    using u by (simp add: getGameSpeed_def BASE_SPEED_def SPEED_INTERVAL_def
        SPEED_INCREMENT_def MAX_SPEED_def)
  have "\<lfloor>- (1 / 2) :: real\<rfloor> = - 1" by (simp add: floor_eq_iff)
  then have c: "min (BASE_SPEED
            + real_of_int \<lfloor>(real_of_int (1699999995000 - 1700000000000) / 1000) / SPEED_INTERVAL\<rfloor>
                * SPEED_INCREMENT) MAX_SPEED = 2"
    by (simp add: BASE_SPEED_def SPEED_INTERVAL_def SPEED_INCREMENT_def MAX_SPEED_def)
  have "\<lfloor>- (3 / 2) :: real\<rfloor> = - 2" by (simp add: floor_eq_iff)
  then have d: "min (BASE_SPEED
            + real_of_int \<lfloor>(real_of_int (1699999985000 - 1700000000000) / 1000) / SPEED_INTERVAL\<rfloor>
                * SPEED_INCREMENT) MAX_SPEED = 1.5"
    by (simp add: BASE_SPEED_def SPEED_INTERVAL_def SPEED_INCREMENT_def MAX_SPEED_def)
  show ?thesis using a b c d by blast
qed

text \<open>
  The upper bound on the elapsed time is where the conversion to 32 bits wraps: at
  \<open>2^31 * 10\<close> seconds the number of boosts is \<open>- 2^31\<close>.
\<close>

lemma getGameSpeed_wraps:
  "getGameSpeed 21474836480001 (Some 1) = - 1073741821.5"
proof -
  have w: "toInt32 2147483648 = - 2147483648"
    by (simp add: toInt32_def)
  show ?thesis
    using w by (simp add: getGameSpeed_def BASE_SPEED_def SPEED_INTERVAL_def
        SPEED_INCREMENT_def MAX_SPEED_def)
qed

section \<open>Lifecycle misuse\<close>

text \<open>
  C9 (as the code has it).  On the host, a start-match request with fewer than two
  competitors is answered with the event \<open>error\<close> carrying the message
  \<open>Need at least 2 players!\<close>, and nothing else of the state changes.  A restart request
  while \<open>matchWinner\<close> is \<open>null\<close> changes nothing at all: no event is emitted and no
  message is sent.
\<close>

theorem lifecycle_misuse:
  "(isHost s \<and> length (players s) < 2 \<longrightarrow>
       startGame now s = s\<lparr> emitted := emitted s @ [EvError ''Need at least 2 players!''] \<rparr>
     \<and> gameStarted (startGame now s) = gameStarted s
     \<and> countdown (startGame now s) = countdown s
     \<and> players (startGame now s) = players s
     \<and> matchWinner (startGame now s) = matchWinner s)
   \<and> (matchWinner s = None \<longrightarrow> handleRestart now s = s)"
  by (simp add: startGame_def emit_def handleRestart_def truthy_def)

theorem lifecycle_misuse_witness:
  "startGame 1700000000000 soloLobby
     = soloLobby\<lparr> emitted := [EvError ''Need at least 2 players!''] \<rparr>
   \<and> gameStarted (startGame 1700000000000 soloLobby) = False
   \<and> handleRestart 1700000000000 midMatch = midMatch"
  using lifecycle_misuse [of soloLobby 1700000000000] lifecycle_misuse [of midMatch 1700000000000]
  by (simp add: soloLobby_def midMatch_def)

text \<open>
  C9 as stated fails in its second half: the restart request that arrives while no match
  end is pending produces no message.  Here the host of a running match receives one: no
  event reaches the user interface and nothing is sent to the requesting peer.
\<close>

theorem restart_silent_counterexample:
  "isHost midMatch \<and> matchWinner midMatch = None
   \<and> emitted (handleRestart 1700000000000 midMatch) = []
   \<and> outbox (handleRestart 1700000000000 midMatch) = []"
  by (simp add: handleRestart_def truthy_def midMatch_def)

section \<open>Motion and the order of a tick\<close>

lemma trailPush_player_indep: "snd (trailPush g p x y) = snd (trailPush g' p x y)"
  by (simp add: trailPush_def Let_def)

lemma movePlayer_player_indep: "snd (movePlayer g p speed) = snd (movePlayer g' p speed)"
proof -
  let ?a = "angle p + turning p * TURN_SPEED"
  let ?x = "px p + cos ?a * speed"
  let ?y = "py p + sin ?a * speed"
  let ?q = "p\<lparr> angle := ?a, px := ?x, py := ?y \<rparr>"
  have "snd (movePlayer h p speed) =
          (if outOfBounds ?x ?y then (snd (trailPush h ?q ?x ?y))\<lparr> alive := False \<rparr>
           else snd (trailPush h ?q ?x ?y))" for h
    by (simp add: movePlayer_def Let_def split_beta)
  then show ?thesis using trailPush_player_indep [of g ?q ?x ?y g'] by simp
qed

lemma trailPush_position: 
  "px (snd (trailPush g p x y)) = px p \<and> py (snd (trailPush g p x y)) = py p
   \<and> alive (snd (trailPush g p x y)) = alive p"
  by (simp add: trailPush_def Let_def)

lemma movePlayer_position:
  "px (snd (movePlayer g p speed)) = px p + cos (angle p + turning p * TURN_SPEED) * speed
   \<and> py (snd (movePlayer g p speed)) = py p + sin (angle p + turning p * TURN_SPEED) * speed"
  by (simp add: movePlayer_def Let_def split_beta trailPush_position)

lemma movePlayer_alive:
  "alive (snd (movePlayer g p speed)) \<longleftrightarrow>
     alive p \<and> \<not> outOfBounds (px p + cos (angle p + turning p * TURN_SPEED) * speed)
                             (py p + sin (angle p + turning p * TURN_SPEED) * speed)"
  by (simp add: movePlayer_def Let_def split_beta trailPush_position)

lemma moveAlive_players:
  "snd (moveAlive speed g ps) = map (\<lambda>q. if alive q then snd (movePlayer g0 q speed) else q) ps"
proof (induction ps arbitrary: g)
  case Nil
  show ?case by simp
next
  case (Cons p ps)
  show ?case
  proof (cases "alive p")
    case True
    obtain g1 p1 where m: "movePlayer g p speed = (g1, p1)" by (cases "movePlayer g p speed")
    then have "p1 = snd (movePlayer g0 p speed)"
      using movePlayer_player_indep [of g p speed g0] by simp
    then show ?thesis using True m Cons.IH [of g1] by (simp add: split_beta)
  next
    case False
    then show ?thesis using Cons.IH [of g] by (simp add: split_beta)
  qed
qed

lemma checkCollisions_length: "length (snd (checkCollisions g ps)) = length ps"
  by (simp add: checkCollisions_def Let_def)

lemma checkCollisions_dead_stays_dead:
  assumes "i < length ps" "\<not> alive (ps ! i)"
  shows "\<not> alive (snd (checkCollisions g ps) ! i)"
  using assms by (simp add: checkCollisions_def Let_def nth_enumerate_eq)

lemma serializeGameState_players:
  "fst (snd (serializeGameState now sent ps ra cd rst mw))
     = map (\<lambda>p. p\<lparr> trailSentCount := int (trailLen p) \<rparr>) ps"
  by (simp add: serializeGameState_def serializePlayer_def Let_def)

lemma broadcastState_frame:
  "isHost (broadcastState now s) = isHost s"
  "roundActive (broadcastState now s) = roundActive s"
  "countdown (broadcastState now s) = countdown s"
  "roundStartTime (broadcastState now s) = roundStartTime s"
  "matchWinner (broadcastState now s) = matchWinner s"
  "gameStarted (broadcastState now s) = gameStarted s"
  "tickCounter (broadcastState now s) = tickCounter s"
  "physicsInterval (broadcastState now s) = physicsInterval s"
  "timers (broadcastState now s) = timers s"
  "gameGrid (broadcastState now s) = gameGrid s"
  "connections (broadcastState now s) = connections s"
  by (simp_all add: broadcastState_def emit_def sendToOpen_def split_beta)

lemma broadcastState_players:
  "players (broadcastState now s)
     = (if isHost s then map (\<lambda>p. p\<lparr> trailSentCount := int (trailLen p) \<rparr>) (players s)
        else players s)"
  using serializeGameState_players
  by (simp add: broadcastState_def emit_def sendToOpen_def split_beta)

lemma broadcastPlayerList_frame:
  "isHost (broadcastPlayerList s) = isHost s"
  "players (broadcastPlayerList s) = players s"
  "roundActive (broadcastPlayerList s) = roundActive s"
  "countdown (broadcastPlayerList s) = countdown s"
  "roundStartTime (broadcastPlayerList s) = roundStartTime s"
  "matchWinner (broadcastPlayerList s) = matchWinner s"
  "gameStarted (broadcastPlayerList s) = gameStarted s"
  "tickCounter (broadcastPlayerList s) = tickCounter s"
  "physicsInterval (broadcastPlayerList s) = physicsInterval s"
  "timers (broadcastPlayerList s) = timers s"
  "gameGrid (broadcastPlayerList s) = gameGrid s"
  "connections (broadcastPlayerList s) = connections s"
  by (simp_all add: broadcastPlayerList_def emit_def sendToOpen_def)

lemma stopPhysicsLoop_frame:
  "isHost (stopPhysicsLoop s) = isHost s"
  "players (stopPhysicsLoop s) = players s"
  "roundActive (stopPhysicsLoop s) = roundActive s"
  "countdown (stopPhysicsLoop s) = countdown s"
  "roundStartTime (stopPhysicsLoop s) = roundStartTime s"
  "matchWinner (stopPhysicsLoop s) = matchWinner s"
  "gameStarted (stopPhysicsLoop s) = gameStarted s"
  "tickCounter (stopPhysicsLoop s) = tickCounter s"
  "gameGrid (stopPhysicsLoop s) = gameGrid s"
  "connections (stopPhysicsLoop s) = connections s"
  "physicsInterval (stopPhysicsLoop s) = False"
  "Interval PhysicsTick PHYSICS_INTERVAL \<notin> set (timers (stopPhysicsLoop s)) \<or> \<not> physicsInterval s"
  by (simp_all add: stopPhysicsLoop_def)

lemma map_alive_sent: "map alive (map (\<lambda>p. p\<lparr> trailSentCount := f p \<rparr>) ps) = map alive ps"
  by simp

lemma broadcastState_alive: "map alive (players (broadcastState now s)) = map alive (players s)"
  by (simp add: broadcastState_players)

lemma roundEnd_players:
  "players (roundEnd now s)
     = (if isHost s then map (\<lambda>p. p\<lparr> trailSentCount := int (trailLen p) \<rparr>) (players s)
        else players s)"
  by (simp add: roundEnd_def Let_def broadcastState_players broadcastPlayerList_frame
      stopPhysicsLoop_frame resetStaticSent_def)

lemma roundEnd_alive: "map alive (players (roundEnd now s)) = map alive (players s)"
  by (simp add: roundEnd_players)

lemma loseLives_alive:
  "length w = length ps \<Longrightarrow> map alive (loseLives w ps) = map alive ps"
  by (induction w ps rule: list_induct2) (simp_all add: loseLives_def)

lemma moveAlive_length: "length (snd (moveAlive speed g ps)) = length ps"
  by (simp add: moveAlive_players [of speed g ps g])

lemma tickCollide_length: "length (snd (tickCollide speed g ps)) = length ps"
  by (simp add: tickCollide_def split_beta checkCollisions_length moveAlive_length)

lemma physicsTick_alive:
  assumes "isHost s" "roundActive s"
  shows "map alive (players (physicsTick now s))
           = map alive (snd (tickCollide (getGameSpeed now (roundStartTime s)) (gameGrid s) (players s)))"
  using assms
  by (simp add: physicsTick_def Let_def split_beta broadcastState_alive roundEnd_alive
      loseLives_alive tickCollide_length)

lemma checkCollisions_dead_untouched:
  assumes "i < length ps" "\<not> alive (ps ! i)"
  shows "snd (checkCollisions g ps) ! i = ps ! i"
  using assms by (simp add: checkCollisions_def Let_def nth_enumerate_eq)

text \<open>
  C5.  A competitor whose computed position leaves \<open>[0, CANVAS_W] \<times> [0, CANVAS_H]\<close> is
  not alive when its \<open>movePlayer\<close> call returns.  In a tick of the host the movement loop
  runs first: in the list that it leaves the competitor is not alive.  Collision
  detection runs on that list: the \<open>alive\<close> flags at the end of the tick are those that
  \<open>checkCollisions\<close> computes from the moved competitors and the spatial index as the
  movement loop left it, and \<open>checkCollisions\<close> returns the competitor that left the
  arena unchanged, without testing it.  At the end of the tick it is not alive.
\<close>

theorem wall_death_same_tick:
  assumes "isHost s" and "roundActive s"
    and "i < length (players s)" and "alive (players s ! i)"
    and "outOfBounds
           (px (players s ! i) + cos (angle (players s ! i) + turning (players s ! i) * TURN_SPEED)
                                   * getGameSpeed now (roundStartTime s))
           (py (players s ! i) + sin (angle (players s ! i) + turning (players s ! i) * TURN_SPEED)
                                   * getGameSpeed now (roundStartTime s))"
  shows "\<not> alive (snd (movePlayer g (players s ! i) (getGameSpeed now (roundStartTime s))))
    \<and> \<not> alive (snd (moveAlive (getGameSpeed now (roundStartTime s)) (gameGrid s) (players s)) ! i)
    \<and> map alive (players (physicsTick now s))
        = map alive (snd (checkCollisions
            (fst (moveAlive (getGameSpeed now (roundStartTime s)) (gameGrid s) (players s)))
            (snd (moveAlive (getGameSpeed now (roundStartTime s)) (gameGrid s) (players s)))))
    \<and> snd (checkCollisions
            (fst (moveAlive (getGameSpeed now (roundStartTime s)) (gameGrid s) (players s)))
            (snd (moveAlive (getGameSpeed now (roundStartTime s)) (gameGrid s) (players s)))) ! i
        = snd (moveAlive (getGameSpeed now (roundStartTime s)) (gameGrid s) (players s)) ! i
    \<and> \<not> alive (players (physicsTick now s) ! i)"
proof -
  let ?v = "getGameSpeed now (roundStartTime s)"
  let ?mg = "fst (moveAlive ?v (gameGrid s) (players s))"
  let ?moved = "snd (moveAlive ?v (gameGrid s) (players s))"
  let ?cc = "snd (checkCollisions ?mg ?moved)"
  let ?end = "players (physicsTick now s)"
  have a: "\<not> alive (snd (movePlayer h (players s ! i) ?v))" for h
    using assms(5) by (simp add: movePlayer_alive)
  have mi: "?moved ! i = snd (movePlayer g (players s ! i) ?v)"
    using assms(3,4) by (simp add: moveAlive_players [of ?v "gameGrid s" "players s" g])
  then have b: "\<not> alive (?moved ! i)" using a by simp
  have tc: "snd (tickCollide ?v (gameGrid s) (players s)) = ?cc"
    by (simp add: tickCollide_def split_beta)
  have c: "map alive ?end = map alive ?cc"
    using physicsTick_alive [OF assms(1,2), of now] by (simp only: tc)
  have len: "i < length ?moved" using assms(3) by (simp add: moveAlive_length)
  have d: "?cc ! i = ?moved ! i"
    using len b by (rule checkCollisions_dead_untouched)
  have lc: "i < length ?cc" using len by (simp add: checkCollisions_length)
  have le: "length ?end = length ?cc" using c by (rule map_eq_imp_length_eq)
  have "alive (?end ! i) = alive (?cc ! i)"
    using c lc le by (metis nth_map)
  then have e: "\<not> alive (?end ! i)" using d b by simp
  show ?thesis using a b c d e by blast
qed

theorem wall_death_same_tick_witness:
  "\<not> alive (snd (movePlayer initialGrid (players wallRound ! 0)
                  (getGameSpeed 1700000000016 (roundStartTime wallRound))))
   \<and> \<not> alive (snd (moveAlive (getGameSpeed 1700000000016 (roundStartTime wallRound))
                     (gameGrid wallRound) (players wallRound)) ! 0)
   \<and> map alive (players (physicsTick 1700000000016 wallRound))
        = map alive (snd (checkCollisions
            (fst (moveAlive (getGameSpeed 1700000000016 (roundStartTime wallRound))
                    (gameGrid wallRound) (players wallRound)))
            (snd (moveAlive (getGameSpeed 1700000000016 (roundStartTime wallRound))
                    (gameGrid wallRound) (players wallRound)))))
   \<and> snd (checkCollisions
            (fst (moveAlive (getGameSpeed 1700000000016 (roundStartTime wallRound))
                    (gameGrid wallRound) (players wallRound)))
            (snd (moveAlive (getGameSpeed 1700000000016 (roundStartTime wallRound))
                    (gameGrid wallRound) (players wallRound)))) ! 0
        = snd (moveAlive (getGameSpeed 1700000000016 (roundStartTime wallRound))
                 (gameGrid wallRound) (players wallRound)) ! 0
   \<and> \<not> alive (players (physicsTick 1700000000016 wallRound) ! 0)"
proof -
  have v: "getGameSpeed 1700000000016 (Some 1700000000000) = 2.5"
    by (simp add: getGameSpeed_def toInt32_def SPEED_INTERVAL_def BASE_SPEED_def MAX_SPEED_def)
  have h: "isHost wallRound" "roundActive wallRound" "0 < length (players wallRound)"
    "alive (players wallRound ! 0)"
    by (simp_all add: wallRound_def midMatch_def createPlayer_def)
  have r: "roundStartTime wallRound = Some 1700000000000"
    by (simp add: wallRound_def midMatch_def)
  have p: "px (players wallRound ! 0) = 1399" "py (players wallRound ! 0) = 450"
    "angle (players wallRound ! 0) = 0" "turning (players wallRound ! 0) = 0"
    by (simp_all add: wallRound_def midMatch_def createPlayer_def)
  have o: "outOfBounds
           (px (players wallRound ! 0)
              + cos (angle (players wallRound ! 0) + turning (players wallRound ! 0) * TURN_SPEED)
                  * getGameSpeed 1700000000016 (roundStartTime wallRound))
           (py (players wallRound ! 0)
              + sin (angle (players wallRound ! 0) + turning (players wallRound ! 0) * TURN_SPEED)
                  * getGameSpeed 1700000000016 (roundStartTime wallRound))"
    using v by (simp add: r p outOfBounds_def CANVAS_W_def)
  show ?thesis using wall_death_same_tick [OF h o, of initialGrid] by blast
qed

section \<open>Round start\<close>

lemma startRoundLoop_length: "length (startRoundLoop i ps) = length ps"
  by (induction ps arbitrary: i) (simp_all add: split_beta)

lemma startRoundLoop_nth:
  "k < length ps \<Longrightarrow>
     startRoundLoop i ps ! k =
       (if lives (ps ! k) \<le> 0 then resetTrail ((ps ! k)\<lparr> alive := False \<rparr>)
        else (case spawnConfigs ! ((i + length (filter (\<lambda>p. 0 < lives p) (take k ps)))
                                    mod length spawnConfigs) of
                (sx, sy, sa) \<Rightarrow>
                  resetTrail ((ps ! k)\<lparr> px := sx, py := sy, angle := sa, turning := 0 \<rparr>)
                    \<lparr> alive := True \<rparr>))"
proof (induction ps arbitrary: i k)
  case Nil
  then show ?case by simp
next
  case (Cons p ps)
  show ?case
  proof (cases k)
    case 0
    then show ?thesis by simp
  next
    case (Suc j)
    then have j: "j < length ps" using Cons.prems by simp
    show ?thesis
    proof (cases "lives p \<le> 0")
      case True
      then show ?thesis using Suc Cons.IH [OF j, of i] by simp
    next
      case False
      then show ?thesis using Suc Cons.IH [OF j, of "i + 1"] by (simp add: split_beta)
    qed
  qed
qed

lemma startPhysicsLoop_frame:
  "players (startPhysicsLoop s) = players s"
  "roundActive (startPhysicsLoop s) = roundActive s"
  "roundStartTime (startPhysicsLoop s) = roundStartTime s"
  "matchWinner (startPhysicsLoop s) = matchWinner s"
  by (simp_all add: startPhysicsLoop_def stopPhysicsLoop_def Let_def)

text \<open>
  C6 (as the code has it).  At a round start a competitor with lives left is placed at
  the spawn slot \<open>c mod 8\<close>, where \<open>c\<close> counts the competitors with lives left that come
  before it in the iteration order; its turn intent is 0, its trail is reset and it is
  alive.  A competitor without lives is made not alive, its trail is reset, and it takes
  no slot: its position and heading stay as they were.  On the host the caller then sets
  \<open>roundStartTime\<close> to the clock and \<open>roundActive\<close> to true.
\<close>

theorem startRound_spec:
  assumes "k < length ps"
  shows "length (snd (startRound g ps)) = length ps
    \<and> (lives (ps ! k) \<le> 0 \<longrightarrow>
          \<not> alive (snd (startRound g ps) ! k)
        \<and> trailLen (snd (startRound g ps) ! k) = 0
        \<and> trailStart (snd (startRound g ps) ! k) = 0
        \<and> trailSentCount (snd (startRound g ps) ! k) = 0
        \<and> px (snd (startRound g ps) ! k) = px (ps ! k)
        \<and> py (snd (startRound g ps) ! k) = py (ps ! k)
        \<and> angle (snd (startRound g ps) ! k) = angle (ps ! k))
    \<and> (0 < lives (ps ! k) \<longrightarrow>
          (px (snd (startRound g ps) ! k), py (snd (startRound g ps) ! k),
           angle (snd (startRound g ps) ! k))
            = spawnConfigs ! (length (filter (\<lambda>p. 0 < lives p) (take k ps)) mod 8)
        \<and> turning (snd (startRound g ps) ! k) = 0
        \<and> trailLen (snd (startRound g ps) ! k) = 0
        \<and> trailStart (snd (startRound g ps) ! k) = 0
        \<and> trailSentCount (snd (startRound g ps) ! k) = 0
        \<and> alive (snd (startRound g ps) ! k))
    \<and> (isHost s \<longrightarrow>
          roundStartTime (Network_startRound now s) = Some now
        \<and> roundActive (Network_startRound now s)
        \<and> players (Network_startRound now s) = snd (startRound (gameGrid s) (players s)))"
proof -
  let ?r = "snd (startRound g ps)"
  have r: "?r = startRoundLoop 0 ps" by (simp add: startRound_def Let_def)
  have a: "length ?r = length ps" by (simp add: r startRoundLoop_length)
  have n: "?r ! k =
       (if lives (ps ! k) \<le> 0 then resetTrail ((ps ! k)\<lparr> alive := False \<rparr>)
        else (case spawnConfigs ! (length (filter (\<lambda>p. 0 < lives p) (take k ps)) mod 8) of
                (sx, sy, sa) \<Rightarrow>
                  resetTrail ((ps ! k)\<lparr> px := sx, py := sy, angle := sa, turning := 0 \<rparr>)
                    \<lparr> alive := True \<rparr>))"
    using startRoundLoop_nth [OF assms, of 0] by (simp add: r spawnConfigs_def)
  have b: "lives (ps ! k) \<le> 0 \<longrightarrow>
          \<not> alive (?r ! k) \<and> trailLen (?r ! k) = 0 \<and> trailStart (?r ! k) = 0
        \<and> trailSentCount (?r ! k) = 0 \<and> px (?r ! k) = px (ps ! k) \<and> py (?r ! k) = py (ps ! k)
        \<and> angle (?r ! k) = angle (ps ! k)"
    by (simp add: n resetTrail_def)
  have c: "0 < lives (ps ! k) \<longrightarrow>
          (px (?r ! k), py (?r ! k), angle (?r ! k))
            = spawnConfigs ! (length (filter (\<lambda>p. 0 < lives p) (take k ps)) mod 8)
        \<and> turning (?r ! k) = 0 \<and> trailLen (?r ! k) = 0 \<and> trailStart (?r ! k) = 0
        \<and> trailSentCount (?r ! k) = 0 \<and> alive (?r ! k)"
    by (simp add: n resetTrail_def split_beta)
  have d: "isHost s \<longrightarrow>
          roundStartTime (Network_startRound now s) = Some now
        \<and> roundActive (Network_startRound now s)
        \<and> players (Network_startRound now s) = snd (startRound (gameGrid s) (players s))"
    by (simp add: Network_startRound_def split_beta startPhysicsLoop_frame)
  show ?thesis using a b c d by blast
qed

theorem startRound_spec_witness:
  "length (snd (startRound initialGrid eliminatedFirst)) = 2
   \<and> \<not> alive (snd (startRound initialGrid eliminatedFirst) ! 0)
   \<and> trailLen (snd (startRound initialGrid eliminatedFirst) ! 0) = 0
   \<and> px (snd (startRound initialGrid eliminatedFirst) ! 0) = 700
   \<and> (px (snd (startRound initialGrid eliminatedFirst) ! 1),
       py (snd (startRound initialGrid eliminatedFirst) ! 1),
       angle (snd (startRound initialGrid eliminatedFirst) ! 1)) = (250, 200, pi * 0.25)
   \<and> alive (snd (startRound initialGrid eliminatedFirst) ! 1)
   \<and> roundStartTime (Network_startRound 1700000000000 (midMatch\<lparr> players := eliminatedFirst \<rparr>))
       = Some 1700000000000
   \<and> roundActive (Network_startRound 1700000000000 (midMatch\<lparr> players := eliminatedFirst \<rparr>))"
  using startRound_spec [of 0 eliminatedFirst initialGrid "midMatch\<lparr> players := eliminatedFirst \<rparr>" 1700000000000]
    startRound_spec [of 1 eliminatedFirst initialGrid "midMatch\<lparr> players := eliminatedFirst \<rparr>" 1700000000000]
  by (simp add: eliminatedFirst_def midMatch_def createPlayer_def spawnConfigs_def CANVAS_W_def)

text \<open>
  C6 as stated names the slot \<open>spawnIndex mod 8\<close>.  The loop never reads \<open>spawnIndex\<close>:
  once the first competitor is out of lives, the second one (spawn index 1, slot 1 at
  \<open>(1150, 200)\<close>) is placed at slot 0.
\<close>

theorem startRound_slot_counterexample:
  "0 < lives (eliminatedFirst ! 1)
   \<and> spawnIndex (eliminatedFirst ! 1) = 1
   \<and> spawnConfigs ! (spawnIndex (eliminatedFirst ! 1) mod length spawnConfigs) = (1150, 200, pi * 0.75)
   \<and> px (snd (startRound initialGrid eliminatedFirst) ! 1) = 250
   \<and> py (snd (startRound initialGrid eliminatedFirst) ! 1) = 200
   \<and> angle (snd (startRound initialGrid eliminatedFirst) ! 1) = pi * 0.25
   \<and> pi * 0.25 \<noteq> pi * 0.75"
  by (simp add: startRound_def Let_def eliminatedFirst_def createPlayer_def spawnConfigs_def
      resetTrail_def)

section \<open>The trail store as a ring buffer\<close>

lemma TRAIL_MAX_pos: "0 < TRAIL_MAX" by (simp add: TRAIL_MAX_def)

lemma ring_slot:
  fixes s a m :: nat
  assumes "s < m" "a \<le> m"
  shows "(s + a) mod m = (if s + a < m then s + a else s + a - m)"
proof (cases "s + a < m")
  case True
  then show ?thesis by simp
next
  case False
  then have "(s + a) mod m = (s + a - m) mod m" by (simp add: le_mod_geq)
  moreover have "s + a - m < m" using assms by arith
  ultimately show ?thesis using False by simp
qed

lemma ring_slot_less:
  fixes s a m :: nat
  assumes "s < m" "a \<le> m"
  shows "(s + a) mod m < m"
  using assms by (simp add: ring_slot) arith

lemma ring_slot_inj:
  fixes s a b m :: nat
  assumes "s < m" "a < m" "b < m" "(s + a) mod m = (s + b) mod m"
  shows "a = b"
proof -
  have "(s + a) mod m = (if s + a < m then s + a else s + a - m)"
    using assms(1,2) by (simp add: ring_slot)
  moreover have "(s + b) mod m = (if s + b < m then s + b else s + b - m)"
    using assms(1,3) by (simp add: ring_slot)
  ultimately show ?thesis using assms by (auto split: if_splits)
qed

lemma trailPush_wf:
  assumes "trailWf p"
  shows "trailWf (snd (trailPush g p x y))"
  using assms TRAIL_MAX_pos by (simp add: trailPush_def trailWf_def Let_def)

lemma trailPush_len:
  "trailLen (snd (trailPush g p x y)) = (if trailLen p < TRAIL_MAX then trailLen p + 1 else trailLen p)"
  by (simp add: trailPush_def Let_def)

lemma trailList_push_room:
  assumes "trailWf p" "trailLen p < TRAIL_MAX"
  shows "trailList (snd (trailPush g p x y)) = trailList p @ [stored (x, y)]"
proof -
  let ?q = "snd (trailPush g p x y)"
  let ?idx = "(trailStart p + trailLen p) mod TRAIL_MAX"
  have q: "?q = p\<lparr> trailX := (trailX p)[?idx := fround x], trailY := (trailY p)[?idx := fround y],
                    trailLen := trailLen p + 1 \<rparr>"
    using assms(2) by (simp add: trailPush_def Let_def)
  have w: "length (trailX p) = TRAIL_MAX" "length (trailY p) = TRAIL_MAX" "trailStart p < TRAIL_MAX"
    using assms(1) by (simp_all add: trailWf_def)
  have idx: "?idx < TRAIL_MAX" using w(3) assms(2) by (simp add: ring_slot_less)
  have old: "trailSample ?q i = trailSample p i" if "i < trailLen p" for i
  proof -
    have "(trailStart p + i) mod TRAIL_MAX \<noteq> ?idx"
      using ring_slot_inj [of "trailStart p" TRAIL_MAX i "trailLen p"] that assms(2) w(3) by auto
    then show ?thesis by (simp add: q trailSample_def trailGetIndex_def)
  qed
  have new: "trailSample ?q (trailLen p) = stored (x, y)"
    using idx w by (simp add: q trailSample_def trailGetIndex_def stored_def)
  have "trailList ?q = map (trailSample ?q) [0 ..< trailLen p] @ [trailSample ?q (trailLen p)]"
    by (simp add: trailList_def q)
  also have "map (trailSample ?q) [0 ..< trailLen p] = map (trailSample p) [0 ..< trailLen p]"
    using old by simp
  finally show ?thesis using new by (simp add: trailList_def)
qed

lemma trailList_push_full:
  assumes "trailWf p" "trailLen p = TRAIL_MAX"
  shows "trailList (snd (trailPush g p x y)) = tl (trailList p) @ [stored (x, y)]"
proof -
  let ?q = "snd (trailPush g p x y)"
  let ?s = "trailStart p"
  have q: "?q = p\<lparr> trailX := (trailX p)[?s := fround x], trailY := (trailY p)[?s := fround y],
                    trailStart := (?s + 1) mod TRAIL_MAX,
                    trailSentCount := (if 0 < trailSentCount p then trailSentCount p - 1
                                       else trailSentCount p) \<rparr>"
    using assms(2) by (simp add: trailPush_def Let_def)
  have w: "length (trailX p) = TRAIL_MAX" "length (trailY p) = TRAIL_MAX" "?s < TRAIL_MAX"
    using assms(1) by (simp_all add: trailWf_def)
  have slot: "((?s + 1) mod TRAIL_MAX + i) mod TRAIL_MAX = (?s + (i + 1)) mod TRAIL_MAX" for i
  proof -
    have "((?s + 1) mod TRAIL_MAX + i) mod TRAIL_MAX = ((?s + 1) + i) mod TRAIL_MAX"
      by (rule mod_add_left_eq)
    moreover have "(?s + 1) + i = ?s + (i + 1)" by simp
    ultimately show ?thesis by (simp only:)
  qed
  have old: "trailSample ?q i = trailSample p (i + 1)" if "i + 1 < TRAIL_MAX" for i
  proof -
    have "(?s + (i + 1)) mod TRAIL_MAX \<noteq> (?s + 0) mod TRAIL_MAX"
      using ring_slot_inj [of ?s TRAIL_MAX "i + 1" 0] that w(3) TRAIL_MAX_pos by auto
    then have "(?s + (i + 1)) mod TRAIL_MAX \<noteq> ?s" using w(3) by simp
    then show ?thesis using slot [of i] by (simp add: q trailSample_def trailGetIndex_def)
  qed
  have "(?s + TRAIL_MAX) mod TRAIL_MAX = ?s" using w(3) by simp
  then have "((?s + 1) mod TRAIL_MAX + (TRAIL_MAX - 1)) mod TRAIL_MAX = ?s"
    using slot [of "TRAIL_MAX - 1"] TRAIL_MAX_pos by simp
  then have new: "trailSample ?q (TRAIL_MAX - 1) = stored (x, y)"
    using w by (simp add: q trailSample_def trailGetIndex_def stored_def)
  have len: "trailLen ?q = TRAIL_MAX" using assms(2) by (simp add: q)
  show ?thesis
  proof (rule nth_equalityI)
    show "length (trailList ?q) = length (tl (trailList p) @ [stored (x, y)])"
      using len assms(2) TRAIL_MAX_pos by (simp add: trailList_def)
  next
    fix i assume "i < length (trailList ?q)"
    then have i: "i < TRAIL_MAX" using len by (simp add: trailList_def)
    show "trailList ?q ! i = (tl (trailList p) @ [stored (x, y)]) ! i"
    proof (cases "i + 1 < TRAIL_MAX")
      case True
      then have il: "i < length (tl (trailList p))"
        using assms(2) by (simp add: trailList_def)
      then have "(tl (trailList p) @ [stored (x, y)]) ! i = tl (trailList p) ! i"
        by (simp add: nth_append)
      also have "\<dots> = trailList p ! (i + 1)" using il by (simp add: nth_tl)
      also have "\<dots> = trailSample p (i + 1)" using True assms(2) by (simp add: trailList_def)
      finally show ?thesis using old [OF True] i len by (simp add: trailList_def)
    next
      case False
      then have e: "i = TRAIL_MAX - 1" using i by simp
      have "(tl (trailList p) @ [stored (x, y)]) ! i = stored (x, y)"
        using assms(2) e by (simp add: nth_append trailList_def)
      then show ?thesis using new e i len by (simp add: trailList_def)
    qed
  qed
qed

lemma trailList_length: "length (trailList p) = trailLen p"
  by (simp add: trailList_def)

lemma trailList_nth: "i < trailLen p \<Longrightarrow> trailList p ! i = trailSample p i"
  by (simp add: trailList_def)

lemma trailList_push:
  assumes "trailWf p"
  shows "trailList (snd (trailPush g p x y))
           = drop (length (trailList p @ [stored (x, y)]) - TRAIL_MAX) (trailList p @ [stored (x, y)])"
proof (cases "trailLen p < TRAIL_MAX")
  case True
  then show ?thesis using assms by (simp add: trailList_push_room trailList_length)
next
  case False
  then have f: "trailLen p = TRAIL_MAX" using assms by (simp add: trailWf_def)
  then have "trailList p \<noteq> []" using TRAIL_MAX_pos trailList_length [of p] by auto
  then have "drop 1 (trailList p @ [stored (x, y)]) = tl (trailList p) @ [stored (x, y)]"
    by (cases "trailList p") simp_all
  then show ?thesis using assms f by (simp add: trailList_push_full trailList_length)
qed

lemma keepLast_snoc:
  fixes m :: nat
  assumes "0 < m"
  shows "drop (length (drop (length l - m) l @ [s]) - m) (drop (length l - m) l @ [s])
           = drop (length (l @ [s]) - m) (l @ [s])"
proof (cases "length l \<le> m")
  case True
  then show ?thesis by simp
next
  case False
  then have "length (drop (length l - m) l) = m" by simp
  then have "drop (length (drop (length l - m) l @ [s]) - m) (drop (length l - m) l @ [s])
               = drop 1 (drop (length l - m) l @ [s])"
    by simp
  also have "\<dots> = drop (Suc (length l - m)) l @ [s]"
  proof -
    have "drop (length l - m) l \<noteq> []" using False assms by simp
    then have "drop 1 (drop (length l - m) l @ [s]) = drop 1 (drop (length l - m) l) @ [s]"
      by (cases "drop (length l - m) l") simp_all
    then show ?thesis by simp
  qed
  also have "\<dots> = drop (length (l @ [s]) - m) (l @ [s])"
    using False assms by (simp add: Suc_diff_le)
  finally show ?thesis .
qed

lemma pushAll_snoc:
  "pushAll g p (ss @ [s]) = trailPush (fst (pushAll g p ss)) (snd (pushAll g p ss)) (fst s) (snd s)"
  by (simp add: pushAll_def)

lemma pushAll_wf: "trailWf p \<Longrightarrow> trailWf (snd (pushAll g p ss))"
proof (induction ss rule: rev_induct)
  case Nil
  then show ?case by (simp add: pushAll_def)
next
  case (snoc s ss)
  then show ?case by (simp add: pushAll_snoc trailPush_wf)
qed

lemma pushAll_list:
  assumes "trailWf p"
  shows "trailList (snd (pushAll g p ss))
           = drop (length (trailList p @ map stored ss) - TRAIL_MAX) (trailList p @ map stored ss)"
proof (induction ss rule: rev_induct)
  case Nil
  have "length (trailList p) \<le> TRAIL_MAX" using assms by (simp add: trailList_length trailWf_def)
  then show ?case by (simp add: pushAll_def)
next
  case (snoc s ss)
  let ?q = "snd (pushAll g p ss)"
  have "trailList (snd (pushAll g p (ss @ [s])))
          = drop (length (trailList ?q @ [stored s]) - TRAIL_MAX) (trailList ?q @ [stored s])"
    using trailList_push [OF pushAll_wf [OF assms, of g ss], of "fst (pushAll g p ss)" "fst s" "snd s"]
    by (simp add: pushAll_snoc)
  also have "\<dots> = drop (length ((trailList p @ map stored ss) @ [stored s]) - TRAIL_MAX)
                         ((trailList p @ map stored ss) @ [stored s])"
    unfolding snoc.IH using TRAIL_MAX_pos by (rule keepLast_snoc)
  finally show ?case by simp
qed

lemma pushAll_beyond_capacity:
  assumes "trailWf p" "TRAIL_MAX \<le> length ss"
  shows "trailList (snd (pushAll g p ss)) = map stored (drop (length ss - TRAIL_MAX) ss)"
proof -
  have "length (trailList p @ map stored ss) - TRAIL_MAX
          = length (trailList p) + (length ss - TRAIL_MAX)"
    using assms(2) by simp
  then show ?thesis using pushAll_list [OF assms(1), of g ss] by (simp add: drop_map)
qed

lemma trailPush_inv: "trailInv p \<Longrightarrow> trailInv (snd (trailPush g p x y))"
  by (auto simp add: trailPush_def trailInv_def Let_def)

lemma map_drop_first: "n < length l \<Longrightarrow> map f (drop n l) ! 0 = f (l ! n)"
  by (simp add: nth_map [of 0 "drop n l" f])

lemma stored_error:
  assumes "\<bar>fst s\<bar> < 2048" "\<bar>snd s\<bar> < 2048"
  shows "\<bar>fst (stored s) - fst s\<bar> \<le> 1 / 16384 \<and> \<bar>snd (stored s) - snd s\<bar> \<le> 1 / 16384"
  using fround_error [of "fst s" 10] fround_error [of "snd s" 10] assms
  by (simp add: stored_def)

text \<open>
  C3 (as the code has it).  Take a trail store and push \<open>N\<close> samples, \<open>N\<close> above the
  capacity \<open>TRAIL_MAX\<close>.  After every prefix of the pushes the length is at most the
  capacity; after all of them the length is the capacity, the live samples are the last
  \<open>TRAIL_MAX\<close> pushed ones in order, each as the \<open>Float32Array\<close> buffers store it, and the
  oldest (logical index 0) is the stored form of the pushed sample number
  \<open>N - TRAIL_MAX\<close>, counting from 0.  The stored form of a sample is the sample itself when
  its coordinates are single-precision numbers, and is within \<open>2^-14\<close> of it on each axis
  when the coordinates are below 2048 in magnitude.  A push at full capacity writes the
  new sample, narrowed, over the slot of the oldest one, advances \<open>trailStart\<close> by 1
  modulo the capacity, drops the oldest sample from the live ones, and takes 1 from
  \<open>trailSentCount\<close>, not below 0.
\<close>

theorem trailPush_ring:
  assumes "trailWf p" and "TRAIL_MAX < length samples" and "k \<le> length samples"
  shows "trailLen (snd (pushAll g p (take k samples))) \<le> TRAIL_MAX
    \<and> trailLen (snd (pushAll g p samples)) = TRAIL_MAX
    \<and> trailSample (snd (pushAll g p samples)) 0 = stored (samples ! (length samples - TRAIL_MAX))
    \<and> trailList (snd (pushAll g p samples)) = map stored (drop (length samples - TRAIL_MAX) samples)
    \<and> ((\<forall>s \<in> set samples. fround (fst s) = fst s \<and> fround (snd s) = snd s) \<longrightarrow>
          trailSample (snd (pushAll g p samples)) 0 = samples ! (length samples - TRAIL_MAX)
        \<and> trailList (snd (pushAll g p samples)) = drop (length samples - TRAIL_MAX) samples)
    \<and> ((\<forall>s \<in> set samples. \<bar>fst s\<bar> < 2048 \<and> \<bar>snd s\<bar> < 2048) \<longrightarrow>
          \<bar>fst (trailSample (snd (pushAll g p samples)) 0)
              - fst (samples ! (length samples - TRAIL_MAX))\<bar> \<le> 1 / 16384
        \<and> \<bar>snd (trailSample (snd (pushAll g p samples)) 0)
              - snd (samples ! (length samples - TRAIL_MAX))\<bar> \<le> 1 / 16384)
    \<and> (trailLen p = TRAIL_MAX \<longrightarrow>
          trailX (snd (trailPush g p x y)) = (trailX p)[trailGetIndex p 0 := fround x]
        \<and> trailY (snd (trailPush g p x y)) = (trailY p)[trailGetIndex p 0 := fround y]
        \<and> trailStart (snd (trailPush g p x y)) = (trailStart p + 1) mod TRAIL_MAX
        \<and> trailLen (snd (trailPush g p x y)) = TRAIL_MAX
        \<and> trailList (snd (trailPush g p x y)) = tl (trailList p) @ [stored (x, y)]
        \<and> (0 \<le> trailSentCount p \<longrightarrow>
              trailSentCount (snd (trailPush g p x y)) = max 0 (trailSentCount p - 1)))"
proof -
  let ?r = "snd (pushAll g p samples)"
  let ?n = "length samples - TRAIL_MAX"
  have a: "trailLen (snd (pushAll g p (take k samples))) \<le> TRAIL_MAX"
    using pushAll_wf [OF assms(1), of g "take k samples"] by (simp add: trailWf_def)
  have l: "trailList ?r = map stored (drop ?n samples)"
    using pushAll_beyond_capacity [OF assms(1), of samples g] assms(2) by simp
  have "length (trailList ?r) = TRAIL_MAX" unfolding l using assms(2) by simp
  then have b: "trailLen ?r = TRAIL_MAX" by (simp add: trailList_length)
  have "trailSample ?r 0 = trailList ?r ! 0"
    using b TRAIL_MAX_pos by (simp add: trailList_nth)
  also have "\<dots> = stored (samples ! ?n)"
    unfolding l using assms(2) TRAIL_MAX_pos by (intro map_drop_first) simp
  finally have c: "trailSample ?r 0 = stored (samples ! ?n)" .
  have "?n < length samples" using assms(2) TRAIL_MAX_pos by simp
  then have mem: "samples ! ?n \<in> set samples" by (rule nth_mem)
  have e: "trailSample ?r 0 = samples ! ?n \<and> trailList ?r = drop ?n samples"
    if h: "\<forall>s \<in> set samples. fround (fst s) = fst s \<and> fround (snd s) = snd s"
  proof -
    have id: "stored s = s" if "s \<in> set samples" for s
      using h that by (simp add: stored_def)
    have "\<forall>s \<in> set (drop ?n samples). stored s = s"
      using id in_set_dropD by fast
    then have "map stored (drop ?n samples) = drop ?n samples"
      by (simp add: map_idI)
    then show ?thesis using c l id [OF mem] by simp
  qed
  have f: "\<bar>fst (trailSample ?r 0) - fst (samples ! ?n)\<bar> \<le> 1 / 16384
        \<and> \<bar>snd (trailSample ?r 0) - snd (samples ! ?n)\<bar> \<le> 1 / 16384"
    if h: "\<forall>s \<in> set samples. \<bar>fst s\<bar> < 2048 \<and> \<bar>snd s\<bar> < 2048"
    unfolding c using h mem by (intro stored_error) blast+
  have d: "trailLen p = TRAIL_MAX \<longrightarrow>
          trailX (snd (trailPush g p x y)) = (trailX p)[trailGetIndex p 0 := fround x]
        \<and> trailY (snd (trailPush g p x y)) = (trailY p)[trailGetIndex p 0 := fround y]
        \<and> trailStart (snd (trailPush g p x y)) = (trailStart p + 1) mod TRAIL_MAX
        \<and> trailLen (snd (trailPush g p x y)) = TRAIL_MAX
        \<and> trailList (snd (trailPush g p x y)) = tl (trailList p) @ [stored (x, y)]
        \<and> (0 \<le> trailSentCount p \<longrightarrow>
              trailSentCount (snd (trailPush g p x y)) = max 0 (trailSentCount p - 1))"
  proof
    assume f: "trailLen p = TRAIL_MAX"
    have s: "trailGetIndex p 0 = trailStart p"
      using assms(1) by (simp add: trailGetIndex_def trailWf_def)
    have "trailList (snd (trailPush g p x y)) = tl (trailList p) @ [stored (x, y)]"
      using assms(1) f by (rule trailList_push_full)
    then show "trailX (snd (trailPush g p x y)) = (trailX p)[trailGetIndex p 0 := fround x]
        \<and> trailY (snd (trailPush g p x y)) = (trailY p)[trailGetIndex p 0 := fround y]
        \<and> trailStart (snd (trailPush g p x y)) = (trailStart p + 1) mod TRAIL_MAX
        \<and> trailLen (snd (trailPush g p x y)) = TRAIL_MAX
        \<and> trailList (snd (trailPush g p x y)) = tl (trailList p) @ [stored (x, y)]
        \<and> (0 \<le> trailSentCount p \<longrightarrow>
              trailSentCount (snd (trailPush g p x y)) = max 0 (trailSentCount p - 1))"
      using f s by (simp add: trailPush_def)
  qed
  show ?thesis using a b c l d e f by blast
qed

lemma samples601_single:
  "\<forall>s \<in> set samples601. fround (fst s) = fst s \<and> fround (snd s) = snd s"
proof
  fix s assume "s \<in> set samples601"
  then obtain i where i: "i < 601" "s = (real i, 5)" by (auto simp add: samples601_def)
  have "fround (real i) = real i" using i(1) by (intro fround_nat) simp
  moreover have "fround 5 = 5" using fround_int [of 5] by simp
  ultimately show "fround (fst s) = fst s \<and> fround (snd s) = snd s" using i(2) by simp
qed

theorem trailPush_ring_witness:
  "trailLen (snd (pushAll initialGrid fullTrail (take 300 samples601))) \<le> TRAIL_MAX
   \<and> trailLen (snd (pushAll initialGrid fullTrail samples601)) = TRAIL_MAX
   \<and> trailSample (snd (pushAll initialGrid fullTrail samples601)) 0 = (1, 5)
   \<and> trailSample (snd (pushAll initialGrid fullTrail samples601)) 0 = stored (1, 5)
   \<and> \<bar>fst (trailSample (snd (pushAll initialGrid fullTrail samples601)) 0) - 1\<bar> \<le> 1 / 16384
   \<and> trailStart (snd (trailPush initialGrid fullTrail 9 5)) = 8
   \<and> trailSentCount (snd (trailPush initialGrid fullTrail 9 5)) = 2"
proof -
  have w: "trailWf fullTrail"
    by (simp add: trailWf_def fullTrail_def createPlayer_def TRAIL_MAX_def)
  have n: "TRAIL_MAX < length samples601" "300 \<le> length samples601"
    by (simp_all add: samples601_def TRAIL_MAX_def)
  have f: "trailLen fullTrail = TRAIL_MAX" "0 \<le> trailSentCount fullTrail"
    "trailStart fullTrail = 7" "trailSentCount fullTrail = 3"
    by (simp_all add: fullTrail_def)
  have s: "samples601 ! (length samples601 - TRAIL_MAX) = (1, 5)"
    by (simp add: samples601_def TRAIL_MAX_def)
  have m: "(7 + 1) mod TRAIL_MAX = 8" by (simp add: TRAIL_MAX_def)
  have r: "\<forall>s \<in> set samples601. \<bar>fst s\<bar> < 2048 \<and> \<bar>snd s\<bar> < 2048"
    by (auto simp add: samples601_def)
  note t = trailPush_ring [OF w n, of initialGrid 9 5]
  have c1: "trailLen (snd (pushAll initialGrid fullTrail (take 300 samples601))) \<le> TRAIL_MAX"
    "trailLen (snd (pushAll initialGrid fullTrail samples601)) = TRAIL_MAX"
    using t by blast+
  have c2: "trailSample (snd (pushAll initialGrid fullTrail samples601)) 0 = stored (1, 5)"
    using t s by simp
  have "trailSample (snd (pushAll initialGrid fullTrail samples601)) 0
          = samples601 ! (length samples601 - TRAIL_MAX)"
    using t samples601_single by blast
  then have c3: "trailSample (snd (pushAll initialGrid fullTrail samples601)) 0 = (1, 5)"
    by (simp only: s)
  have "\<bar>fst (trailSample (snd (pushAll initialGrid fullTrail samples601)) 0)
              - fst (samples601 ! (length samples601 - TRAIL_MAX))\<bar> \<le> 1 / 16384"
    using t r by blast
  then have c4: "\<bar>fst (trailSample (snd (pushAll initialGrid fullTrail samples601)) 0) - 1\<bar> \<le> 1 / 16384"
    by (simp add: s)
  have c5: "trailStart (snd (trailPush initialGrid fullTrail 9 5)) = 8"
    "trailSentCount (snd (trailPush initialGrid fullTrail 9 5)) = 2"
    using t f m by simp_all
  show ?thesis using c1 c2 c3 c4 c5 by blast
qed

lemma fround_tenth: "fround (1 / 10) = 13421773 / 134217728"
proof -
  have "fround (1 / 10)
          = real_of_int (roundTiesToEven ((1 / 10) / 2 powi (- 4 - int 23))) * 2 powi (- 4 - int 23)"
    unfolding fround_def by (rule roundToFormat_eval) (simp_all add: power_int_minus)
  moreover have "(1 / 10 :: real) / 2 powi (- 4 - int 23) = 67108864 / 5"
    by (simp add: power_int_minus)
  moreover have "roundTiesToEven (67108864 / 5) = 13421773"
  proof -
    have "\<lfloor>67108864 / 5 :: real\<rfloor> = 13421772" by (simp add: floor_eq_iff)
    then show ?thesis by (simp add: roundTiesToEven_def)
  qed
  ultimately show ?thesis by (simp add: power_int_minus)
qed

text \<open>
  C3 as stated fails for a sample that is not a single-precision number.  Push the 601
  samples \<open>(0, 5), (0.1, 5), ..., (60, 5)\<close> into the empty store of a new competitor.  The
  oldest surviving sample should be the pushed sample number 1, \<open>(0.1, 5)\<close>; the store
  holds \<open>(13421773 / 2^27, 5)\<close>, the single-precision number nearest to 0.1.
\<close>

theorem trailPush_narrowing_counterexample:
  "TRAIL_MAX < length tenths601
   \<and> tenths601 ! (length tenths601 - TRAIL_MAX) = (1 / 10, 5)
   \<and> trailSample (snd (pushAll initialGrid (createPlayer ''4821'' 0 (JSString ''Ann'')) tenths601)) 0
       = (13421773 / 134217728, 5)
   \<and> trailSample (snd (pushAll initialGrid (createPlayer ''4821'' 0 (JSString ''Ann'')) tenths601)) 0
       \<noteq> tenths601 ! (length tenths601 - TRAIL_MAX)"
proof -
  let ?p = "createPlayer ''4821'' 0 (JSString ''Ann'')"
  let ?r = "snd (pushAll initialGrid ?p tenths601)"
  have w: "trailWf ?p" by (simp add: trailWf_def createPlayer_def TRAIL_MAX_def)
  have n: "TRAIL_MAX < length tenths601" "TRAIL_MAX \<le> length tenths601"
    by (simp_all add: tenths601_def TRAIL_MAX_def)
  have s: "tenths601 ! (length tenths601 - TRAIL_MAX) = (1 / 10, 5)"
    by (simp add: tenths601_def TRAIL_MAX_def)
  have l: "trailList ?r = map stored (drop (length tenths601 - TRAIL_MAX) tenths601)"
    using w n(2) by (rule pushAll_beyond_capacity)
  then have "length (trailList ?r) = TRAIL_MAX" using n by simp
  then have "trailLen ?r = TRAIL_MAX" by (simp add: trailList_length)
  then have "trailSample ?r 0 = trailList ?r ! 0"
    using TRAIL_MAX_pos by (simp add: trailList_nth)
  also have "\<dots> = stored (tenths601 ! (length tenths601 - TRAIL_MAX))"
    unfolding l using n TRAIL_MAX_pos by (intro map_drop_first) simp
  also have "\<dots> = (13421773 / 134217728, 5)"
    using fround_tenth fround_int [of 5] by (simp add: s stored_def)
  finally have c: "trailSample ?r 0 = (13421773 / 134217728, 5)" .
  show ?thesis using n(1) s c by simp
qed

section \<open>The invariant of the trail counters\<close>

lemma startRoundLoop_inv: "q \<in> set (startRoundLoop i ps) \<Longrightarrow> trailInv q"
proof (induction ps arbitrary: i)
  case Nil
  then show ?case by simp
next
  case (Cons p ps)
  then show ?case
    by (auto simp add: trailInv_def resetTrail_def split_beta split: if_splits)
qed

lemma startRound_inv: "q \<in> set (snd (startRound g ps)) \<Longrightarrow> trailInv q"
  using startRoundLoop_inv [of q 0 ps] by (simp add: startRound_def Let_def)

lemma serializeGameState_inv:
  assumes "\<forall>q \<in> set ps. trailLen q \<le> TRAIL_MAX"
    and "q \<in> set (fst (snd (serializeGameState now sent ps ra cd rst mw)))"
  shows "trailInv q"
  using assms by (auto simp add: serializeGameState_players trailInv_def)

lemma applyTrailPoint_counters:
  assumes "trailLen p \<le> TRAIL_MAX"
  shows "trailLen (applyTrailPoint p pt) = min TRAIL_MAX (trailLen p + 1)"
    and "trailSentCount (applyTrailPoint p pt) = trailSentCount p"
  using assms by (simp_all add: applyTrailPoint_def Let_def)

lemma applyTrail_counters:
  "trailLen p \<le> TRAIL_MAX \<Longrightarrow>
     trailLen (foldl applyTrailPoint p tr) = min TRAIL_MAX (trailLen p + length tr)
     \<and> trailSentCount (foldl applyTrailPoint p tr) = trailSentCount p"
proof (induction tr arbitrary: p)
  case Nil
  then show ?case by simp
next
  case (Cons pt tr)
  have l: "trailLen (applyTrailPoint p pt) \<le> TRAIL_MAX"
    using Cons.prems by (simp add: applyTrailPoint_counters)
  show ?case
    using Cons.IH [OF l] Cons.prems by (simp add: applyTrailPoint_counters)
qed

lemma applyPlayerState_counters:
  "trailLen (applyPlayerState p w) =
     (if w_tl w = Some 0 then 0
      else case w_tr w of
             None \<Rightarrow> trailLen p
           | Some tr \<Rightarrow> if 0 < length tr then trailLen (foldl applyTrailPoint p tr) else trailLen p)"
  "trailSentCount (applyPlayerState p w) =
     (if w_tl w = Some 0 then 0
      else case w_tr w of
             None \<Rightarrow> trailSentCount p
           | Some tr \<Rightarrow> if 0 < length tr then (case w_tc w of Some tc \<Rightarrow> tc | None \<Rightarrow> 0)
                        else trailSentCount p)"
  by (simp_all add: applyPlayerState_def Let_def resetTrail_def split: option.splits)

lemma applyPlayerState_len:
  assumes "trailLen p \<le> TRAIL_MAX"
  shows "trailLen (applyPlayerState p w) \<le> TRAIL_MAX"
  using assms applyTrail_counters [OF assms]
  by (simp add: applyPlayerState_counters split: option.splits)

lemma applyPlayerState_inv_iff:
  assumes "trailLen p \<le> TRAIL_MAX" "w_tr w = Some tr" "tr \<noteq> []" "w_tc w = Some tc"
    "w_tl w \<noteq> Some 0"
  shows "trailInv (applyPlayerState p w)
           \<longleftrightarrow> 0 \<le> tc \<and> tc \<le> int (min TRAIL_MAX (trailLen p + length tr))"
  using assms applyTrail_counters [OF assms(1), of tr]
  by (simp add: applyPlayerState_counters trailInv_def)

lemma applyPlayerState_inv_nodelta:
  assumes "trailInv p" "w_tr w = None \<or> w_tr w = Some []"
  shows "trailInv (applyPlayerState p w)"
  using assms by (auto simp add: applyPlayerState_counters trailInv_def)

lemma newMirrorPlayer_len: "trailLen (newMirrorPlayer i w) = 0"
  by (simp add: newMirrorPlayer_def createPlayer_def)

lemma set_insertKey: "set (insertKey ps p) = insert p (set ps)"
  by (induction ps) auto

lemma applyOne_len:
  assumes "\<forall>q \<in> set ps. trailLen q \<le> TRAIL_MAX"
  shows "\<forall>q \<in> set (applyOne ps e). trailLen q \<le> TRAIL_MAX"
  using assms
  by (auto simp add: applyOne_def applyPlayerState_len newMirrorPlayer_len set_insertKey
      split: option.splits)

lemma applyGameState_len:
  assumes "\<forall>q \<in> set ps. trailLen q \<le> TRAIL_MAX"
  shows "\<forall>q \<in> set (applyGameState ps state). trailLen q \<le> TRAIL_MAX"
proof -
  have "\<forall>q \<in> set (foldl applyOne ps es). trailLen q \<le> TRAIL_MAX" for es
    using assms
  proof (induction es arbitrary: ps)
    case Nil
    then show ?case by simp
  next
    case (Cons e es)
    show ?case using Cons.IH [OF applyOne_len [OF Cons.prems]] by simp
  qed
  then show ?thesis by (simp add: applyGameState_def)
qed

text \<open>
  C7 (as the code has it).  The invariant \<open>0 \<le> trailSentCount \<le> trailLen \<le> TRAIL_MAX\<close>
  is kept by \<open>trailPush\<close>, established by the trail reset of \<open>startRound\<close> for every
  competitor, and established by \<open>serializeGameState\<close> for every competitor whose trail
  length is within the capacity.  \<open>applyGameState\<close> keeps every trail length within the
  capacity.  For one competitor it keeps the invariant when the update carries no
  samples, and establishes it when the update reports a trail length of 0; when the
  update carries samples it copies the sender's counter \<open>tc\<close>, and the invariant holds
  afterwards exactly when \<open>0 \<le> tc \<le> min TRAIL_MAX (trailLen + number of samples)\<close>.
\<close>

theorem trail_invariant:
  "(trailInv p \<longrightarrow> trailInv (snd (trailPush g p x y)))
   \<and> (\<forall>q \<in> set (snd (startRound g ps)). trailInv q)
   \<and> ((\<forall>q \<in> set ps. trailLen q \<le> TRAIL_MAX) \<longrightarrow>
         (\<forall>q \<in> set (fst (snd (serializeGameState now sent ps ra cd rst mw))). trailInv q))
   \<and> ((\<forall>q \<in> set ps. trailLen q \<le> TRAIL_MAX) \<longrightarrow>
         (\<forall>q \<in> set (applyGameState ps state). trailLen q \<le> TRAIL_MAX))
   \<and> (trailInv p \<and> (w_tr w = None \<or> w_tr w = Some []) \<longrightarrow> trailInv (applyPlayerState p w))
   \<and> (w_tl w = Some 0 \<longrightarrow> trailInv (applyPlayerState p w))
   \<and> (trailLen p \<le> TRAIL_MAX \<and> w_tr w = Some tr \<and> tr \<noteq> [] \<and> w_tc w = Some tc
        \<and> w_tl w \<noteq> Some 0 \<longrightarrow>
         (trailInv (applyPlayerState p w)
            \<longleftrightarrow> 0 \<le> tc \<and> tc \<le> int (min TRAIL_MAX (trailLen p + length tr))))"
proof -
  have a: "trailInv p \<longrightarrow> trailInv (snd (trailPush g p x y))"
    by (simp add: trailPush_inv)
  have b: "\<forall>q \<in> set (snd (startRound g ps)). trailInv q"
    using startRound_inv by blast
  have c: "(\<forall>q \<in> set ps. trailLen q \<le> TRAIL_MAX) \<longrightarrow>
         (\<forall>q \<in> set (fst (snd (serializeGameState now sent ps ra cd rst mw))). trailInv q)"
    using serializeGameState_inv by blast
  have d: "(\<forall>q \<in> set ps. trailLen q \<le> TRAIL_MAX) \<longrightarrow>
         (\<forall>q \<in> set (applyGameState ps state). trailLen q \<le> TRAIL_MAX)"
    using applyGameState_len by blast
  have e: "trailInv p \<and> (w_tr w = None \<or> w_tr w = Some []) \<longrightarrow> trailInv (applyPlayerState p w)"
    using applyPlayerState_inv_nodelta by blast
  have f: "w_tl w = Some 0 \<longrightarrow> trailInv (applyPlayerState p w)"
    by (simp add: applyPlayerState_counters trailInv_def)
  have h: "trailLen p \<le> TRAIL_MAX \<and> w_tr w = Some tr \<and> tr \<noteq> [] \<and> w_tc w = Some tc
        \<and> w_tl w \<noteq> Some 0 \<longrightarrow>
         (trailInv (applyPlayerState p w)
            \<longleftrightarrow> 0 \<le> tc \<and> tc \<le> int (min TRAIL_MAX (trailLen p + length tr)))"
    using applyPlayerState_inv_iff by blast
  show ?thesis using a b c d e f h by blast
qed

theorem trail_invariant_witness:
  "trailInv (snd (trailPush initialGrid fullTrail 9 5))
   \<and> list_all trailInv (snd (startRound initialGrid eliminatedFirst))
   \<and> list_all trailInv
        (fst (snd (serializeGameState 1700000000083 False [fullTrail] True 0 None None)))
   \<and> list_all (\<lambda>q. trailLen q \<le> TRAIL_MAX) (applyGameState [fullTrail] lateJoinState)
   \<and> trailInv (applyPlayerState fullTrail (oneSample\<lparr> w_tr := None \<rparr>))
   \<and> trailInv (applyPlayerState fullTrail (oneSample\<lparr> w_tl := Some 0 \<rparr>))
   \<and> trailInv (applyPlayerState (createPlayer ''4821'' 0 (JSString ''Ann'')) oneSample)"
proof -
  have i: "trailInv fullTrail" "\<forall>q \<in> set [fullTrail]. trailLen q \<le> TRAIL_MAX"
    by (simp_all add: trailInv_def fullTrail_def TRAIL_MAX_def)
  have o: "trailLen (createPlayer ''4821'' 0 (JSString ''Ann'')) \<le> TRAIL_MAX"
    "w_tr oneSample = Some [(2525, 2000)]" "w_tc oneSample = Some 1" "w_tl oneSample \<noteq> Some 0"
    "w_tr (oneSample\<lparr> w_tr := None \<rparr>) = None" "w_tl (oneSample\<lparr> w_tl := Some 0 \<rparr>) = Some 0"
    "(1::int) \<le> int (min TRAIL_MAX (trailLen (createPlayer ''4821'' 0 (JSString ''Ann''))
                                       + length [(2525 :: int, 2000 :: int)]))"
    by (simp_all add: oneSample_def createPlayer_def TRAIL_MAX_def)
  note t1 = trail_invariant [of fullTrail initialGrid 9 5 eliminatedFirst 1700000000083 False
        True 0 None None lateJoinState "oneSample\<lparr> w_tr := None \<rparr>" "[]" 0]
  note t2 = trail_invariant [of fullTrail initialGrid 9 5 "[fullTrail]" 1700000000083 False
        True 0 None None lateJoinState "oneSample\<lparr> w_tl := Some 0 \<rparr>" "[]" 0]
  note t3 = trail_invariant [of "createPlayer ''4821'' 0 (JSString ''Ann'')" initialGrid 9 5
        "[fullTrail]" 1700000000083 False True 0 None None lateJoinState oneSample
        "[(2525, 2000)]" 1]
  have c1: "trailInv (snd (trailPush initialGrid fullTrail 9 5))"
    using t1 i(1) by blast
  have "\<forall>q \<in> set (snd (startRound initialGrid eliminatedFirst)). trailInv q"
    using t1 by blast
  then have c2: "list_all trailInv (snd (startRound initialGrid eliminatedFirst))"
    by (simp only: list_all_iff)
  have "\<forall>q \<in> set (fst (snd (serializeGameState 1700000000083 False [fullTrail] True 0 None None))).
          trailInv q"
    using t2 i(2) by blast
  then have c3: "list_all trailInv
        (fst (snd (serializeGameState 1700000000083 False [fullTrail] True 0 None None)))"
    by (simp only: list_all_iff)
  have "\<forall>q \<in> set (applyGameState [fullTrail] lateJoinState). trailLen q \<le> TRAIL_MAX"
    using t2 i(2) by blast
  then have c4: "list_all (\<lambda>q. trailLen q \<le> TRAIL_MAX) (applyGameState [fullTrail] lateJoinState)"
    by (simp only: list_all_iff)
  have c5: "trailInv (applyPlayerState fullTrail (oneSample\<lparr> w_tr := None \<rparr>))"
    using t1 i(1) o(5) by blast
  have c6: "trailInv (applyPlayerState fullTrail (oneSample\<lparr> w_tl := Some 0 \<rparr>))"
    using t2 o(6) by blast
  have c7: "trailInv (applyPlayerState (createPlayer ''4821'' 0 (JSString ''Ann'')) oneSample)"
    using t3 o(1,2,3,4,7) by simp
  show ?thesis using c1 c2 c3 c4 c5 c6 c7 by blast
qed

lemma lateJoinState_players:
  "w_p lateJoinState =
     [(''4821'', \<lparr> w_x = Some 2625, w_y = Some 2000, w_a = Some 0, w_tu = Some 0, w_tl = Some 5,
        w_ts = Some 0, w_tc = Some 5, w_al = Some True, w_s = Some 0, w_l = Some 6,
        w_tr = Some [(2625, 2000)], w_id = Some ''4821'', w_n = Some ''Ann'',
        w_c = Some ''#ff8c00'', w_si = Some 0 \<rparr>)]"
proof -
  have m: "(4::nat) < TRAIL_MAX" "js_rem 4 (int TRAIL_MAX) = 4" "4 < int TRAIL_MAX"
    by (simp_all add: TRAIL_MAX_def js_rem_def)
  have f: "fl 2625 = 2625" "fl (5251 / 2) = 5251 / 2" "fl 2000 = 2000" "fl (4001 / 2) = 4001 / 2"
    "fl 0 = 0" "fl (1 / 2) = 1 / 2"
    using fl_int [of 2625] fl_dyadic [of 5251 1] fl_int [of 2000] fl_dyadic [of 4001 1]
      fl_int [of 0] fl_dyadic [of 1 1]
    by simp_all
  have e: "encodeSample (Some (525 / 2)) = 2625" "encodeSample (Some 200) = 2000"
    by (simp_all add: encodeSample_def f toInt32_def)
  have g: "arr_get (trailX lateJoinHost) 4 = Some (525 / 2)"
    "arr_get (trailY lateJoinHost) 4 = Some 200"
    by (simp_all add: lateJoinHost_def createPlayer_def arr_get_def TRAIL_MAX_def)
  have c: "trailLen lateJoinHost = 5" "trailSentCount lateJoinHost = 4" "trailStart lateJoinHost = 0"
    by (simp_all add: lateJoinHost_def createPlayer_def)
  have d: "trailDelta lateJoinHost = Some [(2625, 2000)]"
    using m by (simp add: trailDelta_def c Let_def g e toInt16_def TRAIL_BUFFER_SIZE_def)
  have x: "toInt32 (fl (fl (px lateJoinHost * 10) + 0.5)) = 2625"
    "toInt32 (fl (fl (py lateJoinHost * 10) + 0.5)) = 2000"
    "toInt32 (fl (fl (angle lateJoinHost * 1000) + 0.5)) = 0"
    by (simp_all add: lateJoinHost_def f toInt32_def)
  show ?thesis
    using d x
    by (simp add: lateJoinState_def serializeGameState_def serializePlayer_def Let_def)
      (simp add: lateJoinHost_def createPlayer_def trim_def isWhiteSpace_def COLORS_def
        MAX_LIVES_def)
qed

text \<open>
  C7 as stated fails for \<open>applyGameState\<close>.  A peer joins five ticks into a round, after
  the host has broadcast four samples of its trail.  The snapshot it receives carries the
  one sample not yet sent and the host's counter 5; the fresh mirror ends with one sample
  and a sent count of 5.
\<close>

theorem mirror_sentCount_counterexample:
  "trailInv lateJoinHost
   \<and> trailLen (applyGameState [] lateJoinState ! 0) = 1
   \<and> trailSentCount (applyGameState [] lateJoinState ! 0) = 5
   \<and> \<not> trailInv (applyGameState [] lateJoinState ! 0)"
proof -
  have a: "trailInv lateJoinHost"
    by (simp add: trailInv_def lateJoinHost_def TRAIL_MAX_def)
  have m: "applyGameState [] lateJoinState =
             [applyPlayerState (newMirrorPlayer ''4821'' (snd (hd (w_p lateJoinState))))
                (snd (hd (w_p lateJoinState)))]"
    by (simp add: applyGameState_def applyOne_def lateJoinState_players)
  have b: "trailLen (applyGameState [] lateJoinState ! 0) = 1"
    unfolding m
    using applyTrail_counters [of "newMirrorPlayer ''4821'' (snd (hd (w_p lateJoinState)))"
        "[(2625, 2000)]"]
    by (simp add: lateJoinState_players applyPlayerState_counters newMirrorPlayer_len
        TRAIL_MAX_def)
  have c: "trailSentCount (applyGameState [] lateJoinState ! 0) = 5"
    unfolding m by (simp add: lateJoinState_players applyPlayerState_counters)
  show ?thesis using a b c by (simp add: trailInv_def)
qed

section \<open>Round trip through the state codec\<close>
























section \<open>The end of a round\<close>

lemma roundEnd_effect:
  "roundActive (roundEnd now s) = False"
  "physicsInterval (roundEnd now s) = False"
  "isHost (roundEnd now s) = isHost s"
  "gameStarted (roundEnd now s) = gameStarted s"
  "tickCounter (roundEnd now s) = tickCounter s"
  "matchWinner (roundEnd now s) =
     (if length (filter (\<lambda>p. 0 < lives p) (players s)) = 1 then lastWithLivesId (players s)
      else matchWinner s)"
  "timers (roundEnd now s) =
     (if physicsInterval s then filter (\<lambda>t. t \<noteq> Interval PhysicsTick PHYSICS_INTERVAL) (timers s)
      else timers s)
     @ (if length (filter (\<lambda>p. 0 < lives p) (players s)) \<le> 1 then []
        else [Timeout AutoRestart 3000])"
  by (simp_all add: roundEnd_def Let_def broadcastState_frame broadcastPlayerList_frame
      stopPhysicsLoop_def resetStaticSent_def)

lemma loseLives_length: "length w = length ps \<Longrightarrow> length (loseLives w ps) = length ps"
  by (simp add: loseLives_def)

lemma afterCollisions_alive:
  "map alive (afterCollisions now s)
     = map alive (snd (tickCollide (getGameSpeed now (roundStartTime s)) (gameGrid s) (players s)))"
  by (simp add: afterCollisions_def loseLives_alive tickCollide_length)

lemma physicsTick_round_end:
  assumes "isHost s" "roundActive s" "length (filter alive (afterCollisions now s)) \<le> 1"
  shows "roundActive (physicsTick now s) = False"
    and "physicsInterval (physicsTick now s) = False"
    and "matchWinner (physicsTick now s) =
           (if length (filter (\<lambda>p. 0 < lives p) (afterCollisions now s)) = 1
            then lastWithLivesId (afterCollisions now s) else matchWinner s)"
    and "timers (physicsTick now s) =
     (if physicsInterval s then filter (\<lambda>t. t \<noteq> Interval PhysicsTick PHYSICS_INTERVAL) (timers s)
      else timers s)
     @ (if length (filter (\<lambda>p. 0 < lives p) (afterCollisions now s)) \<le> 1 then []
        else [Timeout AutoRestart 3000])"
  using assms
  by (simp_all add: physicsTick_def Let_def split_beta afterCollisions_def [symmetric]
      roundEnd_effect broadcastState_frame)

lemma autoRestart_effect:
  assumes "gameStarted s" "isHost s"
  shows "countdown (autoRestart now s) = 3"
    and "timers (autoRestart now s) = timers s @ [Interval CountdownStep 1000]"
  using assms
  by (simp_all add: autoRestart_def runCountdown_def broadcastState_frame resetStaticSent_def)

lemma trailPush_identity:
  "pid (snd (trailPush g p x y)) = pid p \<and> lives (snd (trailPush g p x y)) = lives p"
  by (simp add: trailPush_def Let_def)

lemma movePlayer_identity:
  "pid (snd (movePlayer g p v)) = pid p \<and> lives (snd (movePlayer g p v)) = lives p"
  by (simp add: movePlayer_def Let_def split_beta trailPush_identity)

lemma tickCollide_nth:
  assumes "i < length ps"
  shows "pid (snd (tickCollide v g ps) ! i) = pid (ps ! i)"
    and "lives (snd (tickCollide v g ps) ! i) = lives (ps ! i)"
    and "alive (snd (tickCollide v g ps) ! i) \<longrightarrow>
           alive (ps ! i)
           \<and> \<not> outOfBounds (px (ps ! i) + cos (angle (ps ! i) + turning (ps ! i) * TURN_SPEED) * v)
                            (py (ps ! i) + sin (angle (ps ! i) + turning (ps ! i) * TURN_SPEED) * v)"
proof -
  let ?moved = "snd (moveAlive v g ps)"
  have m: "?moved ! i = (if alive (ps ! i) then snd (movePlayer g (ps ! i) v) else ps ! i)"
    using assms by (simp add: moveAlive_players [of v g ps g])
  have len: "i < length ?moved" using assms by (simp add: moveAlive_length)
  have c: "snd (tickCollide v g ps) = snd (checkCollisions (fst (moveAlive v g ps)) ?moved)"
    by (simp add: tickCollide_def split_beta)
  have n: "snd (checkCollisions h ?moved) ! i =
             (if alive (?moved ! i) \<and> playerHit
                   (if gridDirty h \<or> spatialBitfield h = None then rebuildSpatialGrid h ?moved else h)
                   (?moved ! i) (int (1 + i))
              then (?moved ! i)\<lparr> alive := False \<rparr> else ?moved ! i)" for h
    using len by (simp add: checkCollisions_def Let_def nth_enumerate_eq)
  show "pid (snd (tickCollide v g ps) ! i) = pid (ps ! i)"
    by (simp add: c n m movePlayer_identity)
  show "lives (snd (tickCollide v g ps) ! i) = lives (ps ! i)"
    by (simp add: c n m movePlayer_identity)
  show "alive (snd (tickCollide v g ps) ! i) \<longrightarrow>
           alive (ps ! i)
           \<and> \<not> outOfBounds (px (ps ! i) + cos (angle (ps ! i) + turning (ps ! i) * TURN_SPEED) * v)
                            (py (ps ! i) + sin (angle (ps ! i) + turning (ps ! i) * TURN_SPEED) * v)"
    by (simp add: c n m movePlayer_alive)
qed

lemma afterCollisions_length: "length (afterCollisions now s) = length (players s)"
  by (simp add: afterCollisions_def loseLives_length tickCollide_length)

lemma afterCollisions_nth:
  assumes "i < length (players s)"
  shows "pid (afterCollisions now s ! i) = pid (players s ! i)"
    and "lives (afterCollisions now s ! i) =
           (if alive (players s ! i) \<and> \<not> alive (afterCollisions now s ! i)
            then max 0 (lives (players s ! i) - 1) else lives (players s ! i))"
    and "alive (afterCollisions now s ! i) \<longrightarrow>
           alive (players s ! i)
           \<and> \<not> outOfBounds
                 (px (players s ! i) + cos (angle (players s ! i) + turning (players s ! i) * TURN_SPEED)
                                          * getGameSpeed now (roundStartTime s))
                 (py (players s ! i) + sin (angle (players s ! i) + turning (players s ! i) * TURN_SPEED)
                                          * getGameSpeed now (roundStartTime s))"
proof -
  let ?v = "getGameSpeed now (roundStartTime s)"
  let ?t = "snd (tickCollide ?v (gameGrid s) (players s))"
  have len: "i < length ?t" using assms by (simp add: tickCollide_length)
  have n: "afterCollisions now s ! i =
             (if alive (players s ! i) \<and> \<not> alive (?t ! i)
              then (?t ! i)\<lparr> lives := max 0 (lives (?t ! i) - 1) \<rparr> else ?t ! i)"
    using assms len by (simp add: afterCollisions_def loseLives_def)
  show "pid (afterCollisions now s ! i) = pid (players s ! i)"
    using tickCollide_nth(1) [OF assms, of ?v "gameGrid s"] by (simp add: n)
  show "lives (afterCollisions now s ! i) =
           (if alive (players s ! i) \<and> \<not> alive (afterCollisions now s ! i)
            then max 0 (lives (players s ! i) - 1) else lives (players s ! i))"
    using tickCollide_nth(2) [OF assms, of ?v "gameGrid s"] by (simp add: n)
  show "alive (afterCollisions now s ! i) \<longrightarrow>
           alive (players s ! i)
           \<and> \<not> outOfBounds
                 (px (players s ! i) + cos (angle (players s ! i) + turning (players s ! i) * TURN_SPEED) * ?v)
                 (py (players s ! i) + sin (angle (players s ! i) + turning (players s ! i) * TURN_SPEED) * ?v)"
    using tickCollide_nth(3) [OF assms, of ?v "gameGrid s"] by (simp add: n)
qed

lemma lastWithLivesId_single:
  "map pid (filter (\<lambda>p. 0 < lives p) ps) = [w] \<Longrightarrow> lastWithLivesId ps = Some w"
  by (cases "filter (\<lambda>p. 0 < lives p) ps") (simp_all add: lastWithLivesId_def)

lemma filter_by_fields:
  "map pid (filter (\<lambda>p. 0 < lives p) xs)
     = map fst (filter (\<lambda>e. 0 < snd e) (zip (map pid xs) (map lives xs)))"
  by (induction xs) simp_all

lemma filter_alive_by_field:
  "length (filter alive xs) = length (filter id (map alive xs))"
  by (induction xs) simp_all

lemma list3: "length xs = 3 \<Longrightarrow> xs = [xs ! 0, xs ! 1, xs ! 2]"
proof -
  assume l: "length xs = 3"
  then obtain a b c where "xs = [a, b, c]"
    by (metis (no_types, opaque_lifting) length_0_conv length_Suc_conv numeral_3_eq_3)
  then show ?thesis by simp
qed

lemma wall_round_after:
  assumes "length (players s) = 3" "roundStartTime s = Some 1700000000000"
    and "alive (players s ! 0)" "px (players s ! 0) = 1399" "py (players s ! 0) = 450"
    and "angle (players s ! 0) = 0" "turning (players s ! 0) = 0"
    and "\<not> alive (players s ! 1)" "\<not> alive (players s ! 2)"
  shows "map alive (afterCollisions 1700000000016 s) = [False, False, False]"
    and "map lives (afterCollisions 1700000000016 s)
           = [max 0 (lives (players s ! 0) - 1), lives (players s ! 1), lives (players s ! 2)]"
    and "map pid (afterCollisions 1700000000016 s)
           = [pid (players s ! 0), pid (players s ! 1), pid (players s ! 2)]"
proof -
  let ?ac = "afterCollisions 1700000000016 s"
  have v: "getGameSpeed 1700000000016 (roundStartTime s) = 2.5"
    by (simp add: assms(2) getGameSpeed_def toInt32_def SPEED_INTERVAL_def BASE_SPEED_def
        MAX_SPEED_def)
  have len: "length ?ac = 3" using assms(1) by (simp add: afterCollisions_length)
  have i: "(0::nat) < length (players s)" "(1::nat) < length (players s)"
    "(2::nat) < length (players s)"
    using assms(1) by simp_all
  have a0: "\<not> alive (?ac ! 0)"
    using afterCollisions_nth(3) [OF i(1), of 1700000000016] v assms(4,5,6,7)
    by (simp add: outOfBounds_def CANVAS_W_def)
  have a1: "\<not> alive (?ac ! 1)"
    using afterCollisions_nth(3) [OF i(2), of 1700000000016] assms(8) by blast
  have a2: "\<not> alive (?ac ! 2)"
    using afterCollisions_nth(3) [OF i(3), of 1700000000016] assms(9) by blast
  have e: "?ac = [?ac ! 0, ?ac ! 1, ?ac ! 2]" using len by (rule list3)
  have "map alive ?ac = [alive (?ac ! 0), alive (?ac ! 1), alive (?ac ! 2)]"
    by (subst e) simp
  then show "map alive ?ac = [False, False, False]" using a0 a1 a2 by simp
  have "map lives ?ac = [lives (?ac ! 0), lives (?ac ! 1), lives (?ac ! 2)]"
    by (subst e) simp
  then show "map lives ?ac
           = [max 0 (lives (players s ! 0) - 1), lives (players s ! 1), lives (players s ! 2)]"
    using afterCollisions_nth(2) [OF i(1), of 1700000000016]
      afterCollisions_nth(2) [OF i(2), of 1700000000016]
      afterCollisions_nth(2) [OF i(3), of 1700000000016] a0 a1 a2 assms(3,8,9)
    by simp
  have "map pid ?ac = [pid (?ac ! 0), pid (?ac ! 1), pid (?ac ! 2)]"
    by (subst e) simp
  then show "map pid ?ac = [pid (players s ! 0), pid (players s ! 1), pid (players s ! 2)]"
    using afterCollisions_nth(1) [OF i(1), of 1700000000016]
      afterCollisions_nth(1) [OF i(2), of 1700000000016]
      afterCollisions_nth(1) [OF i(3), of 1700000000016]
    by simp
qed

lemma physicsTick_frame:
  "isHost (physicsTick now s) = isHost s" "gameStarted (physicsTick now s) = gameStarted s"
  by (simp_all add: physicsTick_def Let_def split_beta roundEnd_effect broadcastState_frame
      stopPhysicsLoop_frame)

text \<open>
  C2.  In a tick of the host during an active round, let the competitors after movement,
  collision detection and the loss of lives count at most one that is alive.  Then the
  round is no longer active and the physics timer is cleared.  If exactly one competitor
  has lives left, \<open>matchWinner\<close> is its id and no restart is scheduled; if none has,
  \<open>matchWinner\<close> is left as it was (\<open>null\<close> since the round started) and no restart is
  scheduled; if more than one has, \<open>matchWinner\<close> is left as it was and a timeout of 3000 ms
  is registered.  The callback of that timeout, on a host whose match has started, sets
  the countdown to 3 and registers the one-second countdown interval.
\<close>

theorem round_end_transitions:
  assumes "isHost s" and "roundActive s"
    and "length (filter alive (afterCollisions now s)) \<le> 1"
  shows "\<not> roundActive (physicsTick now s)
    \<and> \<not> physicsInterval (physicsTick now s)
    \<and> (physicsInterval s \<longrightarrow>
          Interval PhysicsTick PHYSICS_INTERVAL \<notin> set (timers (physicsTick now s)))
    \<and> (map pid (filter (\<lambda>p. 0 < lives p) (afterCollisions now s)) = [w] \<longrightarrow>
          matchWinner (physicsTick now s) = Some w
        \<and> (Timeout AutoRestart 3000 \<notin> set (timers s) \<longrightarrow>
             Timeout AutoRestart 3000 \<notin> set (timers (physicsTick now s))))
    \<and> (filter (\<lambda>p. 0 < lives p) (afterCollisions now s) = [] \<longrightarrow>
          matchWinner (physicsTick now s) = matchWinner s
        \<and> (Timeout AutoRestart 3000 \<notin> set (timers s) \<longrightarrow>
             Timeout AutoRestart 3000 \<notin> set (timers (physicsTick now s))))
    \<and> (1 < length (filter (\<lambda>p. 0 < lives p) (afterCollisions now s)) \<longrightarrow>
          matchWinner (physicsTick now s) = matchWinner s
        \<and> Timeout AutoRestart 3000 \<in> set (timers (physicsTick now s)))
    \<and> (isHost u \<and> gameStarted u \<longrightarrow>
          countdown (autoRestart later u) = 3
        \<and> Interval CountdownStep 1000 \<in> set (timers (autoRestart later u)))"
proof -
  note e = physicsTick_round_end [OF assms]
  let ?n = "length (filter (\<lambda>p. 0 < lives p) (afterCollisions now s))"
  have a: "\<not> roundActive (physicsTick now s)" "\<not> physicsInterval (physicsTick now s)"
    using e(1,2) by simp_all
  have b: "physicsInterval s \<longrightarrow>
          Interval PhysicsTick PHYSICS_INTERVAL \<notin> set (timers (physicsTick now s))"
    by (simp add: e(4))
  have c: "map pid (filter (\<lambda>p. 0 < lives p) (afterCollisions now s)) = [w] \<longrightarrow>
          matchWinner (physicsTick now s) = Some w
        \<and> (Timeout AutoRestart 3000 \<notin> set (timers s) \<longrightarrow>
             Timeout AutoRestart 3000 \<notin> set (timers (physicsTick now s)))"
  proof
    assume h: "map pid (filter (\<lambda>p. 0 < lives p) (afterCollisions now s)) = [w]"
    then have "length (map pid (filter (\<lambda>p. 0 < lives p) (afterCollisions now s))) = 1" by simp
    then have n: "?n = 1" by simp
    show "matchWinner (physicsTick now s) = Some w
        \<and> (Timeout AutoRestart 3000 \<notin> set (timers s) \<longrightarrow>
             Timeout AutoRestart 3000 \<notin> set (timers (physicsTick now s)))"
      using n lastWithLivesId_single [OF h] by (simp add: e(3,4))
  qed
  have d: "filter (\<lambda>p. 0 < lives p) (afterCollisions now s) = [] \<longrightarrow>
          matchWinner (physicsTick now s) = matchWinner s
        \<and> (Timeout AutoRestart 3000 \<notin> set (timers s) \<longrightarrow>
             Timeout AutoRestart 3000 \<notin> set (timers (physicsTick now s)))"
    by (simp add: e(3,4))
  have f: "1 < ?n \<longrightarrow>
          matchWinner (physicsTick now s) = matchWinner s
        \<and> Timeout AutoRestart 3000 \<in> set (timers (physicsTick now s))"
    by (simp add: e(3,4))
  have g: "isHost u \<and> gameStarted u \<longrightarrow>
          countdown (autoRestart later u) = 3
        \<and> Interval CountdownStep 1000 \<in> set (timers (autoRestart later u))"
    using autoRestart_effect [of u later] by simp
  show ?thesis using a b c d f g by blast
qed

theorem round_end_transitions_witness:
  "\<not> roundActive (physicsTick 1700000000016 lastRound)
   \<and> \<not> physicsInterval (physicsTick 1700000000016 lastRound)
   \<and> Interval PhysicsTick PHYSICS_INTERVAL \<notin> set (timers (physicsTick 1700000000016 lastRound))
   \<and> matchWinner (physicsTick 1700000000016 lastRound) = Some ''peer-b''
   \<and> Timeout AutoRestart 3000 \<notin> set (timers (physicsTick 1700000000016 lastRound))
   \<and> matchWinner (physicsTick 1700000000016 drawRound) = None
   \<and> Timeout AutoRestart 3000 \<in> set (timers (physicsTick 1700000000016 openRound))
   \<and> countdown (autoRestart 1700000003016 (physicsTick 1700000000016 openRound)) = 3
   \<and> Interval CountdownStep 1000
        \<in> set (timers (autoRestart 1700000003016 (physicsTick 1700000000016 openRound)))"
proof -
  let ?T = "1700000000016 :: int"
  let ?u = "physicsTick ?T openRound"
  have hl: "isHost lastRound" "roundActive lastRound" "physicsInterval lastRound"
    "matchWinner lastRound = None" "Timeout AutoRestart 3000 \<notin> set (timers lastRound)"
    by (simp_all add: lastRound_def midMatch_def)
  have hd: "isHost drawRound" "roundActive drawRound" "matchWinner drawRound = None"
    by (simp_all add: drawRound_def midMatch_def)
  have ho: "isHost openRound" "roundActive openRound" "gameStarted openRound"
    by (simp_all add: openRound_def midMatch_def)
  have al: "map alive (afterCollisions ?T lastRound) = [False, False, False]"
    and ll: "map lives (afterCollisions ?T lastRound) = [0, 3, 0]"
    and pl: "map pid (afterCollisions ?T lastRound) = [''4821'', ''peer-b'', ''peer-c'']"
    using wall_round_after [of lastRound]
    by (simp_all add: lastRound_def midMatch_def createPlayer_def)
  have ad: "map alive (afterCollisions ?T drawRound) = [False, False, False]"
    and ld: "map lives (afterCollisions ?T drawRound) = [0, 0, 0]"
    and pd: "map pid (afterCollisions ?T drawRound) = [''4821'', ''peer-b'', ''peer-c'']"
    using wall_round_after [of drawRound]
    by (simp_all add: drawRound_def midMatch_def createPlayer_def)
  have ao: "map alive (afterCollisions ?T openRound) = [False, False, False]"
    and lo: "map lives (afterCollisions ?T openRound) = [1, 3, 0]"
    and po: "map pid (afterCollisions ?T openRound) = [''4821'', ''peer-b'', ''peer-c'']"
    using wall_round_after [of openRound]
    by (simp_all add: openRound_def midMatch_def createPlayer_def)
  have cl: "length (filter alive (afterCollisions ?T lastRound)) \<le> 1"
    by (simp add: filter_alive_by_field al)
  have cd: "length (filter alive (afterCollisions ?T drawRound)) \<le> 1"
    by (simp add: filter_alive_by_field ad)
  have co: "length (filter alive (afterCollisions ?T openRound)) \<le> 1"
    by (simp add: filter_alive_by_field ao)
  have wl: "map pid (filter (\<lambda>p. 0 < lives p) (afterCollisions ?T lastRound)) = [''peer-b'']"
    by (simp add: filter_by_fields ll pl)
  have "map pid (filter (\<lambda>p. 0 < lives p) (afterCollisions ?T drawRound)) = []"
    by (simp add: filter_by_fields ld pd)
  then have wd: "filter (\<lambda>p. 0 < lives p) (afterCollisions ?T drawRound) = []" by simp
  have "map pid (filter (\<lambda>p. 0 < lives p) (afterCollisions ?T openRound)) = [''4821'', ''peer-b'']"
    by (simp add: filter_by_fields lo po)
  then have "length (map pid (filter (\<lambda>p. 0 < lives p) (afterCollisions ?T openRound))) = 2"
    by simp
  then have wo: "1 < length (filter (\<lambda>p. 0 < lives p) (afterCollisions ?T openRound))" by simp
  have hu: "isHost ?u" "gameStarted ?u" using ho by (simp_all add: physicsTick_frame)
  note t1 = round_end_transitions [OF hl(1,2) cl, of "''peer-b''" ?u 1700000003016]
  note t2 = round_end_transitions [OF hd(1,2) cd, of "''peer-b''" ?u 1700000003016]
  note t3 = round_end_transitions [OF ho(1,2) co, of "''peer-b''" ?u 1700000003016]
  have c1: "\<not> roundActive (physicsTick ?T lastRound)" using t1 by blast
  have c2: "\<not> physicsInterval (physicsTick ?T lastRound)" using t1 by blast
  have c3: "Interval PhysicsTick PHYSICS_INTERVAL \<notin> set (timers (physicsTick ?T lastRound))"
    using t1 hl(3) by blast
  have c4: "matchWinner (physicsTick ?T lastRound) = Some ''peer-b''" using t1 wl by blast
  have c5: "Timeout AutoRestart 3000 \<notin> set (timers (physicsTick ?T lastRound))"
    using t1 wl hl(5) by blast
  have "matchWinner (physicsTick ?T drawRound) = matchWinner drawRound" using t2 wd by blast
  then have c6: "matchWinner (physicsTick ?T drawRound) = None" using hd(3) by simp
  have c7: "Timeout AutoRestart 3000 \<in> set (timers (physicsTick ?T openRound))"
    using t3 wo by blast
  have c8: "countdown (autoRestart 1700000003016 ?u) = 3" using t3 hu by blast
  have c9: "Interval CountdownStep 1000 \<in> set (timers (autoRestart 1700000003016 ?u))"
    using t3 hu by blast
  show ?thesis using c1 c2 c3 c4 c5 c6 c7 c8 c9 by blast
qed

section \<open>Collision detection and the grace windows\<close>

lemma grid_consts: "GRID_COLS = 88" "GRID_ROWS = 57" "GRID_TOTAL = 5016"
proof -
  have c: "\<lceil>1400 / 16 :: real\<rceil> = 88" by (simp add: ceiling_eq_iff)
  have r: "\<lceil>900 / 16 :: real\<rceil> = 57" by (simp add: ceiling_eq_iff)
  show gc: "GRID_COLS = 88" using c by (simp add: GRID_COLS_def CANVAS_W_def GRID_CELL_SIZE_def)
  show gr: "GRID_ROWS = 57" using r by (simp add: GRID_ROWS_def CANVAS_H_def GRID_CELL_SIZE_def)
  show "GRID_TOTAL = 5016" by (simp add: GRID_TOTAL_def gc gr)
qed

lemma cells:
  "getCellIndex 95 100 = 533" "getCellIndex (195 / 2) 100 = 534" "getCellIndex 100 100 = 534"
  "getCellIndex 102 95 = 446" "getCellIndex 102 (195 / 2) = 534" "getCellIndex 102 100 = 534"
  by (simp_all add: getCellIndex_def toInt32_def GRID_CELL_SIZE_def grid_consts Let_def)

lemma head_fields:
  "alive annHead" "alive bobHead" "pid annHead = ''4821''" "pid bobHead = ''peer-b''"
  "px annHead = 100" "py annHead = 100" "px bobHead = 102" "py bobHead = 100"
  "trailLen annHead = 3" "trailLen bobHead = 3"
  by (simp_all add: annHead_def bobHead_def createPlayer_def)

lemma head_samples:
  "trailSample annHead 0 = (95, 100)" "trailSample annHead (Suc 0) = (195 / 2, 100)"
  "trailSample annHead 2 = (100, 100)"
  "trailSample bobHead 0 = (102, 95)" "trailSample bobHead (Suc 0) = (102, 195 / 2)"
  "trailSample bobHead 2 = (102, 100)"
  by (simp_all add: annHead_def bobHead_def createPlayer_def trailSample_def trailGetIndex_def
      TRAIL_MAX_def)

lemma upt3: "[0 ..< 3] = [0, Suc 0, 2]"
  by (simp add: upt_rec)

lemma rebuildPoint_sample:
  "rebuildPoint p k i g =
     (if 0 \<le> getCellIndex (fst (trailSample p i)) (snd (trailSample p i))
      then markCell g (getCellIndex (fst (trailSample p i)) (snd (trailSample p i)))
             (fst (trailSample p i)) (snd (trailSample p i)) (int k) (int i)
      else g)"
  by (simp add: rebuildPoint_def trailSample_def trailGetIndex_def Let_def)

lemma markCell_value:
  assumes "spatialBitfield g = Some bf" "0 \<le> c" "c < 5016" "length bf = 5016"
    "length (gridPoints g) < 4800" "0 \<le> k" "k < 256" "0 \<le> i" "i < 65536"
  shows "markCell g c x y k i =
           g\<lparr> spatialBitfield := Some (bf[nat c := k]),
              gridPoints := gridPoints g @ [(fround x, fround y, k, i)] \<rparr>"
  using assms
  by (simp add: markCell_def Let_def arr_set_def toUint8_def toUint16_def MAX_GRID_ENTRIES_def
      TRAIL_MAX_def)

lemma head_fround:
  "fround 95 = 95" "fround (195 / 2) = 195 / 2" "fround 100 = 100" "fround 102 = 102"
  using fround_int [of 95] fround_dyadic [of 195 1] fround_int [of 100] fround_int [of 102]
  by simp_all

lemma headOn_rebuild: "rebuildSpatialGrid initialGrid headOn = headOnGrid"
proof -
  have e: "enumerate 1 headOn = [(1, annHead), (2, bobHead)]"
    by (simp add: headOn_def)
  show ?thesis
    unfolding rebuildSpatialGrid_def e
    by (simp add: Let_def head_fields upt3 rebuildPoint_sample head_samples cells
        markCell_value head_fround initialGrid_def clearBitfield_def createBitfield_def
        grid_consts headOnGrid_def)
qed

lemma nbh: "neighbourhood = [(- 1, - 1), (- 1, 0), (- 1, 1), (0, - 1), (0, 0), (0, 1), (1, - 1), (1, 0), (1, 1)]"
  by (simp add: neighbourhood_def)

lemma head_rows:
  "toInt32 (py annHead / GRID_CELL_SIZE) = 6" "toInt32 (px annHead / GRID_CELL_SIZE) = 6"
  "toInt32 (py bobHead / GRID_CELL_SIZE) = 6" "toInt32 (px bobHead / GRID_CELL_SIZE) = 6"
  by (simp_all add: head_fields toInt32_def GRID_CELL_SIZE_def)

lemma ann_scan_534:
  "scanPoints annHead 1 534 (gridPoints headOnGrid) = True"
  by (simp add: headOnGrid_def cells skipPoint_def hitTest_def head_fields COLLISION_SKIP_OWN_def
      COLLISION_RADIUS_def COLLISION_RADIUS_SQ_def Let_def)

lemma bob_scan_534:
  "scanPoints bobHead 2 534 (gridPoints headOnGrid) = True"
  by (simp add: headOnGrid_def cells skipPoint_def hitTest_def head_fields COLLISION_SKIP_OWN_def
      COLLISION_RADIUS_def COLLISION_RADIUS_SQ_def Let_def)

lemma scan_other_cells:
  "c \<noteq> 534 \<Longrightarrow> c \<noteq> 533 \<Longrightarrow> c \<noteq> 446 \<Longrightarrow> scanPoints p k c (gridPoints headOnGrid) = False"
  by (simp add: headOnGrid_def cells)

lemma ann_scan_446: "scanPoints annHead 1 446 (gridPoints headOnGrid) = False"
  by (simp add: headOnGrid_def cells skipPoint_def hitTest_def head_fields COLLISION_SKIP_OWN_def
      COLLISION_RADIUS_def COLLISION_RADIUS_SQ_def Let_def)

lemma ann_scan_533: "scanPoints annHead 1 533 (gridPoints headOnGrid) = False"
  by (simp add: headOnGrid_def cells skipPoint_def hitTest_def head_fields COLLISION_SKIP_OWN_def
      COLLISION_RADIUS_def COLLISION_RADIUS_SQ_def Let_def)

lemma bob_scan_446: "scanPoints bobHead 2 446 (gridPoints headOnGrid) = False"
  by (simp add: headOnGrid_def cells skipPoint_def hitTest_def head_fields COLLISION_SKIP_OWN_def
      COLLISION_RADIUS_def COLLISION_RADIUS_SQ_def Let_def)

lemma bob_scan_533: "scanPoints bobHead 2 533 (gridPoints headOnGrid) = False"
  by (simp add: headOnGrid_def cells skipPoint_def hitTest_def head_fields COLLISION_SKIP_OWN_def
      COLLISION_RADIUS_def COLLISION_RADIUS_SQ_def Let_def)

lemma headOn_cell_534:
  "(case spatialBitfield headOnGrid of None \<Rightarrow> False | Some bf \<Rightarrow> arr_get bf 534 = Some 0) = False"
  by (simp add: headOnGrid_def arr_get_def)

lemma headOn_hits: "playerHit headOnGrid annHead 1" "playerHit headOnGrid bobHead 2"
  by (simp_all add: playerHit_def head_rows nbh grid_consts Let_def ann_scan_534 bob_scan_534
      ann_scan_446 ann_scan_533 bob_scan_446 bob_scan_533 scan_other_cells headOn_cell_534)

lemma headOn_collide:
  "snd (checkCollisions initialGrid headOn) = [annHead\<lparr> alive := False \<rparr>, bobHead\<lparr> alive := False \<rparr>]"
proof -
  have e: "enumerate 1 headOn = [(1, annHead), (2, bobHead)]"
    by (simp add: headOn_def)
  have d: "gridDirty initialGrid" by (simp add: initialGrid_def)
  show ?thesis
    unfolding checkCollisions_def e
    using d headOn_hits by (simp add: Let_def headOn_rebuild head_fields)
qed

lemma rebuildPoint_list_sample:
  "rebuildPoint_list p i g =
     (if 0 \<le> getCellIndex (fst (trailSample p i)) (snd (trailSample p i))
      then cellPush g (getCellIndex (fst (trailSample p i)) (snd (trailSample p i)))
             (pid p, trailGetIndex p i, i)
      else g)"
  by (simp add: rebuildPoint_list_def trailSample_def trailGetIndex_def Let_def)

lemma head_slots:
  "trailGetIndex annHead 0 = 0" "trailGetIndex annHead (Suc 0) = 1" "trailGetIndex annHead 2 = 2"
  "trailGetIndex bobHead 0 = 0" "trailGetIndex bobHead (Suc 0) = 1" "trailGetIndex bobHead 2 = 2"
  by (simp_all add: trailGetIndex_def annHead_def bobHead_def createPlayer_def TRAIL_MAX_def)

lemma cellPush_value:
  assumes "spatialGrid g = Some cells" "0 \<le> c" "nat c < length cells"
  shows "cellPush g c e = g\<lparr> spatialGrid := Some (cells[nat c := cells ! nat c @ [e]]) \<rparr>"
  using assms by (simp add: cellPush_def arr_get_def arr_set_def)

lemma headOn_rebuild_list:
  "rebuildSpatialGrid_list initialListGrid headOn
     = \<lparr> spatialGrid = Some headOnCells, listGridDirty = False \<rparr>"
proof -
  let ?g0 = "\<lparr> spatialGrid = Some (replicate 5016 []), listGridDirty = True \<rparr>"
  let ?c1 = "(replicate 5016 [])[533 := [(''4821'', 0, 0)]]"
  let ?c2 = "?c1[534 := [(''4821'', 1, 1)]]"
  let ?c3 = "?c2[534 := [(''4821'', 1, 1), (''4821'', 2, 2)]]"
  let ?c4 = "?c3[446 := [(''peer-b'', 0, 0)]]"
  let ?c5 = "?c4[534 := [(''4821'', 1, 1), (''4821'', 2, 2), (''peer-b'', 1, 1)]]"
  have p1: "rebuildPoint_list annHead 0 ?g0 = ?g0\<lparr> spatialGrid := Some ?c1 \<rparr>"
    by (simp add: rebuildPoint_list_sample head_samples head_slots cells head_fields
        cellPush_value [of _ "replicate 5016 []"])
  have p2: "rebuildPoint_list annHead (Suc 0) (?g0\<lparr> spatialGrid := Some ?c1 \<rparr>)
              = ?g0\<lparr> spatialGrid := Some ?c2 \<rparr>"
    by (simp add: rebuildPoint_list_sample head_samples head_slots cells head_fields
        cellPush_value [of _ ?c1])
  have p3: "rebuildPoint_list annHead 2 (?g0\<lparr> spatialGrid := Some ?c2 \<rparr>)
              = ?g0\<lparr> spatialGrid := Some ?c3 \<rparr>"
    by (simp add: rebuildPoint_list_sample head_samples head_slots cells head_fields
        cellPush_value [of _ ?c2])
  have p4: "rebuildPoint_list bobHead 0 (?g0\<lparr> spatialGrid := Some ?c3 \<rparr>)
              = ?g0\<lparr> spatialGrid := Some ?c4 \<rparr>"
    by (simp add: rebuildPoint_list_sample head_samples head_slots cells head_fields
        cellPush_value [of _ ?c3])
  have p5: "rebuildPoint_list bobHead (Suc 0) (?g0\<lparr> spatialGrid := Some ?c4 \<rparr>)
              = ?g0\<lparr> spatialGrid := Some ?c5 \<rparr>"
    by (simp add: rebuildPoint_list_sample head_samples head_slots cells head_fields
        cellPush_value [of _ ?c4])
  have p6: "rebuildPoint_list bobHead 2 (?g0\<lparr> spatialGrid := Some ?c5 \<rparr>)
              = ?g0\<lparr> spatialGrid := Some headOnCells \<rparr>"
    by (simp add: rebuildPoint_list_sample head_samples head_slots cells head_fields
        cellPush_value [of _ ?c5] headOnCells_def)
  have g0: "initialListGrid\<lparr> spatialGrid := Some (clearGrid createGrid) \<rparr> = ?g0"
    by (simp add: initialListGrid_def clearGrid_def createGrid_def grid_consts)
  show ?thesis
    unfolding rebuildSpatialGrid_list_def headOn_def
    by (simp add: Let_def head_fields upt3 initialListGrid_def [THEN arg_cong, of spatialGrid]
        g0 [simplified] p1 [simplified] p2 [simplified] p3 [simplified] p4 [simplified]
        p5 [simplified] p6 [simplified])
qed

lemma headOnCells_at:
  "arr_get headOnCells 534
     = Some [(''4821'', 1, 1), (''4821'', 2, 2), (''peer-b'', 1, 1), (''peer-b'', 2, 2)]"
  "arr_get headOnCells 533 = Some [(''4821'', 0, 0)]"
  "arr_get headOnCells 446 = Some [(''peer-b'', 0, 0)]"
  "arr_get headOnCells 445 = Some []" "arr_get headOnCells 447 = Some []"
  "arr_get headOnCells 535 = Some []" "arr_get headOnCells 621 = Some []"
  "arr_get headOnCells 622 = Some []" "arr_get headOnCells 623 = Some []"
  by (simp_all add: headOnCells_def arr_get_def)

lemma head_lookup:
  "lookupPlayer headOn ''4821'' = Some annHead" "lookupPlayer headOn ''peer-b'' = Some bobHead"
  by (simp_all add: lookupPlayer_def headOn_def head_fields)

lemma head_reads:
  "trailX annHead ! 0 = 95" "trailY annHead ! 0 = 100"
  "trailX bobHead ! 0 = 102" "trailY bobHead ! 0 = 95"
  by (simp_all add: annHead_def bobHead_def createPlayer_def)

lemma head_skips:
  "skipEntry headOn annHead (''4821'', k, i)" "skipEntry headOn bobHead (''peer-b'', k, i)"
  "skipEntry headOn annHead (''peer-b'', k, Suc 0)" "skipEntry headOn annHead (''peer-b'', k, 2)"
  "skipEntry headOn bobHead (''4821'', k, Suc 0)" "skipEntry headOn bobHead (''4821'', k, 2)"
  "\<not> skipEntry headOn annHead (''peer-b'', k, 0)" "\<not> skipEntry headOn bobHead (''4821'', k, 0)"
  by (simp_all add: skipEntry_def head_lookup head_fields COLLISION_SKIP_OWN_def)

lemma head_far:
  "\<not> hitTest (px annHead) (py annHead) (trailX bobHead ! 0) (trailY bobHead ! 0)"
  "\<not> hitTest (px bobHead) (py bobHead) (trailX annHead ! 0) (trailY annHead ! 0)"
  by (simp_all add: hitTest_def head_fields head_reads COLLISION_RADIUS_def)

lemma headOn_no_hits:
  "\<not> playerHit_list \<lparr> spatialGrid = Some headOnCells, listGridDirty = False \<rparr> headOn annHead"
  "\<not> playerHit_list \<lparr> spatialGrid = Some headOnCells, listGridDirty = False \<rparr> headOn bobHead"
  by (simp_all add: playerHit_list_def head_rows nbh grid_consts Let_def headOnCells_at
      head_skips head_far head_lookup)

lemma headOn_collide_list:
  "snd (checkCollisions_list initialListGrid headOn) = headOn"
proof -
  have d: "listGridDirty initialListGrid" by (simp add: initialListGrid_def)
  have a: "map pid (filter alive headOn) = [''4821'', ''peer-b'']"
    by (simp add: headOn_def head_fields)
  show ?thesis
    unfolding checkCollisions_list_def a
    using d headOn_no_hits by (simp add: Let_def headOn_rebuild_list head_lookup)
qed

lemma scanPoints_iff:
  "scanPoints p k c pts \<longleftrightarrow>
     (\<exists>pt \<in> set pts. getCellIndex (fst pt) (fst (snd pt)) = c \<and> \<not> skipPoint p k pt
                      \<and> hitTest (px p) (py p) (fst pt) (fst (snd pt)))"
  by (induction pts) (auto split: prod.splits)

lemma skipPoint_other:
  "owner \<noteq> k \<Longrightarrow> skipPoint p k (x, y, owner, trailPos) \<longleftrightarrow> 598 \<le> trailPos"
  by (simp add: skipPoint_def)

lemma scanEntries_iff:
  "scanEntries ps p es \<longleftrightarrow>
     (\<exists>e \<in> set es. \<not> skipEntry ps p e
        \<and> (\<exists>owner. lookupPlayer ps (fst e) = Some owner
              \<and> hitTest (px p) (py p) (trailX owner ! fst (snd e)) (trailY owner ! fst (snd e))))"
  by (induction es) (auto split: prod.splits option.splits)

lemma skipEntry_follows_claim:
  "skipEntry ps p (owner, slot, trailPos) \<longleftrightarrow> claimedSkip ps p owner trailPos"
  by (auto simp add: skipEntry_def claimedSkip_def split: option.splits)

lemma scanCells_list_iff:
  "scanCells_list g ps p row col ds \<longleftrightarrow>
     (\<exists>d \<in> set ds. 0 \<le> row + fst d \<and> row + fst d < GRID_ROWS
        \<and> 0 \<le> col + snd d \<and> col + snd d < GRID_COLS
        \<and> scanEntries ps p
             (case spatialGrid g of
                None \<Rightarrow> []
              | Some cells \<Rightarrow>
                  (case arr_get cells ((row + fst d) * GRID_COLS + (col + snd d)) of
                     None \<Rightarrow> [] | Some c \<Rightarrow> c)))"
  by (induction ds) (auto simp add: Let_def)

lemma hitTest_iff:
  "hitTest x y tx ty \<longleftrightarrow>
     \<bar>x - tx\<bar> \<le> COLLISION_RADIUS \<and> \<bar>y - ty\<bar> \<le> COLLISION_RADIUS
     \<and> (x - tx) * (x - tx) + (y - ty) * (y - ty) < COLLISION_RADIUS_SQ"
  by (auto simp add: hitTest_def Let_def)

lemma playerHit_list_follows_claim:
  "playerHit_list g ps p \<longleftrightarrow>
     (\<exists>d \<in> set neighbourhood.
        0 \<le> toInt32 (py p / GRID_CELL_SIZE) + fst d
        \<and> toInt32 (py p / GRID_CELL_SIZE) + fst d < GRID_ROWS
        \<and> 0 \<le> toInt32 (px p / GRID_CELL_SIZE) + snd d
        \<and> toInt32 (px p / GRID_CELL_SIZE) + snd d < GRID_COLS
        \<and> (\<exists>e \<in> set (case spatialGrid g of
                         None \<Rightarrow> []
                       | Some cells \<Rightarrow>
                           (case arr_get cells
                                   ((toInt32 (py p / GRID_CELL_SIZE) + fst d) * GRID_COLS
                                    + (toInt32 (px p / GRID_CELL_SIZE) + snd d)) of
                              None \<Rightarrow> [] | Some c \<Rightarrow> c)).
              \<not> claimedSkip ps p (fst e) (snd (snd e))
              \<and> (\<exists>owner. lookupPlayer ps (fst e) = Some owner
                    \<and> hitTest (px p) (py p) (trailX owner ! fst (snd e))
                          (trailY owner ! fst (snd e)))))"
proof -
  have s: "skipEntry ps p e \<longleftrightarrow> claimedSkip ps p (fst e) (snd (snd e))" for e
    using skipEntry_follows_claim [of ps p "fst e" "fst (snd e)" "snd (snd e)"] by simp
  show ?thesis
    unfolding playerHit_list_def scanCells_list_iff scanEntries_iff s ..
qed

lemma collideLoop_step:
  assumes "lookupPlayer ps i = Some p"
  shows "collideLoop g (i # is) ps =
           collideLoop g is
             (if playerHit_list g ps p
              then map (\<lambda>q. if pid q = i then q\<lparr> alive := False \<rparr> else q) ps else ps)"
  using assms by simp

text \<open>
  C1 on the two variants.  In the variant with a list per cell, a sample is skipped exactly
  when the claim says so (\<open>skipEntry_follows_claim\<close>), and a competitor is hit exactly when
  a sample of its 3 by 3 neighbourhood that is not skipped passes the bounding-box test
  and the distance test (\<open>playerHit_list_follows_claim\<close>).  In \<open>game.js\<close> a sample of
  another competitor is skipped exactly when its trail position is 598 or more
  (\<open>skipPoint_other\<close>), whatever the length of that trail and whether its owner is alive.
  The two heads of \<open>headOn\<close> are 2 units apart and both trails hold three samples: every
  sample near a head is among the last two of its owner's trail, which the claim skips.
  \<open>game.js\<close> tests them and marks both competitors not alive; the other variant leaves
  both alive.
\<close>

theorem checkCollisions_head_on:
  "alive annHead \<and> alive bobHead
   \<and> trailLen annHead = 3 \<and> trailLen bobHead = 3
   \<and> claimedSkip headOn annHead ''peer-b'' 1
   \<and> claimedSkip headOn annHead ''peer-b'' 2
   \<and> claimedSkip headOn bobHead ''4821'' 1
   \<and> claimedSkip headOn bobHead ''4821'' 2
   \<and> \<not> skipPoint annHead 1 (102, 97.5, 2, 1)
   \<and> \<not> skipPoint bobHead 2 (100, 100, 1, 2)
   \<and> snd (checkCollisions initialGrid headOn)
       = [annHead\<lparr> alive := False \<rparr>, bobHead\<lparr> alive := False \<rparr>]
   \<and> snd (checkCollisions_list initialListGrid headOn) = headOn"
proof -
  have a: "claimedSkip headOn annHead ''peer-b'' 1" "claimedSkip headOn annHead ''peer-b'' 2"
    "claimedSkip headOn bobHead ''4821'' 1" "claimedSkip headOn bobHead ''4821'' 2"
    by (simp_all add: claimedSkip_def head_lookup head_fields)
  have b: "\<not> skipPoint annHead 1 (102, 97.5, 2, 1)" "\<not> skipPoint bobHead 2 (100, 100, 1, 2)"
    by (simp_all add: skipPoint_def)
  show ?thesis
    using a b head_fields(1,2,9,10) headOn_collide headOn_collide_list by simp
qed

end
